theory Spec2Isabelle
  imports Main "HOL-Library.Multiset"
begin

section \<open>Data model\<close>

text \<open>
  Identities are the UUIDs generated by the store. They are opaque, so they are numbered
  here; the all-zero UUID that the two bulk deletes use as a sentinel is number 0.
  Positions are array lengths and loop indexes in every writer of the source, hence
  natural numbers.
\<close>

type_synonym uuid = nat

definition nil_uuid :: uuid where
  "nil_uuid = 0"

text \<open>
  The \<^verbatim>\<open>Lesson\<close> interface, which is also a row of table \<^verbatim>\<open>lessons\<close>. The column
  \<^verbatim>\<open>video_iframe\<close> is nullable in the migration, so the field is optional.
\<close>

record Lesson =
  lesson_id :: uuid
  lesson_title :: string
  lesson_video_iframe :: "string option"
  lesson_position :: nat
  lesson_module_id :: uuid

text \<open>A row of table \<^verbatim>\<open>modules\<close> (the timestamps are not read by any code).\<close>

record module_row =
  row_id :: uuid
  row_name :: string
  row_position :: nat

text \<open>The \<^verbatim>\<open>Module\<close> interface: a module row with its lessons nested.\<close>

record Module =
  mod_id :: uuid
  mod_name :: string
  mod_position :: nat
  mod_lessons :: "Lesson list"

text \<open>The persisted snapshot shape: identities are left out.\<close>

record snap_lesson =
  sl_title :: string
  sl_video_iframe :: "string option"
  sl_position :: nat

record snap_module =
  sm_name :: string
  sm_position :: nat
  sm_lessons :: "snap_lesson list"

record Snapshot =
  snapshot_id :: uuid
  snapshot_name :: string
  snapshot_data :: "snap_module list option"

section \<open>The store collaborator\<close>

text \<open>
  The hosted store is modelled as its three tables, the supply of generated identities, and
  the network: \<open>requests\<close> counts the requests issued so far and \<open>outage\<close> says, for
  each request number, whether that request fails and with which message. A request that
  fails changes no table.
\<close>

datatype store_error = StoreError string

record store =
  modules_tbl :: "module_row list"
  lessons_tbl :: "Lesson list"
  snapshots_tbl :: "Snapshot list"
  next_uuid :: uuid
  requests :: nat
  outage :: "nat \<Rightarrow> string option"

definition request :: "store \<Rightarrow> string option \<times> store" where
  "request s = (outage s (requests s), s\<lparr>requests := Suc (requests s)\<rparr>)"

text \<open>\<^verbatim>\<open>from('modules').insert([{name, position}]).select().single()\<close>\<close>

definition insert_module :: "string \<Rightarrow> nat \<Rightarrow> store \<Rightarrow> (store_error + module_row) \<times> store" where
  "insert_module nm pos s =
     (case request s of
        (Some msg, s1) \<Rightarrow> (Inl (StoreError msg), s1)
      | (None, s1) \<Rightarrow>
          (let row = \<lparr>row_id = next_uuid s1, row_name = nm, row_position = pos\<rparr>
           in (Inr row, s1\<lparr>modules_tbl := modules_tbl s1 @ [row],
                           next_uuid := Suc (next_uuid s1)\<rparr>)))"

text \<open>
  \<^verbatim>\<open>from('lessons').insert(rows)\<close>: each row is \<open>(title, video_iframe, position, module_id)\<close>
  and gets a generated identity.
\<close>

fun new_lessons :: "uuid \<Rightarrow> (string \<times> string option \<times> nat \<times> uuid) list \<Rightarrow> Lesson list" where
  "new_lessons k [] = []"
| "new_lessons k ((t, v, p, m) # rest) =
     \<lparr>lesson_id = k, lesson_title = t, lesson_video_iframe = v, lesson_position = p,
      lesson_module_id = m\<rparr> # new_lessons (Suc k) rest"

definition insert_lessons ::
  "(string \<times> string option \<times> nat \<times> uuid) list \<Rightarrow> store \<Rightarrow> (store_error + Lesson list) \<times> store" where
  "insert_lessons rows s =
     (case request s of
        (Some msg, s1) \<Rightarrow> (Inl (StoreError msg), s1)
      | (None, s1) \<Rightarrow>
          (let created = new_lessons (next_uuid s1) rows
           in (Inr created, s1\<lparr>lessons_tbl := lessons_tbl s1 @ created,
                               next_uuid := next_uuid s1 + length rows\<rparr>)))"

text \<open>\<^verbatim>\<open>from('modules').update({ position: i }).eq('id', id)\<close>\<close>

definition update_module_position :: "uuid \<Rightarrow> nat \<Rightarrow> store \<Rightarrow> store_error option \<times> store" where
  "update_module_position i pos s =
     (case request s of
        (Some msg, s1) \<Rightarrow> (Some (StoreError msg), s1)
      | (None, s1) \<Rightarrow>
          (None, s1\<lparr>modules_tbl :=
                       map (\<lambda>r. if row_id r = i then r\<lparr>row_position := pos\<rparr> else r)
                         (modules_tbl s1)\<rparr>))"

text \<open>\<^verbatim>\<open>from('lessons').update({ position: i }).eq('id', id)\<close>\<close>

definition update_lesson_position :: "uuid \<Rightarrow> nat \<Rightarrow> store \<Rightarrow> store_error option \<times> store" where
  "update_lesson_position i pos s =
     (case request s of
        (Some msg, s1) \<Rightarrow> (Some (StoreError msg), s1)
      | (None, s1) \<Rightarrow>
          (None, s1\<lparr>lessons_tbl :=
                       map (\<lambda>l. if lesson_id l = i then l\<lparr>lesson_position := pos\<rparr> else l)
                         (lessons_tbl s1)\<rparr>))"

text \<open>
  Deleting module rows that satisfy \<open>doomed\<close>; the foreign key of \<^verbatim>\<open>lessons\<close> is
  \<^verbatim>\<open>ON DELETE CASCADE\<close>, so the lessons of a deleted module go with it.
\<close>

definition delete_modules_where :: "(module_row \<Rightarrow> bool) \<Rightarrow> store \<Rightarrow> store_error option \<times> store" where
  "delete_modules_where doomed s =
     (case request s of
        (Some msg, s1) \<Rightarrow> (Some (StoreError msg), s1)
      | (None, s1) \<Rightarrow>
          (let gone = map row_id (filter doomed (modules_tbl s1))
           in (None, s1\<lparr>modules_tbl := filter (\<lambda>r. \<not> doomed r) (modules_tbl s1),
                         lessons_tbl := filter (\<lambda>l. lesson_module_id l \<notin> set gone)
                                          (lessons_tbl s1)\<rparr>)))"

text \<open>\<^verbatim>\<open>from('modules').delete().eq('id', moduleId)\<close>\<close>

definition delete_module_eq :: "uuid \<Rightarrow> store \<Rightarrow> store_error option \<times> store" where
  "delete_module_eq i = delete_modules_where (\<lambda>r. row_id r = i)"

text \<open>\<^verbatim>\<open>from('modules').delete().neq('id', '00000000-0000-0000-0000-000000000000')\<close>\<close>

definition delete_modules_neq_nil :: "store \<Rightarrow> store_error option \<times> store" where
  "delete_modules_neq_nil = delete_modules_where (\<lambda>r. row_id r \<noteq> nil_uuid)"

text \<open>\<^verbatim>\<open>from('lessons').delete().eq('id', lessonId)\<close>\<close>

definition delete_lesson_eq :: "uuid \<Rightarrow> store \<Rightarrow> store_error option \<times> store" where
  "delete_lesson_eq i s =
     (case request s of
        (Some msg, s1) \<Rightarrow> (Some (StoreError msg), s1)
      | (None, s1) \<Rightarrow>
          (None, s1\<lparr>lessons_tbl := filter (\<lambda>l. lesson_id l \<noteq> i) (lessons_tbl s1)\<rparr>))"

text \<open>
  The nested select of both readers:
  \<^verbatim>\<open>select('id, name, position, lessons (...)').order('position')
        .order('position', { referencedTable: 'lessons' })\<close>.
  Rows with equal positions come in table order (the store promises no order for them).
\<close>

definition nest :: "Lesson list \<Rightarrow> module_row \<Rightarrow> Module" where
  "nest ls r =
     \<lparr>mod_id = row_id r, mod_name = row_name r, mod_position = row_position r,
      mod_lessons = sort_key lesson_position (filter (\<lambda>l. lesson_module_id l = row_id r) ls)\<rparr>"

definition select_modules :: "store \<Rightarrow> (store_error + Module list) \<times> store" where
  "select_modules s =
     (case request s of
        (Some msg, s1) \<Rightarrow> (Inl (StoreError msg), s1)
      | (None, s1) \<Rightarrow>
          (Inr (map (nest (lessons_tbl s1)) (sort_key row_position (modules_tbl s1))), s1))"

section \<open>Array helpers of the platform\<close>

text \<open>\<^verbatim>\<open>Array.prototype.findIndex\<close>: the first index whose element satisfies the test, else -1.\<close>

fun findIndex :: "('a \<Rightarrow> bool) \<Rightarrow> 'a list \<Rightarrow> int" where
  "findIndex P [] = - 1"
| "findIndex P (x # xs) =
     (if P x then 0 else (let r = findIndex P xs in if r < 0 then - 1 else r + 1))"

text \<open>The start index of \<^verbatim>\<open>Array.prototype.splice\<close>, relative to the end when negative.\<close>

definition splice_start :: "nat \<Rightarrow> int \<Rightarrow> nat" where
  "splice_start len start =
     (if start < 0 then nat (max (int len + start) 0) else min (nat start) len)"

text \<open>
  \<^verbatim>\<open>arrayMove\<close> of the drag-and-drop library:
  \<^verbatim>\<open>
  const newArray = array.slice();
  newArray.splice(to < 0 ? newArray.length + to : to, 0, newArray.splice(from, 1)[0]);
  return newArray;
  \<close>
  The insertion index is computed before the inner splice removes the element. When the
  inner splice removes nothing, \<^verbatim>\<open>undefined\<close> would be inserted; that result is \<open>None\<close>.
\<close>

definition arrayMove :: "'a list \<Rightarrow> int \<Rightarrow> int \<Rightarrow> 'a list option" where
  "arrayMove array from to =
     (let ins = (if to < 0 then int (length array) + to else to);
          i = splice_start (length array) from;
          rest = take i array @ drop (Suc i) array
      in case drop i array of
           [] \<Rightarrow> None
         | x # _ \<Rightarrow>
             (let j = splice_start (length rest) ins
              in Some (take j rest @ [x] @ drop j rest)))"

section \<open>The course manager\<close>

datatype toast = ToastSuccess string | ToastError string | ToastImported nat nat

text \<open>
  The page's state: the local \<^verbatim>\<open>modules\<close> array, the store it talks to, and the
  notifications shown so far.
\<close>

record app =
  modules :: "Module list"
  db :: store
  toasts :: "toast list"

definition notify :: "toast \<Rightarrow> app \<Rightarrow> app" where
  "notify t a = a\<lparr>toasts := toasts a @ [t]\<rparr>"

text \<open>
  A sortable identifier is the string \<^verbatim>\<open>module-<id>\<close> or \<^verbatim>\<open>lesson-<id>\<close>; the
  constructor stands for the prefix that \<^verbatim>\<open>startsWith\<close> tests.
\<close>

datatype sortable_id = ModuleTag uuid | LessonTag uuid | OtherTag string

record DragEndEvent =
  active :: sortable_id
  over :: "sortable_id option"

text \<open>
  The one way a drag handler can break the page: \<^verbatim>\<open>arrayMove\<close> on an empty list yields an
  array that holds \<^verbatim>\<open>undefined\<close>, which becomes the local list and cannot be rendered.
\<close>

datatype ui_error = UndefinedEntry

fun is_module_tag :: "sortable_id \<Rightarrow> bool" where
  "is_module_tag (ModuleTag _) = True"
| "is_module_tag _ = False"

fun is_lesson_tag :: "sortable_id \<Rightarrow> bool" where
  "is_lesson_tag (LessonTag _) = True"
| "is_lesson_tag _ = False"

fun updateModulePositions_from :: "nat \<Rightarrow> Module list \<Rightarrow> store \<Rightarrow> store_error option \<times> store" where
  "updateModulePositions_from i [] s = (None, s)"
| "updateModulePositions_from i (m # ms) s =
     (case update_module_position (mod_id m) i s of
        (Some e, s1) \<Rightarrow> (Some e, s1)
      | (None, s1) \<Rightarrow> updateModulePositions_from (Suc i) ms s1)"

definition updateModulePositions :: "Module list \<Rightarrow> app \<Rightarrow> app" where
  "updateModulePositions newModules a =
     (case updateModulePositions_from 0 newModules (db a) of
        (Some e, s1) \<Rightarrow> notify (ToastError ''Failed to update module order'') (a\<lparr>db := s1\<rparr>)
      | (None, s1) \<Rightarrow> a\<lparr>db := s1\<rparr>)"

definition handleDragEnd :: "DragEndEvent \<Rightarrow> app \<Rightarrow> ui_error + app" where
  "handleDragEnd event a =
     (case over event of
        None \<Rightarrow> Inr a
      | Some overId \<Rightarrow>
          if active event = overId then Inr a
          else if is_module_tag (active event) \<and> is_module_tag overId then
            (let oldIndex = findIndex (\<lambda>m. ModuleTag (mod_id m) = active event) (modules a);
                 newIndex = findIndex (\<lambda>m. ModuleTag (mod_id m) = overId) (modules a)
             in case arrayMove (modules a) oldIndex newIndex of
                  None \<Rightarrow> Inl UndefinedEntry
                | Some newModules \<Rightarrow>
                    Inr (updateModulePositions newModules (a\<lparr>modules := newModules\<rparr>)))
          else Inr a)"

text \<open>\<^verbatim>\<open>updateModule\<close>, handed to every module card as \<^verbatim>\<open>onUpdate\<close>.\<close>

definition updateModule :: "uuid \<Rightarrow> Module \<Rightarrow> app \<Rightarrow> app" where
  "updateModule moduleId updatedModule a =
     a\<lparr>modules := map (\<lambda>m. if mod_id m = moduleId then updatedModule else m) (modules a)\<rparr>"

subsection \<open>The module card\<close>

fun updateLessonPositions_from :: "nat \<Rightarrow> Lesson list \<Rightarrow> store \<Rightarrow> store_error option \<times> store" where
  "updateLessonPositions_from i [] s = (None, s)"
| "updateLessonPositions_from i (l # ls) s =
     (case update_lesson_position (lesson_id l) i s of
        (Some e, s1) \<Rightarrow> (Some e, s1)
      | (None, s1) \<Rightarrow> updateLessonPositions_from (Suc i) ls s1)"

definition updateLessonPositions :: "Lesson list \<Rightarrow> app \<Rightarrow> app" where
  "updateLessonPositions newLessons a =
     (case updateLessonPositions_from 0 newLessons (db a) of
        (Some e, s1) \<Rightarrow> notify (ToastError ''Failed to update lesson order'') (a\<lparr>db := s1\<rparr>)
      | (None, s1) \<Rightarrow> a\<lparr>db := s1\<rparr>)"

text \<open>The card's \<^verbatim>\<open>module\<close> prop is the first argument of its handlers.\<close>

definition handleLessonDragEnd :: "Module \<Rightarrow> DragEndEvent \<Rightarrow> app \<Rightarrow> ui_error + app" where
  "handleLessonDragEnd modl event a =
     (case over event of
        None \<Rightarrow> Inr a
      | Some overId \<Rightarrow>
          if active event = overId then Inr a
          else if is_lesson_tag (active event) \<and> is_lesson_tag overId then
            (let oldIndex = findIndex (\<lambda>l. LessonTag (lesson_id l) = active event)
                              (mod_lessons modl);
                 newIndex = findIndex (\<lambda>l. LessonTag (lesson_id l) = overId)
                              (mod_lessons modl)
             in case arrayMove (mod_lessons modl) oldIndex newIndex of
                  None \<Rightarrow> Inl UndefinedEntry
                | Some newLessons \<Rightarrow>
                    Inr (updateLessonPositions newLessons
                          (updateModule (mod_id modl)
                             (modl\<lparr>mod_lessons := newLessons\<rparr>) a)))
          else Inr a)"


text \<open>
  \<^verbatim>\<open>!text.trim()\<close>: the text is empty or consists only of the white space and line
  terminators that \<^verbatim>\<open>String.prototype.trim\<close> strips. A \<open>char\<close> is a code unit below 256,
  and of these \<^verbatim>\<open>trim\<close> strips U+0009 to U+000D, U+0020 and the no-break space U+00A0;
  all other white space (U+1680, U+2000 to U+200A, U+2028, U+2029, U+202F, U+205F, U+3000,
  U+FEFF) lies beyond U+00FF and is no \<open>char\<close>.
\<close>

definition js_whitespace :: "char \<Rightarrow> bool" where
  "js_whitespace c =
     (c \<in> set [CHR 0x09, CHR 0x0A, CHR 0x0B, CHR 0x0C, CHR 0x0D, CHR 0x20, CHR 0xA0])"

definition blank :: "string \<Rightarrow> bool" where
  "blank text = list_all js_whitespace text"

definition addLesson :: "Module \<Rightarrow> string \<Rightarrow> string \<Rightarrow> app \<Rightarrow> app" where
  "addLesson modl newLessonTitle newLessonIframe a =
     (if blank newLessonTitle then a
      else case insert_lessons
                  [(newLessonTitle, Some newLessonIframe, length (mod_lessons modl), mod_id modl)]
                  (db a) of
             (Inl e, s1) \<Rightarrow> notify (ToastError ''Failed to add lesson'') (a\<lparr>db := s1\<rparr>)
           | (Inr created, s1) \<Rightarrow>
               notify (ToastSuccess ''Lesson added successfully'')
                 (updateModule (mod_id modl)
                    (modl\<lparr>mod_lessons := mod_lessons modl @ created\<rparr>) (a\<lparr>db := s1\<rparr>)))"

definition deleteLesson :: "Module \<Rightarrow> uuid \<Rightarrow> app \<Rightarrow> app" where
  "deleteLesson modl lessonId a =
     (case delete_lesson_eq lessonId (db a) of
        (Some e, s1) \<Rightarrow> notify (ToastError ''Failed to delete lesson'') (a\<lparr>db := s1\<rparr>)
      | (None, s1) \<Rightarrow>
          notify (ToastSuccess ''Lesson deleted successfully'')
            (updateModule (mod_id modl)
               (modl\<lparr>mod_lessons := filter (\<lambda>l. lesson_id l \<noteq> lessonId) (mod_lessons modl)\<rparr>)
               (a\<lparr>db := s1\<rparr>)))"

subsection \<open>The page's own operations\<close>

definition fetchModules :: "app \<Rightarrow> app" where
  "fetchModules a =
     (case select_modules (db a) of
        (Inl e, s1) \<Rightarrow> notify (ToastError ''Failed to fetch modules'') (a\<lparr>db := s1\<rparr>)
      | (Inr data, s1) \<Rightarrow> a\<lparr>modules := data, db := s1\<rparr>)"

definition addModule :: "string \<Rightarrow> app \<Rightarrow> app" where
  "addModule newModuleName a =
     (if blank newModuleName then a
      else case insert_module newModuleName (length (modules a)) (db a) of
             (Inl e, s1) \<Rightarrow> notify (ToastError ''Failed to add module'') (a\<lparr>db := s1\<rparr>)
           | (Inr data, s1) \<Rightarrow>
               notify (ToastSuccess ''Module added successfully'')
                 (a\<lparr>modules := modules a @
                                 [\<lparr>mod_id = row_id data, mod_name = row_name data,
                                   mod_position = row_position data, mod_lessons = []\<rparr>],
                    db := s1\<rparr>))"

definition deleteModule :: "uuid \<Rightarrow> app \<Rightarrow> app" where
  "deleteModule moduleId a =
     (case delete_module_eq moduleId (db a) of
        (Some e, s1) \<Rightarrow> notify (ToastError ''Failed to delete module'') (a\<lparr>db := s1\<rparr>)
      | (None, s1) \<Rightarrow>
          notify (ToastSuccess ''Module deleted successfully'')
            (a\<lparr>modules := filter (\<lambda>m. mod_id m \<noteq> moduleId) (modules a), db := s1\<rparr>))"

text \<open>
  One record of the import/export text and of the read feed. A field that is \<^verbatim>\<open>null\<close>
  or absent is \<open>None\<close>.
\<close>

record CourseItem =
  item_module :: "string option"
  item_title :: "string option"
  item_videoIframe :: "string option"
  item_url :: "string option"

text \<open>\<^verbatim>\<open>exportData\<close>: the two nested iterations push one record per lesson.\<close>

definition exportData :: "app \<Rightarrow> CourseItem list" where
  "exportData a =
     foldl (\<lambda>out m.
        foldl (\<lambda>out l.
           out @ [\<lparr>item_module = Some (mod_name m), item_title = Some (lesson_title l),
                    item_videoIframe = lesson_video_iframe l, item_url = None\<rparr>])
          out (mod_lessons m))
       [] (modules a)"

section \<open>Snapshots\<close>

text \<open>\<^verbatim>\<open>from('snapshots').insert([{name, data}]).select().single()\<close>\<close>

definition insert_snapshot ::
  "string \<Rightarrow> snap_module list \<Rightarrow> store \<Rightarrow> (store_error + Snapshot) \<times> store" where
  "insert_snapshot nm dat s =
     (case request s of
        (Some msg, s1) \<Rightarrow> (Inl (StoreError msg), s1)
      | (None, s1) \<Rightarrow>
          (let row = \<lparr>snapshot_id = next_uuid s1, snapshot_name = nm, snapshot_data = Some dat\<rparr>
           in (Inr row, s1\<lparr>snapshots_tbl := snapshots_tbl s1 @ [row],
                           next_uuid := Suc (next_uuid s1)\<rparr>)))"

text \<open>The \<^verbatim>\<open>snapshotData\<close> that \<^verbatim>\<open>createSnapshot\<close> prepares from its \<^verbatim>\<open>modules\<close> prop.\<close>

definition snapshotData :: "Module list \<Rightarrow> snap_module list" where
  "snapshotData ms =
     map (\<lambda>m. \<lparr>sm_name = mod_name m, sm_position = mod_position m,
               sm_lessons = map (\<lambda>l. \<lparr>sl_title = lesson_title l,
                                       sl_video_iframe = lesson_video_iframe l,
                                       sl_position = lesson_position l\<rparr>) (mod_lessons m)\<rparr>) ms"

text \<open>The snapshot manager keeps the list of snapshots it has fetched or created.\<close>

fun createSnapshot :: "string \<Rightarrow> Snapshot list \<times> app \<Rightarrow> Snapshot list \<times> app" where
  "createSnapshot newSnapshotName (snapshots, a) =
     (if blank newSnapshotName then (snapshots, a)
      else (case insert_snapshot newSnapshotName (snapshotData (modules a)) (db a) of
              (Inl e, s1) \<Rightarrow>
                (snapshots, notify (ToastError ''Failed to create snapshot'') (a\<lparr>db := s1\<rparr>))
            | (Inr data, s1) \<Rightarrow>
                (data # snapshots,
                 notify (ToastSuccess ''Snapshot created successfully'') (a\<lparr>db := s1\<rparr>))))"

fun restore_modules :: "snap_module list \<Rightarrow> store \<Rightarrow> store_error option \<times> store" where
  "restore_modules [] s = (None, s)"
| "restore_modules (moduleData # rest) s =
     (case insert_module (sm_name moduleData) (sm_position moduleData) s of
        (Inl e, s1) \<Rightarrow> (Some e, s1)
      | (Inr newModule, s1) \<Rightarrow>
          if length (sm_lessons moduleData) > 0 then
            (case insert_lessons
                    (map (\<lambda>lesson. (sl_title lesson, sl_video_iframe lesson, sl_position lesson,
                                     row_id newModule)) (sm_lessons moduleData)) s1 of
               (Inl e, s2) \<Rightarrow> (Some e, s2)
             | (Inr _, s2) \<Rightarrow> restore_modules rest s2)
          else restore_modules rest s1)"

definition restoreSnapshot :: "Snapshot \<Rightarrow> app \<Rightarrow> app" where
  "restoreSnapshot snapshot a =
     (case delete_modules_neq_nil (db a) of
        (Some e, s1) \<Rightarrow> notify (ToastError ''Failed to restore snapshot'') (a\<lparr>db := s1\<rparr>)
      | (None, s1) \<Rightarrow>
          (let snapshotModules = (case snapshot_data snapshot of None \<Rightarrow> [] | Some ms \<Rightarrow> ms)
           in case restore_modules snapshotModules s1 of
                (Some e, s2) \<Rightarrow> notify (ToastError ''Failed to restore snapshot'') (a\<lparr>db := s2\<rparr>)
              | (None, s2) \<Rightarrow>
                  fetchModules (notify (ToastSuccess ''Snapshot restored successfully'')
                                  (a\<lparr>db := s2\<rparr>))))"

section \<open>The import dialog\<close>

text \<open>
  What \<^verbatim>\<open>jsonInput.trim()\<close>, \<^verbatim>\<open>JSON.parse\<close> and \<^verbatim>\<open>Array.isArray\<close> make of the text in
  the dialog: nothing, a syntax error, a value that is not an array, or an array. An element
  of the array is \<^verbatim>\<open>null\<close> (\<open>None\<close>) or a value whose fields can be read: an object, or a
  number, string, boolean or array, which has none of the three fields. The fields hold
  strings, as \<^verbatim>\<open>ImportItem\<close> declares them; a field that is absent, \<^verbatim>\<open>null\<close> or another
  value that counts as false is \<open>None\<close>.
\<close>

datatype json_input = BlankText | Malformed | NotArray | ItemArray "CourseItem option list"

text \<open>
  The messages of \<^verbatim>\<open>setError\<close>; \<open>MissingFields n\<close> is
  \<^verbatim>\<open>`Item ${n}: Missing required fields (module, title)`\<close>.
\<close>

datatype import_error = EnterJson | InvalidJson | MustBeArray | MissingFields nat

text \<open>A record that passed the validation (\<^verbatim>\<open>ImportItem\<close>).\<close>

record ImportItem =
  imp_module :: string
  imp_title :: string
  imp_videoIframe :: "string option"

record import_dialog =
  jsonInput :: json_input
  previewData :: "ImportItem list option"
  error :: "import_error option"

text \<open>\<^verbatim>\<open>!item.module || !item.title\<close> is false exactly for two non-empty strings.\<close>

definition checked :: "CourseItem \<Rightarrow> ImportItem option" where
  "checked item =
     (case (item_module item, item_title item) of
        (Some m, Some t) \<Rightarrow>
          if m = [] \<or> t = [] then None
          else Some \<lparr>imp_module = m, imp_title = t, imp_videoIframe = item_videoIframe item\<rparr>
      | _ \<Rightarrow> None)"

text \<open>
  The validation loop, inside the \<^verbatim>\<open>try\<close> block. Reading \<^verbatim>\<open>item.module\<close> of a \<^verbatim>\<open>null\<close>
  element throws, and the \<^verbatim>\<open>catch\<close> written for \<^verbatim>\<open>JSON.parse\<close> answers with its message.
\<close>

fun validate_from :: "nat \<Rightarrow> CourseItem option list \<Rightarrow> import_error + ImportItem list" where
  "validate_from i [] = Inr []"
| "validate_from i (None # rest) = Inl InvalidJson"
| "validate_from i (Some item # rest) =
     (case checked item of
        None \<Rightarrow> Inl (MissingFields (i + 1))
      | Some ok \<Rightarrow>
          (case validate_from (i + 1) rest of
             Inl e \<Rightarrow> Inl e
           | Inr oks \<Rightarrow> Inr (ok # oks)))"

definition validateAndPreview :: "import_dialog \<Rightarrow> import_dialog" where
  "validateAndPreview d =
     (let d0 = d\<lparr>error := None, previewData := None\<rparr>
      in case jsonInput d of
           BlankText \<Rightarrow> d0\<lparr>error := Some EnterJson\<rparr>
         | Malformed \<Rightarrow> d0\<lparr>error := Some InvalidJson\<rparr>
         | NotArray \<Rightarrow> d0\<lparr>error := Some MustBeArray\<rparr>
         | ItemArray parsed \<Rightarrow>
             (case validate_from 0 parsed of
                Inl e \<Rightarrow> d0\<lparr>error := Some e\<rparr>
              | Inr items \<Rightarrow> d0\<lparr>previewData := Some items\<rparr>))"

text \<open>
  The \<^verbatim>\<open>Map<string, ImportItem[]>\<close> of \<^verbatim>\<open>processImport\<close>, whose entries iterate in the
  order in which the keys were first set.
\<close>

type_synonym moduleMap = "(string \<times> ImportItem list) list"

definition map_has :: "moduleMap \<Rightarrow> string \<Rightarrow> bool" where
  "map_has mp k = (k \<in> set (map fst mp))"

definition map_set_empty :: "moduleMap \<Rightarrow> string \<Rightarrow> moduleMap" where
  "map_set_empty mp k = mp @ [(k, [])]"

definition map_get_push :: "moduleMap \<Rightarrow> string \<Rightarrow> ImportItem \<Rightarrow> moduleMap" where
  "map_get_push mp k item = map (\<lambda>(k', v). if k' = k then (k', v @ [item]) else (k', v)) mp"

definition group_item :: "moduleMap \<Rightarrow> ImportItem \<Rightarrow> moduleMap" where
  "group_item mp item =
     map_get_push
       (if \<not> map_has mp (imp_module item) then map_set_empty mp (imp_module item) else mp)
       (imp_module item) item"

definition group_by_module :: "ImportItem list \<Rightarrow> moduleMap" where
  "group_by_module items = foldl group_item [] items"

text \<open>\<^verbatim>\<open>lesson.videoIframe || ''\<close>\<close>

definition or_empty :: "string option \<Rightarrow> string" where
  "or_empty v = (case v of None \<Rightarrow> [] | Some text \<Rightarrow> text)"

definition lessonsToInsert :: "uuid \<Rightarrow> ImportItem list \<Rightarrow> (string \<times> string option \<times> nat \<times> uuid) list" where
  "lessonsToInsert newModuleId lessons =
     map (\<lambda>(lesson, index). (imp_title lesson, Some (or_empty (imp_videoIframe lesson)), index,
                              newModuleId))
       (zip lessons [0..<length lessons])"

fun import_modules :: "nat \<Rightarrow> moduleMap \<Rightarrow> store \<Rightarrow> store_error option \<times> store" where
  "import_modules modulePosition [] s = (None, s)"
| "import_modules modulePosition ((moduleName, lessons) # rest) s =
     (case insert_module moduleName modulePosition s of
        (Inl e, s1) \<Rightarrow> (Some e, s1)
      | (Inr newModule, s1) \<Rightarrow>
          (case insert_lessons (lessonsToInsert (row_id newModule) lessons) s1 of
             (Inl e, s2) \<Rightarrow> (Some e, s2)
           | (Inr _, s2) \<Rightarrow> import_modules (modulePosition + 1) rest s2))"

fun processImport :: "import_dialog \<times> app \<Rightarrow> import_dialog \<times> app" where
  "processImport (d, a) =
     (case previewData d of
        None \<Rightarrow> (d, a)
      | Some items \<Rightarrow>
          (case delete_modules_neq_nil (db a) of
             (Some e, s1) \<Rightarrow> (d, notify (ToastError ''Failed to import data'') (a\<lparr>db := s1\<rparr>))
           | (None, s1) \<Rightarrow>
               (case import_modules 0 (group_by_module items) s1 of
                  (Some e, s2) \<Rightarrow>
                    (d, notify (ToastError ''Failed to import data'') (a\<lparr>db := s2\<rparr>))
                | (None, s2) \<Rightarrow>
                    (d\<lparr>jsonInput := BlankText, previewData := None\<rparr>,
                     fetchModules
                       (notify (ToastImported (length (group_by_module items)) (length items))
                          (a\<lparr>db := s2\<rparr>))))))"

section \<open>The read feed endpoint\<close>

text \<open>
  \<^verbatim>\<open>createClient\<close> either returns a client for the environment's URL and key or throws
  an error with a message.
\<close>

datatype client_config = ClientReady | ClientThrows string

datatype response_body = NoBody | Feed "CourseItem list" | ErrorBody string string

record response =
  status :: nat
  headers :: "(string \<times> string) list"
  body :: response_body

definition corsHeaders :: "(string \<times> string) list" where
  "corsHeaders =
     [(''Access-Control-Allow-Origin'', ''*''),
      (''Access-Control-Allow-Headers'', ''authorization, x-client-info, apikey, content-type'')]"

definition internal_error :: "string \<Rightarrow> response" where
  "internal_error message =
     \<lparr>status = 500, headers = corsHeaders @ [(''Content-Type'', ''application/json'')],
      body = ErrorBody ''Internal server error'' message\<rparr>"

definition transformedData :: "Module list \<Rightarrow> CourseItem list" where
  "transformedData ms =
     foldl (\<lambda>out m.
        if length (mod_lessons m) > 0 then
          foldl (\<lambda>out l.
             out @ [\<lparr>item_module = Some (mod_name m), item_title = Some (lesson_title l),
                      item_videoIframe = Some (or_empty (lesson_video_iframe l)),
                      item_url = None\<rparr>])
            out (mod_lessons m)
        else out)
       [] ms"

definition courses_api :: "string \<Rightarrow> client_config \<Rightarrow> store \<Rightarrow> response \<times> store" where
  "courses_api method cfg s =
     (if method = ''OPTIONS'' then (\<lparr>status = 200, headers = corsHeaders, body = NoBody\<rparr>, s)
      else case cfg of
             ClientThrows message \<Rightarrow> (internal_error message, s)
           | ClientReady \<Rightarrow>
               (case select_modules s of
                  (Inl (StoreError message), s1) \<Rightarrow> (internal_error message, s1)
                | (Inr ms, s1) \<Rightarrow>
                    (\<lparr>status = 200,
                      headers = corsHeaders @ [(''Content-Type'', ''application/json'')],
                      body = Feed (transformedData ms)\<rparr>, s1)))"


section \<open>Reference definitions and example data\<close>

text \<open>
  The reorder operation as the specification words it: remove the entity at the index of
  \<open>movedId\<close>, then reinsert it, in the list without it, at the index that \<open>targetId\<close>
  has in the given list.
\<close>

definition index_of :: "('a \<Rightarrow> bool) \<Rightarrow> 'a list \<Rightarrow> nat" where
  "index_of P xs = length (takeWhile (\<lambda>x. \<not> P x) xs)"

definition reorder_spec :: "('a \<Rightarrow> 'k) \<Rightarrow> 'a list \<Rightarrow> 'k \<Rightarrow> 'k \<Rightarrow> 'a list" where
  "reorder_spec key order movedId targetId =
     (let i = index_of (\<lambda>x. key x = movedId) order;
          j = index_of (\<lambda>x. key x = targetId) order;
          removed = take i order @ drop (Suc i) order
      in take j removed @ [order ! i] @ drop j removed)"

text \<open>A store that answers every request.\<close>

definition no_outage :: "nat \<Rightarrow> string option" where
  "no_outage = (\<lambda>_. None)"

text \<open>Four modules A, B, C, D without lessons, as fetched from the store.\<close>

definition example_rows :: "module_row list" where
  "example_rows =
     [\<lparr>row_id = 1, row_name = ''A'', row_position = 0\<rparr>,
      \<lparr>row_id = 2, row_name = ''B'', row_position = 1\<rparr>,
      \<lparr>row_id = 3, row_name = ''C'', row_position = 2\<rparr>,
      \<lparr>row_id = 4, row_name = ''D'', row_position = 3\<rparr>]"

definition example_store :: store where
  "example_store =
     \<lparr>modules_tbl = example_rows, lessons_tbl = [], snapshots_tbl = [], next_uuid = 5,
      requests = 0, outage = no_outage\<rparr>"

definition example_app :: app where
  "example_app = \<lparr>modules = map (nest []) example_rows, db = example_store, toasts = []\<rparr>"

text \<open>One module with the lessons P, Q, R, for the lesson scope.\<close>

definition example_lessons :: "Lesson list" where
  "example_lessons =
     [\<lparr>lesson_id = 2, lesson_title = ''P'', lesson_video_iframe = Some [], lesson_position = 0,
       lesson_module_id = 1\<rparr>,
      \<lparr>lesson_id = 3, lesson_title = ''Q'', lesson_video_iframe = Some [], lesson_position = 1,
       lesson_module_id = 1\<rparr>,
      \<lparr>lesson_id = 4, lesson_title = ''R'', lesson_video_iframe = None, lesson_position = 2,
       lesson_module_id = 1\<rparr>]"

definition example_card :: Module where
  "example_card =
     \<lparr>mod_id = 1, mod_name = ''A'', mod_position = 0, mod_lessons = example_lessons\<rparr>"

definition example_card_app :: app where
  "example_card_app =
     \<lparr>modules = [example_card],
      db = \<lparr>modules_tbl = [\<lparr>row_id = 1, row_name = ''A'', row_position = 0\<rparr>],
            lessons_tbl = example_lessons, snapshots_tbl = [], next_uuid = 5,
            requests = 0, outage = no_outage\<rparr>,
      toasts = []\<rparr>"

text \<open>
  The store answers every request from now on.
\<close>

definition reliable :: "store \<Rightarrow> bool" where
  "reliable s = (\<forall>k. requests s \<le> k \<longrightarrow> outage s k = None)"

text \<open>
  What the schema and the identity generator guarantee: primary keys are unique, generated
  identities are never the all-zero one and are older than the next one to be generated,
  and every lesson refers to an existing module.
\<close>

definition wf_store :: "store \<Rightarrow> bool" where
  "wf_store s =
     (distinct (map row_id (modules_tbl s)) \<and> distinct (map lesson_id (lessons_tbl s))
      \<and> (\<forall>r\<in>set (modules_tbl s). row_id r \<noteq> nil_uuid \<and> row_id r < next_uuid s)
      \<and> (\<forall>l\<in>set (lessons_tbl s).
            lesson_module_id l \<in> row_id ` set (modules_tbl s) \<and> lesson_id l < next_uuid s))"

text \<open>Identities in use are older than the next generated one.\<close>

definition older :: "store \<Rightarrow> bool" where
  "older s = ((\<forall>r\<in>set (modules_tbl s). row_id r < next_uuid s)
              \<and> (\<forall>l\<in>set (lessons_tbl s). lesson_module_id l < next_uuid s))"

text \<open>The hierarchy the store holds, in table order and without identities.\<close>

definition strip_lesson :: "Lesson \<Rightarrow> snap_lesson" where
  "strip_lesson l =
     \<lparr>sl_title = lesson_title l, sl_video_iframe = lesson_video_iframe l,
      sl_position = lesson_position l\<rparr>"

definition store_tree :: "store \<Rightarrow> snap_module list" where
  "store_tree s =
     map (\<lambda>r. \<lparr>sm_name = row_name r, sm_position = row_position r,
               sm_lessons = map strip_lesson
                              (filter (\<lambda>l. lesson_module_id l = row_id r) (lessons_tbl s))\<rparr>)
       (modules_tbl s)"

text \<open>
  The positions the specification prescribes for a bulk replace: the \<open>i\<close>-th group becomes
  a module at position \<open>i\<close>, the \<open>j\<close>-th record of a group a lesson at position \<open>j\<close>.
\<close>

definition derived_lessons :: "ImportItem list \<Rightarrow> snap_lesson list" where
  "derived_lessons ls =
     map (\<lambda>j. \<lparr>sl_title = imp_title (ls ! j),
               sl_video_iframe = Some (or_empty (imp_videoIframe (ls ! j))),
               sl_position = j\<rparr>) [0..<length ls]"

definition derived_tree :: "moduleMap \<Rightarrow> snap_module list" where
  "derived_tree mp =
     map (\<lambda>i. \<lparr>sm_name = fst (mp ! i), sm_position = i,
               sm_lessons = derived_lessons (snd (mp ! i))\<rparr>) [0..<length mp]"

text \<open>A hierarchy listed in position order, as a fetch returns it.\<close>

definition in_position_order :: "snap_module list \<Rightarrow> bool" where
  "in_position_order tree =
     (sorted (map sm_position tree) \<and> list_all (\<lambda>m. sorted (map sl_position (sm_lessons m))) tree)"

text \<open>The distinct elements of a list in the order of their first occurrence.\<close>

definition first_seen :: "'a list \<Rightarrow> 'a list" where
  "first_seen xs = rev (remdups (rev xs))"

text \<open>The three records of the specification's grouping example.\<close>

definition grouping_example :: "CourseItem list" where
  "grouping_example =
     [\<lparr>item_module = Some ''M1'', item_title = Some ''L1'', item_videoIframe = None, item_url = None\<rparr>,
      \<lparr>item_module = Some ''M2'', item_title = Some ''L2'', item_videoIframe = None, item_url = None\<rparr>,
      \<lparr>item_module = Some ''M1'', item_title = Some ''L3'', item_videoIframe = None, item_url = None\<rparr>]"

text \<open>A record whose module or title field is missing or empty.\<close>

definition offending :: "CourseItem \<Rightarrow> bool" where
  "offending item =
     (item_module item = None \<or> item_module item = Some [] \<or>
      item_title item = None \<or> item_title item = Some [])"

text \<open>
  An element of the parsed array that the validation does not accept: \<^verbatim>\<open>null\<close>, or a
  record whose module or title field is missing or empty.
\<close>

definition unusable :: "CourseItem option \<Rightarrow> bool" where
  "unusable e = (case e of None \<Rightarrow> True | Some item \<Rightarrow> offending item)"

text \<open>
  The lessons of the store, each with its module: modules by position, and the lessons of
  one module by position.
\<close>

definition feed_rows :: "store \<Rightarrow> (module_row \<times> Lesson) list" where
  "feed_rows s =
     concat (map (\<lambda>r. map (Pair r)
                         (sort_key lesson_position
                            (filter (\<lambda>l. lesson_module_id l = row_id r) (lessons_tbl s))))
               (sort_key row_position (modules_tbl s)))"

text \<open>The feed element for a lesson of a module.\<close>

definition feed_item :: "module_row \<times> Lesson \<Rightarrow> CourseItem" where
  "feed_item p =
     \<lparr>item_module = Some (row_name (fst p)), item_title = Some (lesson_title (snd p)),
      item_videoIframe = Some (case lesson_video_iframe (snd p) of None \<Rightarrow> [] | Some v \<Rightarrow> v),
      item_url = None\<rparr>"

text \<open>A store whose every request fails.\<close>

definition failing_store :: store where
  "failing_store = example_store\<lparr>outage := (\<lambda>_. Some ''connection lost'')\<rparr>"

text \<open>
  The flat records that carry the same modules and lessons as a nested tree: the shape of
  an import that is equivalent to a snapshot.
\<close>

definition flat_records :: "snap_module list \<Rightarrow> ImportItem list" where
  "flat_records tree =
     concat (map (\<lambda>m. map (\<lambda>l. \<lparr>imp_module = sm_name m, imp_title = sl_title l,
                                   imp_videoIframe = sl_video_iframe l\<rparr>) (sm_lessons m)) tree)"

text \<open>The position values of a tree, and the ones that array order alone prescribes.\<close>

definition tree_positions :: "snap_module list \<Rightarrow> (nat \<times> nat list) list" where
  "tree_positions tree = map (\<lambda>m. (sm_position m, map sl_position (sm_lessons m))) tree"

definition index_positions :: "snap_module list \<Rightarrow> (nat \<times> nat list) list" where
  "index_positions tree =
     map (\<lambda>i. (i, [0..<length (sm_lessons (tree ! i))])) [0..<length tree]"

text \<open>
  What \<^verbatim>\<open>createSnapshot\<close> captures from the local list [B, A] that a reorder of [A, B] leaves
  behind: the position fields are still those of the old order.
\<close>

definition stale_tree :: "snap_module list" where
  "stale_tree =
     [\<lparr>sm_name = ''B'', sm_position = 1,
       sm_lessons = [\<lparr>sl_title = ''L2'', sl_video_iframe = Some ''v'', sl_position = 0\<rparr>]\<rparr>,
      \<lparr>sm_name = ''A'', sm_position = 0,
       sm_lessons = [\<lparr>sl_title = ''L1'', sl_video_iframe = Some ''v'', sl_position = 0\<rparr>]\<rparr>]"

text \<open>A tree as a fetch of dense positions yields it.\<close>

definition fresh_tree :: "snap_module list" where
  "fresh_tree =
     [\<lparr>sm_name = ''A'', sm_position = 0,
       sm_lessons = [\<lparr>sl_title = ''L1'', sl_video_iframe = Some ''v'', sl_position = 0\<rparr>,
                     \<lparr>sl_title = ''L2'', sl_video_iframe = None, sl_position = 1\<rparr>]\<rparr>,
      \<lparr>sm_name = ''B'', sm_position = 1,
       sm_lessons = [\<lparr>sl_title = ''L3'', sl_video_iframe = Some ''v'', sl_position = 0\<rparr>]\<rparr>]"

text \<open>
  Two modules that share the name M with a module X between them, as three uses of
  \<^verbatim>\<open>addModule\<close> and \<^verbatim>\<open>addLesson\<close> produce them.
\<close>

definition twin_lessons :: "Lesson list" where
  "twin_lessons =
     [\<lparr>lesson_id = 4, lesson_title = ''L1'', lesson_video_iframe = Some ''v'', lesson_position = 0,
       lesson_module_id = 1\<rparr>,
      \<lparr>lesson_id = 5, lesson_title = ''L2'', lesson_video_iframe = Some ''v'', lesson_position = 0,
       lesson_module_id = 2\<rparr>,
      \<lparr>lesson_id = 6, lesson_title = ''L3'', lesson_video_iframe = Some ''v'', lesson_position = 0,
       lesson_module_id = 3\<rparr>]"

definition twin_rows :: "module_row list" where
  "twin_rows =
     [\<lparr>row_id = 1, row_name = ''M'', row_position = 0\<rparr>,
      \<lparr>row_id = 2, row_name = ''X'', row_position = 1\<rparr>,
      \<lparr>row_id = 3, row_name = ''M'', row_position = 2\<rparr>]"

definition twin_app :: app where
  "twin_app =
     \<lparr>modules = map (nest twin_lessons) twin_rows,
      db = \<lparr>modules_tbl = twin_rows, lessons_tbl = twin_lessons, snapshots_tbl = [],
            next_uuid = 7, requests = 0, outage = no_outage\<rparr>,
      toasts = []\<rparr>"

text \<open>The export of a record whose video markup went through \<^verbatim>\<open>videoIframe || ''\<close>.\<close>

definition with_video_text :: "CourseItem \<Rightarrow> CourseItem" where
  "with_video_text item = item\<lparr>item_videoIframe := Some (or_empty (item_videoIframe item))\<rparr>"

text \<open>Two modules with distinct names, A with two lessons and B with one.\<close>

definition tidy_lessons :: "Lesson list" where
  "tidy_lessons =
     [\<lparr>lesson_id = 3, lesson_title = ''L1'', lesson_video_iframe = Some ''v'', lesson_position = 0,
       lesson_module_id = 1\<rparr>,
      \<lparr>lesson_id = 4, lesson_title = ''L2'', lesson_video_iframe = Some [], lesson_position = 1,
       lesson_module_id = 1\<rparr>,
      \<lparr>lesson_id = 5, lesson_title = ''L3'', lesson_video_iframe = Some ''v'', lesson_position = 0,
       lesson_module_id = 2\<rparr>]"

definition tidy_rows :: "module_row list" where
  "tidy_rows =
     [\<lparr>row_id = 1, row_name = ''A'', row_position = 0\<rparr>,
      \<lparr>row_id = 2, row_name = ''B'', row_position = 1\<rparr>]"

definition tidy_app :: app where
  "tidy_app =
     \<lparr>modules = map (nest tidy_lessons) tidy_rows,
      db = \<lparr>modules_tbl = tidy_rows, lessons_tbl = tidy_lessons, snapshots_tbl = [],
            next_uuid = 6, requests = 0, outage = no_outage\<rparr>,
      toasts = []\<rparr>"

text \<open>
  The position values of the two kinds of sibling scope as the store holds them, and what it
  means for them to be exactly \<open>0, \<dots>, n - 1\<close>.
\<close>

definition module_scope :: "store \<Rightarrow> nat list" where
  "module_scope s = map row_position (modules_tbl s)"

definition lesson_scope :: "store \<Rightarrow> uuid \<Rightarrow> nat list" where
  "lesson_scope s m =
     map lesson_position (filter (\<lambda>l. lesson_module_id l = m) (lessons_tbl s))"

definition dense :: "nat list \<Rightarrow> bool" where
  "dense ps = (sort ps = [0..<length ps])"

text \<open>The local list holds exactly the entities the store holds for the scope.\<close>

definition modules_in_sync :: "app \<Rightarrow> bool" where
  "modules_in_sync a = (mset (map mod_id (modules a)) = mset (map row_id (modules_tbl (db a))))"

definition lessons_in_sync :: "Module \<Rightarrow> app \<Rightarrow> bool" where
  "lessons_in_sync modl a =
     (mset (map lesson_id (mod_lessons modl))
        = mset (map lesson_id
                 (filter (\<lambda>l. lesson_module_id l = mod_id modl) (lessons_tbl (db a)))))"

section \<open>Reordering\<close>

lemma findIndex_absent: "\<forall>x\<in>set xs. \<not> P x \<Longrightarrow> findIndex P xs = - 1"
  by (induction xs) auto

lemma findIndex_present:
  "\<exists>x\<in>set xs. P x \<Longrightarrow> findIndex P xs = int (index_of P xs)"
proof (induction xs)
  case Nil
  then show ?case by simp
next
  case (Cons x xs)
  show ?case
  proof (cases "P x")
    case True
    then show ?thesis by (simp add: index_of_def)
  next
    case False
    with Cons.prems have "\<exists>y\<in>set xs. P y" by simp
    from Cons.IH[OF this] False show ?thesis by (simp add: index_of_def Let_def)
  qed
qed

lemma index_of_less: "\<exists>x\<in>set xs. P x \<Longrightarrow> index_of P xs < length xs"
  unfolding index_of_def by (induction xs) auto

lemma index_of_sat: "\<exists>x\<in>set xs. P x \<Longrightarrow> P (xs ! index_of P xs)"
  unfolding index_of_def by (induction xs) auto

lemma arrayMove_in_range:
  assumes "i < length xs" "j < length xs"
  shows "arrayMove xs (int i) (int j) =
           Some (take j (take i xs @ drop (Suc i) xs) @ [xs ! i] @ drop j (take i xs @ drop (Suc i) xs))"
proof -
  define rest where "rest = take i xs @ drop (Suc i) xs"
  have d: "drop i xs = xs ! i # drop (Suc i) xs"
    using assms(1) by (simp add: Cons_nth_drop_Suc)
  have s1: "splice_start (length xs) (int i) = i"
    using assms(1) by (simp add: splice_start_def)
  have s2: "splice_start (length rest) (int j) = j"
    using assms by (simp add: splice_start_def rest_def)
  show ?thesis
    unfolding arrayMove_def Let_def s1 rest_def[symmetric] by (simp add: d s2)
qed


lemma findIndex_key:
  assumes "a \<in> key ` set xs"
  shows "findIndex (\<lambda>x. key x = a) xs = int (index_of (\<lambda>x. key x = a) xs)"
    and "index_of (\<lambda>x. key x = a) xs < length xs"
    and "key (xs ! index_of (\<lambda>x. key x = a) xs) = a"
proof -
  from assms have ex: "\<exists>x\<in>set xs. key x = a" by auto
  show "findIndex (\<lambda>x. key x = a) xs = int (index_of (\<lambda>x. key x = a) xs)"
    using ex by (rule findIndex_present)
  show "index_of (\<lambda>x. key x = a) xs < length xs"
    using ex by (rule index_of_less)
  show "key (xs ! index_of (\<lambda>x. key x = a) xs) = a"
    using index_of_sat[of xs "\<lambda>x. key x = a", OF ex] .
qed

lemma arrayMove_reorder_spec:
  assumes "a \<in> key ` set xs" "b \<in> key ` set xs"
  shows "arrayMove xs (findIndex (\<lambda>x. key x = a) xs) (findIndex (\<lambda>x. key x = b) xs)
           = Some (reorder_spec key xs a b)"
  using findIndex_key[OF assms(1)] findIndex_key[OF assms(2)]
  by (simp add: arrayMove_in_range reorder_spec_def Let_def)

lemma reorder_spec_nth:
  assumes "a \<in> key ` set xs" "b \<in> key ` set xs"
  shows "reorder_spec key xs a b ! index_of (\<lambda>x. key x = b) xs
           = xs ! index_of (\<lambda>x. key x = a) xs"
proof -
  let ?i = "index_of (\<lambda>x. key x = a) xs" and ?j = "index_of (\<lambda>x. key x = b) xs"
  have "?i < length xs" "?j < length xs"
    using findIndex_key(2)[OF assms(1)] findIndex_key(2)[OF assms(2)] by auto
  then have "length (take ?j (take ?i xs @ drop (Suc ?i) xs)) = ?j"
    by simp
  then show ?thesis
    unfolding reorder_spec_def Let_def by (metis append_Cons nth_append_length)
qed

lemma filter_remove_nth:
  assumes "i < length xs" "\<not> P (xs ! i)"
  shows "filter P (take i xs @ drop (Suc i) xs) = filter P xs"
proof -
  have "xs = take i xs @ xs ! i # drop (Suc i) xs"
    using assms(1) by (simp add: id_take_nth_drop)
  then have "filter P xs = filter P (take i xs @ xs ! i # drop (Suc i) xs)"
    by simp
  also have "\<dots> = filter P (take i xs @ drop (Suc i) xs)"
    using assms(2) by simp
  finally show ?thesis by simp
qed

lemma reorder_spec_stable:
  assumes "a \<in> key ` set xs"
  shows "filter (\<lambda>x. key x \<noteq> a) (reorder_spec key xs a b) = filter (\<lambda>x. key x \<noteq> a) xs"
proof -
  let ?i = "index_of (\<lambda>x. key x = a) xs" and ?j = "index_of (\<lambda>x. key x = b) xs"
  let ?rest = "take ?i xs @ drop (Suc ?i) xs"
  have i: "?i < length xs" and k: "key (xs ! ?i) = a"
    using findIndex_key[OF assms] by auto
  have "filter (\<lambda>x. key x \<noteq> a) (reorder_spec key xs a b)
          = filter (\<lambda>x. key x \<noteq> a) (take ?j ?rest @ drop ?j ?rest)"
    unfolding reorder_spec_def Let_def using k by simp
  also have "\<dots> = filter (\<lambda>x. key x \<noteq> a) ?rest"
    by (simp only: append_take_drop_id)
  also have "\<dots> = filter (\<lambda>x. key x \<noteq> a) xs"
    using i k by (intro filter_remove_nth) auto
  finally show ?thesis .
qed

lemma reorder_spec_mset:
  assumes "a \<in> key ` set xs"
  shows "mset (reorder_spec key xs a b) = mset xs"
proof -
  let ?i = "index_of (\<lambda>x. key x = a) xs" and ?j = "index_of (\<lambda>x. key x = b) xs"
  let ?rest = "take ?i xs @ drop (Suc ?i) xs"
  have i: "?i < length xs"
    using findIndex_key[OF assms] by auto
  have "mset (reorder_spec key xs a b) = mset (take ?j ?rest @ drop ?j ?rest) + {#xs ! ?i#}"
    unfolding reorder_spec_def Let_def by simp
  also have "\<dots> = mset ?rest + {#xs ! ?i#}"
    by (simp only: append_take_drop_id)
  also have "\<dots> = mset (take ?i xs @ xs ! ?i # drop (Suc ?i) xs)"
    by simp
  also have "\<dots> = mset xs"
    using i by (simp add: id_take_nth_drop[symmetric])
  finally show ?thesis .
qed


text \<open>
  C4. When both identifiers occur in the list (and differ), the drag handler of either scope
  replaces the list by the one in which the entity at the index of \<open>movedId\<close> was removed and
  reinserted, in the list without it, at the index \<open>targetId\<close> had: the moved entity ends up
  at the target's former index and the order of all other entities is unchanged.
\<close>

theorem reorder_single_splice:
  assumes "movedId \<noteq> targetId"
  shows "(movedId \<in> mod_id ` set (modules a) \<and> targetId \<in> mod_id ` set (modules a) \<longrightarrow>
          handleDragEnd \<lparr>active = ModuleTag movedId, over = Some (ModuleTag targetId)\<rparr> a
            = Inr (updateModulePositions (reorder_spec mod_id (modules a) movedId targetId)
                     (a\<lparr>modules := reorder_spec mod_id (modules a) movedId targetId\<rparr>))
          \<and> reorder_spec mod_id (modules a) movedId targetId
                ! index_of (\<lambda>m. mod_id m = targetId) (modules a)
              = modules a ! index_of (\<lambda>m. mod_id m = movedId) (modules a)
          \<and> filter (\<lambda>m. mod_id m \<noteq> movedId) (reorder_spec mod_id (modules a) movedId targetId)
              = filter (\<lambda>m. mod_id m \<noteq> movedId) (modules a))
       \<and> (movedId \<in> lesson_id ` set (mod_lessons modl)
            \<and> targetId \<in> lesson_id ` set (mod_lessons modl) \<longrightarrow>
          handleLessonDragEnd modl \<lparr>active = LessonTag movedId, over = Some (LessonTag targetId)\<rparr> a
            = Inr (updateLessonPositions (reorder_spec lesson_id (mod_lessons modl) movedId targetId)
                     (updateModule (mod_id modl)
                        (modl\<lparr>mod_lessons :=
                                 reorder_spec lesson_id (mod_lessons modl) movedId targetId\<rparr>) a))
          \<and> reorder_spec lesson_id (mod_lessons modl) movedId targetId
                ! index_of (\<lambda>l. lesson_id l = targetId) (mod_lessons modl)
              = mod_lessons modl ! index_of (\<lambda>l. lesson_id l = movedId) (mod_lessons modl)
          \<and> filter (\<lambda>l. lesson_id l \<noteq> movedId)
                (reorder_spec lesson_id (mod_lessons modl) movedId targetId)
              = filter (\<lambda>l. lesson_id l \<noteq> movedId) (mod_lessons modl))"
  using assms
  by (simp add: handleDragEnd_def handleLessonDragEnd_def arrayMove_reorder_spec
      reorder_spec_nth reorder_spec_stable)

lemma example_modules:
  "modules example_app =
     [\<lparr>mod_id = 1, mod_name = ''A'', mod_position = 0, mod_lessons = []\<rparr>,
      \<lparr>mod_id = 2, mod_name = ''B'', mod_position = 1, mod_lessons = []\<rparr>,
      \<lparr>mod_id = 3, mod_name = ''C'', mod_position = 2, mod_lessons = []\<rparr>,
      \<lparr>mod_id = 4, mod_name = ''D'', mod_position = 3, mod_lessons = []\<rparr>]"
  by (simp add: example_app_def example_rows_def nest_def)


theorem reorder_single_splice_witness:
  "(1::nat) \<noteq> 3
   \<and> 1 \<in> mod_id ` set (modules example_app) \<and> 3 \<in> mod_id ` set (modules example_app)
   \<and> (\<exists>a'. handleDragEnd \<lparr>active = ModuleTag 1, over = Some (ModuleTag 3)\<rparr> example_app = Inr a'
          \<and> map mod_name (modules a') = [''B'', ''C'', ''A'', ''D''])
   \<and> (2::nat) \<noteq> 4
   \<and> 2 \<in> lesson_id ` set (mod_lessons example_card)
   \<and> 4 \<in> lesson_id ` set (mod_lessons example_card)
   \<and> (\<exists>a'. handleLessonDragEnd example_card \<lparr>active = LessonTag 2, over = Some (LessonTag 4)\<rparr>
               example_card_app = Inr a'
          \<and> concat (map (map lesson_title \<circ> mod_lessons) (modules a')) = [''Q'', ''R'', ''P''])"
proof -
  have ne: "(1::nat) \<noteq> 3" and ne': "(2::nat) \<noteq> 4"
    by simp_all
  have m: "1 \<in> mod_id ` set (modules example_app) \<and> 3 \<in> mod_id ` set (modules example_app)"
    by (simp add: example_modules)
  have l: "2 \<in> lesson_id ` set (mod_lessons example_card)
         \<and> 4 \<in> lesson_id ` set (mod_lessons example_card)"
    by (simp add: example_card_def example_lessons_def)
  have rm: "map mod_name (reorder_spec mod_id (modules example_app) 1 3)
              = [''B'', ''C'', ''A'', ''D'']"
    by (simp add: example_modules reorder_spec_def index_of_def)
  have rl: "map lesson_title (reorder_spec lesson_id (mod_lessons example_card) 2 4)
              = [''Q'', ''R'', ''P'']"
    by (simp add: example_card_def example_lessons_def reorder_spec_def index_of_def)
  have um: "\<And>ms a. modules (updateModulePositions ms a) = modules a"
    by (simp add: updateModulePositions_def notify_def split: prod.splits option.splits)
  have ul: "\<And>ls a. modules (updateLessonPositions ls a) = modules a"
    by (simp add: updateLessonPositions_def notify_def split: prod.splits option.splits)
  from reorder_single_splice[OF ne, of example_app example_card] m
  have "handleDragEnd \<lparr>active = ModuleTag 1, over = Some (ModuleTag 3)\<rparr> example_app
          = Inr (updateModulePositions (reorder_spec mod_id (modules example_app) 1 3)
                   (example_app\<lparr>modules := reorder_spec mod_id (modules example_app) 1 3\<rparr>))"
    by blast
  then have c1: "\<exists>a'. handleDragEnd \<lparr>active = ModuleTag 1, over = Some (ModuleTag 3)\<rparr>
                        example_app = Inr a'
                    \<and> map mod_name (modules a') = [''B'', ''C'', ''A'', ''D'']"
    using rm by (simp add: um)
  from reorder_single_splice[OF ne', of example_card_app example_card] l
  have "handleLessonDragEnd example_card \<lparr>active = LessonTag 2, over = Some (LessonTag 4)\<rparr>
            example_card_app
          = Inr (updateLessonPositions (reorder_spec lesson_id (mod_lessons example_card) 2 4)
                   (updateModule (mod_id example_card)
                      (example_card\<lparr>mod_lessons :=
                          reorder_spec lesson_id (mod_lessons example_card) 2 4\<rparr>)
                      example_card_app))"
    by blast
  then have c2: "\<exists>a'. handleLessonDragEnd example_card
                        \<lparr>active = LessonTag 2, over = Some (LessonTag 4)\<rparr> example_card_app = Inr a'
                    \<and> concat (map (map lesson_title \<circ> mod_lessons) (modules a')) = [''Q'', ''R'', ''P'']"
    using rl by (simp add: ul updateModule_def example_card_app_def)
  from ne ne' m l c1 c2 show ?thesis by blast
qed

text \<open>
  C5 (as amended). The handlers return at once, leaving the list and the store as they
  are and issuing no request, when there is no drop target, when the two identifiers are
  equal, or when they do not both carry the scope's prefix.
\<close>

theorem reorder_noop:
  "handleDragEnd \<lparr>active = x, over = None\<rparr> a = Inr a
   \<and> handleDragEnd \<lparr>active = x, over = Some x\<rparr> a = Inr a
   \<and> (\<not> (is_module_tag x \<and> is_module_tag y) \<longrightarrow>
        handleDragEnd \<lparr>active = x, over = Some y\<rparr> a = Inr a)
   \<and> handleLessonDragEnd modl \<lparr>active = x, over = None\<rparr> a = Inr a
   \<and> handleLessonDragEnd modl \<lparr>active = x, over = Some x\<rparr> a = Inr a
   \<and> (\<not> (is_lesson_tag x \<and> is_lesson_tag y) \<longrightarrow>
        handleLessonDragEnd modl \<lparr>active = x, over = Some y\<rparr> a = Inr a)"
  by (simp add: handleDragEnd_def handleLessonDragEnd_def)

theorem reorder_noop_witness:
  "\<not> (is_module_tag (OtherTag ''x'') \<and> is_module_tag (ModuleTag 1))
   \<and> handleDragEnd \<lparr>active = OtherTag ''x'', over = Some (ModuleTag 1)\<rparr> example_app
       = Inr example_app
   \<and> \<not> (is_lesson_tag (OtherTag ''x'') \<and> is_lesson_tag (ModuleTag 1))
   \<and> handleLessonDragEnd example_card \<lparr>active = OtherTag ''x'', over = Some (ModuleTag 1)\<rparr>
        example_card_app = Inr example_card_app"
  using reorder_noop[of "OtherTag ''x''" example_app "ModuleTag 1" example_card]
    reorder_noop[of "OtherTag ''x''" example_card_app "ModuleTag 1" example_card]
  by simp

text \<open>
  The claim as stated fails for an identifier that is not in the list: \<open>findIndex\<close> yields -1,
  \<open>arrayMove\<close> then moves the last entity to the target's index, and one position write per
  entity is issued.
\<close>

theorem reorder_absent_id_counterexample:
  "9 \<notin> mod_id ` set (modules example_app)
   \<and> (\<exists>a'. handleDragEnd \<lparr>active = ModuleTag 9, over = Some (ModuleTag 1)\<rparr> example_app = Inr a'
          \<and> map mod_name (modules a') = [''D'', ''A'', ''B'', ''C'']
          \<and> requests (db a') = 4
          \<and> a' \<noteq> example_app)"
  by (simp add: example_modules handleDragEnd_def arrayMove_def splice_start_def
      updateModulePositions_def update_module_position_def request_def
      example_app_def example_store_def no_outage_def example_rows_def nest_def)

section \<open>The store under a working network\<close>

lemma reliable_request:
  "reliable s \<Longrightarrow> request s = (None, s\<lparr>requests := Suc (requests s)\<rparr>)"
  by (simp add: reliable_def request_def)

lemma reliable_step: "reliable s \<Longrightarrow> reliable (s\<lparr>requests := Suc (requests s)\<rparr>)"
  by (simp add: reliable_def)

lemma reliable_tables [simp]:
  "reliable (s\<lparr>modules_tbl := ms\<rparr>) = reliable s"
  "reliable (s\<lparr>lessons_tbl := ls\<rparr>) = reliable s"
  "reliable (s\<lparr>snapshots_tbl := ss\<rparr>) = reliable s"
  "reliable (s\<lparr>next_uuid := k\<rparr>) = reliable s"
  by (simp_all add: reliable_def)

lemma insert_module_reliable:
  assumes "reliable s"
  shows "insert_module nm pos s =
           (Inr \<lparr>row_id = next_uuid s, row_name = nm, row_position = pos\<rparr>,
            s\<lparr>requests := Suc (requests s),
              modules_tbl := modules_tbl s @ [\<lparr>row_id = next_uuid s, row_name = nm, row_position = pos\<rparr>],
              next_uuid := Suc (next_uuid s)\<rparr>)"
  using reliable_request[OF assms] by (simp add: insert_module_def Let_def)

lemma insert_lessons_reliable:
  assumes "reliable s"
  shows "insert_lessons rows s =
           (Inr (new_lessons (next_uuid s) rows),
            s\<lparr>requests := Suc (requests s),
              lessons_tbl := lessons_tbl s @ new_lessons (next_uuid s) rows,
              next_uuid := next_uuid s + length rows\<rparr>)"
  using reliable_request[OF assms] by (simp add: insert_lessons_def Let_def)

lemma delete_modules_where_reliable:
  assumes "reliable s"
  shows "delete_modules_where doomed s =
           (None, s\<lparr>requests := Suc (requests s),
                    modules_tbl := filter (\<lambda>r. \<not> doomed r) (modules_tbl s),
                    lessons_tbl := filter (\<lambda>l. lesson_module_id l \<notin>
                                      set (map row_id (filter doomed (modules_tbl s))))
                                     (lessons_tbl s)\<rparr>)"
  using reliable_request[OF assms] by (simp add: delete_modules_where_def Let_def)

lemma select_modules_reliable:
  assumes "reliable s"
  shows "select_modules s =
           (Inr (map (nest (lessons_tbl s)) (sort_key row_position (modules_tbl s))),
            s\<lparr>requests := Suc (requests s)\<rparr>)"
  using reliable_request[OF assms] by (simp add: select_modules_def)

lemma wipe_reliable:
  assumes "reliable s" "wf_store s"
  shows "delete_modules_neq_nil s =
           (None, s\<lparr>requests := Suc (requests s), modules_tbl := [], lessons_tbl := []\<rparr>)"
proof -
  have m: "filter (\<lambda>r. \<not> row_id r \<noteq> nil_uuid) (modules_tbl s) = []"
    using assms(2) by (auto simp: wf_store_def filter_empty_conv)
  have k: "filter (\<lambda>r. row_id r \<noteq> nil_uuid) (modules_tbl s) = modules_tbl s"
    using assms(2) by (auto simp: wf_store_def)
  have l: "filter (\<lambda>l. lesson_module_id l \<notin> set (map row_id (modules_tbl s))) (lessons_tbl s) = []"
    using assms(2) by (auto simp: wf_store_def filter_empty_conv)
  show ?thesis
    unfolding delete_modules_neq_nil_def delete_modules_where_reliable[OF assms(1)]
    by (simp only: m k l)
qed

lemma new_lessons_module:
  "\<forall>row\<in>set rows. snd (snd (snd row)) = m \<Longrightarrow> \<forall>l\<in>set (new_lessons k rows). lesson_module_id l = m"
  by (induction k rows rule: new_lessons.induct) auto

lemma strip_new_lessons:
  "map strip_lesson (new_lessons k rows)
     = map (\<lambda>(t, v, p, m). \<lparr>sl_title = t, sl_video_iframe = v, sl_position = p\<rparr>) rows"
  by (induction k rows rule: new_lessons.induct) (auto simp: strip_lesson_def)

lemma store_tree_add_module:
  assumes "older s"
    and "modules_tbl s' = modules_tbl s @ [r]" and "lessons_tbl s' = lessons_tbl s @ ls"
    and "row_id r = next_uuid s" and "\<forall>l\<in>set ls. lesson_module_id l = next_uuid s"
  shows "store_tree s' = store_tree s @
           [\<lparr>sm_name = row_name r, sm_position = row_position r,
             sm_lessons = map strip_lesson ls\<rparr>]"
proof -
  have a: "filter (\<lambda>l. lesson_module_id l = next_uuid s) (lessons_tbl s) = []"
    using assms(1) by (auto simp: older_def filter_empty_conv)
  have b: "filter (\<lambda>l. lesson_module_id l = next_uuid s) ls = ls"
    using assms(5) by auto
  have c: "\<And>q. q \<in> set (modules_tbl s) \<Longrightarrow> filter (\<lambda>l. lesson_module_id l = row_id q) ls = []"
    using assms(1,5) by (auto simp: older_def filter_empty_conv)
  show ?thesis
    by (simp add: store_tree_def assms(2,3,4) a b c cong: map_cong)
qed

lemma older_add_module:
  assumes "older s"
    and "modules_tbl s' = modules_tbl s @ [r]" and "lessons_tbl s' = lessons_tbl s @ ls"
    and "row_id r = next_uuid s" and "\<forall>l\<in>set ls. lesson_module_id l = next_uuid s"
    and "next_uuid s < next_uuid s'"
  shows "older s'"
  using assms by (auto simp: older_def)

text \<open>One group of a bulk replace: the module, then its lessons.\<close>

lemma add_group_reliable:
  assumes "reliable s" "older s"
  obtains s1 s2 where
    "insert_module nm pos s = (Inr \<lparr>row_id = next_uuid s, row_name = nm, row_position = pos\<rparr>, s1)"
    "insert_lessons (rows (next_uuid s)) s1 = (Inr (new_lessons (next_uuid s1) (rows (next_uuid s))), s2)"
    "reliable s1" "older s1" "reliable s2"
    "store_tree s1 = store_tree s @ [\<lparr>sm_name = nm, sm_position = pos, sm_lessons = []\<rparr>]"
    "snapshots_tbl s1 = snapshots_tbl s" "snapshots_tbl s2 = snapshots_tbl s"
    "\<forall>row\<in>set (rows (next_uuid s)). snd (snd (snd row)) = next_uuid s \<Longrightarrow>
       older s2 \<and> store_tree s2 = store_tree s @
         [\<lparr>sm_name = nm, sm_position = pos,
           sm_lessons = map (\<lambda>(t, v, p, m). \<lparr>sl_title = t, sl_video_iframe = v, sl_position = p\<rparr>)
                          (rows (next_uuid s))\<rparr>]"
proof -
  let ?r = "\<lparr>row_id = next_uuid s, row_name = nm, row_position = pos\<rparr>"
  let ?ls = "new_lessons (Suc (next_uuid s)) (rows (next_uuid s))"
  define s1 where "s1 = s\<lparr>requests := Suc (requests s), modules_tbl := modules_tbl s @ [?r],
                           next_uuid := Suc (next_uuid s)\<rparr>"
  define s2 where "s2 = s1\<lparr>requests := Suc (requests s1), lessons_tbl := lessons_tbl s1 @ ?ls,
                            next_uuid := next_uuid s1 + length (rows (next_uuid s))\<rparr>"
  have i1: "insert_module nm pos s = (Inr ?r, s1)"
    unfolding s1_def by (rule insert_module_reliable[OF assms(1)])
  have r1: "reliable s1"
    using assms(1) by (simp add: s1_def reliable_def)
  have n1: "next_uuid s1 = Suc (next_uuid s)"
    by (simp add: s1_def)
  have i2: "insert_lessons (rows (next_uuid s)) s1
              = (Inr (new_lessons (next_uuid s1) (rows (next_uuid s))), s2)"
    unfolding s2_def n1[symmetric] by (rule insert_lessons_reliable[OF r1])
  have r2: "reliable s2"
    using r1 by (simp add: s2_def reliable_def)
  have t1: "store_tree s1 = store_tree s @ [\<lparr>sm_name = nm, sm_position = pos, sm_lessons = []\<rparr>]"
    using store_tree_add_module[OF assms(2), of s1 ?r "[]"] by (simp add: s1_def)
  have o1: "older s1"
    using older_add_module[OF assms(2), of s1 ?r "[]"] by (simp add: s1_def)
  have g: "older s2 \<and> store_tree s2 = store_tree s @
         [\<lparr>sm_name = nm, sm_position = pos,
           sm_lessons = map (\<lambda>(t, v, p, m). \<lparr>sl_title = t, sl_video_iframe = v, sl_position = p\<rparr>)
                          (rows (next_uuid s))\<rparr>]"
    if h: "\<forall>row\<in>set (rows (next_uuid s)). snd (snd (snd row)) = next_uuid s"
  proof -
    have m: "\<forall>l\<in>set ?ls. lesson_module_id l = next_uuid s"
      using h by (rule new_lessons_module)
    have "older s2"
      using older_add_module[OF assms(2), of s2 ?r ?ls] m by (simp add: s2_def s1_def)
    moreover have "store_tree s2 = store_tree s @
         [\<lparr>sm_name = nm, sm_position = pos, sm_lessons = map strip_lesson ?ls\<rparr>]"
      using store_tree_add_module[OF assms(2), of s2 ?r ?ls] m by (simp add: s2_def s1_def)
    ultimately show ?thesis
      by (simp add: strip_new_lessons)
  qed
  show thesis
    by (rule that[OF i1 i2 r1 o1 r2 t1 _ _ g]) (simp_all add: s1_def s2_def)
qed

lemma restore_modules_tree:
  assumes "reliable s" "older s"
  shows "\<exists>s'. restore_modules ms s = (None, s') \<and> store_tree s' = store_tree s @ ms
              \<and> reliable s' \<and> older s' \<and> snapshots_tbl s' = snapshots_tbl s"
  using assms
proof (induction ms arbitrary: s)
  case Nil
  then show ?case by simp
next
  case (Cons m ms)
  let ?rows = "\<lambda>k. map (\<lambda>lesson. (sl_title lesson, sl_video_iframe lesson, sl_position lesson, k))
                      (sm_lessons m)"
  show ?case
  proof (rule add_group_reliable[OF Cons.prems, of "sm_name m" "sm_position m" ?rows], goal_cases)
    case (1 s1 s2)
    note i1 = 1(1) and i2 = 1(2) and r1 = 1(3) and o1 = 1(4) and r2 = 1(5) and t1 = 1(6)
      and p1 = 1(7) and p2 = 1(8) and g = 1(9)
    show ?case
    proof (cases "sm_lessons m = []")
      case True
      from Cons.IH[OF r1 o1] obtain s' where
        "restore_modules ms s1 = (None, s')" "store_tree s' = store_tree s1 @ ms"
        "reliable s'" "older s'" "snapshots_tbl s' = snapshots_tbl s1"
        by blast
      moreover have "\<lparr>sm_name = sm_name m, sm_position = sm_position m, sm_lessons = []\<rparr> = m"
        using True by simp
      ultimately show ?thesis
        using i1 True t1 p1 by simp
    next
      case False
      have "older s2 \<and> store_tree s2 = store_tree s @
           [\<lparr>sm_name = sm_name m, sm_position = sm_position m,
             sm_lessons = map (\<lambda>(t, v, p, m). \<lparr>sl_title = t, sl_video_iframe = v, sl_position = p\<rparr>)
                            (?rows (next_uuid s))\<rparr>]"
        by (rule g) simp
      moreover have "map (\<lambda>(t, v, p, m). \<lparr>sl_title = t, sl_video_iframe = v, sl_position = p\<rparr>)
                            (?rows (next_uuid s)) = sm_lessons m"
        by (auto simp: comp_def intro!: map_idI)
      ultimately have o2: "older s2" and t2: "store_tree s2 = store_tree s @ [m]"
        by simp_all
      from Cons.IH[OF r2 o2] obtain s' where
        "restore_modules ms s2 = (None, s')" "store_tree s' = store_tree s2 @ ms"
        "reliable s'" "older s'" "snapshots_tbl s' = snapshots_tbl s2"
        by blast
      then show ?thesis
        using i1 i2 False t2 p2 by simp
    qed
  qed
qed

lemma zip_with_index: "zip xs [0..<length xs] = map (\<lambda>j. (xs ! j, j)) [0..<length xs]"
  by (rule nth_equalityI) simp_all

lemma lessonsToInsert_module: "\<forall>row\<in>set (lessonsToInsert k ls). snd (snd (snd row)) = k"
  by (auto simp: lessonsToInsert_def)

lemma lessonsToInsert_derived:
  "map (\<lambda>(t, v, p, m). \<lparr>sl_title = t, sl_video_iframe = v, sl_position = p\<rparr>) (lessonsToInsert k ls)
     = derived_lessons ls"
  by (simp add: lessonsToInsert_def derived_lessons_def zip_with_index comp_def)

lemma upt_0_Suc_map: "map f [0..<Suc n] = f 0 # map (\<lambda>i. f (Suc i)) [0..<n]"
proof -
  have "[0..<Suc n] = 0 # map Suc [0..<n]"
    by (simp add: upt_conv_Cons map_Suc_upt del: upt_Suc)
  then show ?thesis
    by (simp add: comp_def del: upt_Suc)
qed

lemma import_modules_tree:
  assumes "reliable s" "older s"
  shows "\<exists>s'. import_modules pos mp s = (None, s')
              \<and> store_tree s' = store_tree s @
                   map (\<lambda>i. \<lparr>sm_name = fst (mp ! i), sm_position = pos + i,
                             sm_lessons = derived_lessons (snd (mp ! i))\<rparr>) [0..<length mp]
              \<and> reliable s' \<and> older s' \<and> snapshots_tbl s' = snapshots_tbl s"
  using assms
proof (induction mp arbitrary: s pos)
  case Nil
  then show ?case by simp
next
  case (Cons g mp)
  obtain nm ls where g: "g = (nm, ls)"
    by (cases g)
  show ?case
  proof (rule add_group_reliable[OF Cons.prems, of nm pos "\<lambda>k. lessonsToInsert k ls"], goal_cases)
    case (1 s1 s2)
    have "older s2 \<and> store_tree s2 = store_tree s @
           [\<lparr>sm_name = nm, sm_position = pos,
             sm_lessons = map (\<lambda>(t, v, p, m). \<lparr>sl_title = t, sl_video_iframe = v, sl_position = p\<rparr>)
                            (lessonsToInsert (next_uuid s) ls)\<rparr>]"
      by (rule 1(9)) (rule lessonsToInsert_module)
    then have o2: "older s2"
      and t2: "store_tree s2 = store_tree s @
                 [\<lparr>sm_name = nm, sm_position = pos, sm_lessons = derived_lessons ls\<rparr>]"
      by (simp_all add: lessonsToInsert_derived)
    from Cons.IH[OF 1(5) o2, of "pos + 1"] obtain s' where
      "import_modules (pos + 1) mp s2 = (None, s')"
      "store_tree s' = store_tree s2 @
                   map (\<lambda>i. \<lparr>sm_name = fst (mp ! i), sm_position = pos + 1 + i,
                             sm_lessons = derived_lessons (snd (mp ! i))\<rparr>) [0..<length mp]"
      "reliable s'" "older s'" "snapshots_tbl s' = snapshots_tbl s2"
      by blast
    then show ?case
      using 1(1) 1(2) 1(8) t2 by (simp add: g upt_0_Suc_map del: upt_Suc)
  qed
qed

section \<open>Reading the hierarchy back\<close>

lemma snapshotData_nest:
  assumes "sorted (map lesson_position (filter (\<lambda>l. lesson_module_id l = row_id r) ls))"
  shows "snapshotData [nest ls r]
           = [\<lparr>sm_name = row_name r, sm_position = row_position r,
               sm_lessons = map strip_lesson (filter (\<lambda>l. lesson_module_id l = row_id r) ls)\<rparr>]"
  using assms
  by (simp add: snapshotData_def nest_def sort_key_id_if_sorted strip_lesson_def)

lemma snapshotData_map: "snapshotData ms = concat (map (\<lambda>m. snapshotData [m]) ms)"
  by (induction ms) (simp_all add: snapshotData_def)

lemma snapshotData_fetched:
  assumes "in_position_order (store_tree s)"
  shows "snapshotData (map (nest (lessons_tbl s)) (sort_key row_position (modules_tbl s)))
           = store_tree s"
proof -
  have p: "map sm_position (store_tree s) = map row_position (modules_tbl s)"
    by (simp add: store_tree_def comp_def)
  have "sorted (map row_position (modules_tbl s))"
    using assms by (simp add: in_position_order_def p)
  then have srt: "sort_key row_position (modules_tbl s) = modules_tbl s"
    by (rule sort_key_id_if_sorted)
  have l: "sorted (map lesson_position (filter (\<lambda>l. lesson_module_id l = row_id r) (lessons_tbl s)))"
    if "r \<in> set (modules_tbl s)" for r
  proof -
    have "sorted (map sl_position (map strip_lesson
            (filter (\<lambda>l. lesson_module_id l = row_id r) (lessons_tbl s))))"
      using assms that by (auto simp: in_position_order_def store_tree_def list_all_iff)
    then show ?thesis
      by (simp add: comp_def strip_lesson_def)
  qed
  have "snapshotData (map (nest (lessons_tbl s)) (modules_tbl s))
          = concat (map (\<lambda>r. snapshotData [nest (lessons_tbl s) r]) (modules_tbl s))"
    by (subst snapshotData_map) (simp add: comp_def)
  also have "\<dots> = concat (map (\<lambda>r. [\<lparr>sm_name = row_name r, sm_position = row_position r,
               sm_lessons = map strip_lesson
                 (filter (\<lambda>l. lesson_module_id l = row_id r) (lessons_tbl s))\<rparr>]) (modules_tbl s))"
    using l by (simp add: snapshotData_nest cong: map_cong)
  also have "\<dots> = store_tree s"
    by (simp add: store_tree_def concat_map_singleton)
  finally show ?thesis
    by (simp add: srt)
qed

lemma fetchModules_reliable:
  assumes "reliable (db a)"
  shows "fetchModules a =
           a\<lparr>modules := map (nest (lessons_tbl (db a))) (sort_key row_position (modules_tbl (db a))),
             db := (db a)\<lparr>requests := Suc (requests (db a))\<rparr>\<rparr>"
  by (simp add: fetchModules_def select_modules_reliable[OF assms])

lemma store_tree_requests [simp]: "store_tree (s\<lparr>requests := k\<rparr>) = store_tree s"
  by (simp add: store_tree_def)

lemma wiped_store:
  "store_tree (s\<lparr>requests := k, modules_tbl := [], lessons_tbl := []\<rparr>) = []"
  "older (s\<lparr>requests := k, modules_tbl := [], lessons_tbl := []\<rparr>)"
  by (simp_all add: store_tree_def older_def)

lemma restoreSnapshot_reliable:
  assumes "reliable (db a)" "wf_store (db a)" "snapshot_data snapshot = Some tree"
  shows "store_tree (db (restoreSnapshot snapshot a)) = tree
         \<and> (in_position_order tree \<longrightarrow> snapshotData (modules (restoreSnapshot snapshot a)) = tree)
         \<and> toasts (restoreSnapshot snapshot a)
             = toasts a @ [ToastSuccess ''Snapshot restored successfully'']"
proof -
  define s1 where
    "s1 = (db a)\<lparr>requests := Suc (requests (db a)), modules_tbl := [], lessons_tbl := []\<rparr>"
  have w: "delete_modules_neq_nil (db a) = (None, s1)"
    unfolding s1_def by (rule wipe_reliable[OF assms(1,2)])
  have r1: "reliable s1"
    using assms(1) by (simp add: s1_def reliable_def)
  have o1: "older s1" and t1: "store_tree s1 = []"
    by (simp_all add: s1_def wiped_store)
  from restore_modules_tree[OF r1 o1, of tree] obtain s2 where
    rm: "restore_modules tree s1 = (None, s2)" and t2: "store_tree s2 = tree" and r2: "reliable s2"
    using t1 by auto
  define a2 where "a2 = notify (ToastSuccess ''Snapshot restored successfully'') (a\<lparr>db := s2\<rparr>)"
  have d2: "db a2 = s2" and r2': "reliable (db a2)"
    using r2 by (simp_all add: a2_def notify_def)
  have res: "restoreSnapshot snapshot a = fetchModules a2"
    by (simp add: restoreSnapshot_def w assms(3) rm a2_def)
  have f: "fetchModules a2 =
           a2\<lparr>modules := map (nest (lessons_tbl s2)) (sort_key row_position (modules_tbl s2)),
              db := s2\<lparr>requests := Suc (requests s2)\<rparr>\<rparr>"
    using fetchModules_reliable[OF r2'] by (simp add: d2)
  show ?thesis
    unfolding res f using t2 snapshotData_fetched[of s2]
    by (simp add: a2_def notify_def)
qed

lemma createSnapshot_reliable:
  assumes "reliable (db a)" "\<not> blank newSnapshotName"
  shows "createSnapshot newSnapshotName (snapshots, a) =
           (\<lparr>snapshot_id = next_uuid (db a), snapshot_name = newSnapshotName,
             snapshot_data = Some (snapshotData (modules a))\<rparr> # snapshots,
            notify (ToastSuccess ''Snapshot created successfully'')
              (a\<lparr>db := (db a)\<lparr>requests := Suc (requests (db a)),
                      snapshots_tbl := snapshots_tbl (db a) @
                        [\<lparr>snapshot_id = next_uuid (db a), snapshot_name = newSnapshotName,
                          snapshot_data = Some (snapshotData (modules a))\<rparr>],
                      next_uuid := Suc (next_uuid (db a))\<rparr>\<rparr>))"
  using reliable_request[OF assms(1)] assms(2)
  by (simp add: insert_snapshot_def Let_def)

lemma wf_store_after_snapshot:
  "wf_store s \<Longrightarrow> wf_store (s\<lparr>requests := k, snapshots_tbl := ss, next_uuid := Suc (next_uuid s)\<rparr>)"
  by (auto simp: wf_store_def)

lemma example_card_store:
  "reliable (db example_card_app)" "wf_store (db example_card_app)"
  by (simp_all add: example_card_app_def reliable_def no_outage_def wf_store_def
      example_lessons_def nil_uuid_def)

text \<open>
  C7. A snapshot captured from a hierarchy and restored at once leaves the store holding the
  modules and lessons of that hierarchy, one for one and in the same order, with the same
  names, titles, video markup and positions (under new identities). When the hierarchy was
  listed in position order, the hierarchy fetched after the restore is that hierarchy again.
\<close>

theorem snapshot_roundtrip:
  assumes "reliable (db a)" "wf_store (db a)" "\<not> blank newSnapshotName"
  shows "\<exists>snapshot a1.
           createSnapshot newSnapshotName (snapshots, a) = (snapshot # snapshots, a1)
           \<and> snapshot_data snapshot = Some (snapshotData (modules a))
           \<and> store_tree (db (restoreSnapshot snapshot a1)) = snapshotData (modules a)
           \<and> (in_position_order (snapshotData (modules a)) \<longrightarrow>
                snapshotData (modules (restoreSnapshot snapshot a1)) = snapshotData (modules a))"
proof -
  let ?snap = "\<lparr>snapshot_id = next_uuid (db a), snapshot_name = newSnapshotName,
                 snapshot_data = Some (snapshotData (modules a))\<rparr>"
  let ?s1 = "(db a)\<lparr>requests := Suc (requests (db a)),
                      snapshots_tbl := snapshots_tbl (db a) @ [?snap],
                      next_uuid := Suc (next_uuid (db a))\<rparr>"
  let ?a1 = "notify (ToastSuccess ''Snapshot created successfully'') (a\<lparr>db := ?s1\<rparr>)"
  have c: "createSnapshot newSnapshotName (snapshots, a) = (?snap # snapshots, ?a1)"
    by (rule createSnapshot_reliable[OF assms(1,3)])
  have d: "db ?a1 = ?s1"
    by (simp add: notify_def)
  have r: "reliable (db ?a1)"
    using assms(1) unfolding d by (simp add: reliable_def)
  have w: "wf_store (db ?a1)"
    unfolding d by (rule wf_store_after_snapshot[OF assms(2)])
  have "snapshot_data ?snap = Some (snapshotData (modules a))"
    by simp
  from restoreSnapshot_reliable[OF r w this] c show ?thesis
    by auto
qed

theorem snapshot_roundtrip_witness:
  "reliable (db example_card_app) \<and> wf_store (db example_card_app) \<and> \<not> blank ''v1''
   \<and> in_position_order (snapshotData (modules example_card_app))
   \<and> (\<exists>snapshot a1.
         createSnapshot ''v1'' ([], example_card_app) = ([snapshot], a1)
         \<and> store_tree (db (restoreSnapshot snapshot a1))
             = [\<lparr>sm_name = ''A'', sm_position = 0,
                 sm_lessons =
                   [\<lparr>sl_title = ''P'', sl_video_iframe = Some [], sl_position = 0\<rparr>,
                    \<lparr>sl_title = ''Q'', sl_video_iframe = Some [], sl_position = 1\<rparr>,
                    \<lparr>sl_title = ''R'', sl_video_iframe = None, sl_position = 2\<rparr>]\<rparr>]
         \<and> snapshotData (modules (restoreSnapshot snapshot a1))
             = snapshotData (modules example_card_app))"
proof -
  have b: "\<not> blank ''v1''"
    by (simp add: blank_def js_whitespace_def)
  have v: "snapshotData (modules example_card_app)
             = [\<lparr>sm_name = ''A'', sm_position = 0,
                 sm_lessons =
                   [\<lparr>sl_title = ''P'', sl_video_iframe = Some [], sl_position = 0\<rparr>,
                    \<lparr>sl_title = ''Q'', sl_video_iframe = Some [], sl_position = 1\<rparr>,
                    \<lparr>sl_title = ''R'', sl_video_iframe = None, sl_position = 2\<rparr>]\<rparr>]"
    by (simp add: snapshotData_def example_card_app_def example_card_def example_lessons_def)
  have o: "in_position_order (snapshotData (modules example_card_app))"
    unfolding v by (simp add: in_position_order_def)
  from snapshot_roundtrip[OF example_card_store b, of "[]"] o
  have "\<exists>snapshot a1.
         createSnapshot ''v1'' ([], example_card_app) = ([snapshot], a1)
         \<and> store_tree (db (restoreSnapshot snapshot a1)) = snapshotData (modules example_card_app)
         \<and> snapshotData (modules (restoreSnapshot snapshot a1))
             = snapshotData (modules example_card_app)"
    by blast
  then show ?thesis
    using example_card_store b o v by simp
qed

section \<open>Grouping and the bulk replace\<close>

lemma first_seen_snoc:
  "first_seen (xs @ [k]) = (if k \<in> set xs then first_seen xs else first_seen xs @ [k])"
  by (simp add: first_seen_def)

lemma set_first_seen [simp]: "set (first_seen xs) = set xs"
  by (simp add: first_seen_def)

lemma distinct_first_seen [simp]: "distinct (first_seen xs)"
  by (simp add: first_seen_def)

lemma group_by_module_snoc:
  "group_by_module (items @ [x]) = group_item (group_by_module items) x"
  by (simp add: group_by_module_def)

lemma group_by_module_first_seen:
  "group_by_module items
     = map (\<lambda>k. (k, filter (\<lambda>it. imp_module it = k) items)) (first_seen (map imp_module items))"
proof (induction items rule: rev_induct)
  case Nil
  then show ?case by (simp add: group_by_module_def first_seen_def)
next
  case (snoc x items)
  let ?k = "imp_module x"
  let ?fs = "first_seen (map imp_module items)"
  have has: "map_has (group_by_module items) ?k = (?k \<in> imp_module ` set items)"
    by (simp add: snoc.IH map_has_def comp_def)
  show ?case
  proof (cases "?k \<in> imp_module ` set items")
    case True
    have "group_item (group_by_module items) x
            = map (\<lambda>(k', v). if k' = ?k then (k', v @ [x]) else (k', v))
                (map (\<lambda>k. (k, filter (\<lambda>it. imp_module it = k) items)) ?fs)"
      using True has by (simp add: group_item_def map_get_push_def snoc.IH)
    also have "\<dots> = map (\<lambda>k. (k, filter (\<lambda>it. imp_module it = k) (items @ [x]))) ?fs"
      by (auto simp: comp_def)
    finally show ?thesis
      using True by (simp add: group_by_module_snoc first_seen_snoc)
  next
    case False
    have nk: "\<And>k'. k' \<in> set ?fs \<Longrightarrow> k' \<noteq> ?k"
      using False by force
    have e: "filter (\<lambda>it. imp_module it = ?k) items = []"
      using False unfolding filter_empty_conv by (metis image_eqI)
    have "group_item (group_by_module items) x
            = map (\<lambda>(k', v). if k' = ?k then (k', v @ [x]) else (k', v))
                (map (\<lambda>k. (k, filter (\<lambda>it. imp_module it = k) items)) ?fs @ [(?k, [])])"
      using False has by (simp add: group_item_def map_get_push_def map_set_empty_def snoc.IH)
    also have "\<dots> = map (\<lambda>k. (k, filter (\<lambda>it. imp_module it = k) (items @ [x]))) ?fs @ [(?k, [x])]"
      using nk by (auto simp: comp_def)
    finally show ?thesis
      using False e by (simp add: group_by_module_snoc first_seen_snoc)
  qed
qed

lemma in_position_order_derived: "in_position_order (derived_tree mp)"
proof -
  have "map sm_position (derived_tree mp) = [0..<length mp]"
    by (simp add: derived_tree_def comp_def map_idI)
  moreover have "map sl_position (derived_lessons ls) = [0..<length ls]" for ls
    by (simp add: derived_lessons_def comp_def map_idI)
  ultimately show ?thesis
    by (simp add: in_position_order_def list_all_iff derived_tree_def)
qed

lemma processImport_reliable:
  assumes "reliable (db a)" "wf_store (db a)" "previewData d = Some items"
  shows "store_tree (db (snd (processImport (d, a)))) = derived_tree (group_by_module items)
         \<and> snapshotData (modules (snd (processImport (d, a)))) = derived_tree (group_by_module items)
         \<and> toasts (snd (processImport (d, a)))
             = toasts a @ [ToastImported (length (group_by_module items)) (length items)]"
proof -
  define s1 where
    "s1 = (db a)\<lparr>requests := Suc (requests (db a)), modules_tbl := [], lessons_tbl := []\<rparr>"
  have w: "delete_modules_neq_nil (db a) = (None, s1)"
    unfolding s1_def by (rule wipe_reliable[OF assms(1,2)])
  have r1: "reliable s1"
    using assms(1) by (simp add: s1_def reliable_def)
  have o1: "older s1" and t1: "store_tree s1 = []"
    by (simp_all add: s1_def wiped_store)
  from import_modules_tree[OF r1 o1, of 0 "group_by_module items"] obtain s2 where
    im: "import_modules 0 (group_by_module items) s1 = (None, s2)"
    and t2: "store_tree s2 = derived_tree (group_by_module items)" and r2: "reliable s2"
    using t1 by (auto simp: derived_tree_def)
  define a2 where
    "a2 = notify (ToastImported (length (group_by_module items)) (length items)) (a\<lparr>db := s2\<rparr>)"
  have d2: "db a2 = s2" and r2': "reliable (db a2)"
    using r2 by (simp_all add: a2_def notify_def)
  have res: "snd (processImport (d, a)) = fetchModules a2"
    by (simp add: w assms(3) im a2_def)
  have f: "fetchModules a2 =
           a2\<lparr>modules := map (nest (lessons_tbl s2)) (sort_key row_position (modules_tbl s2)),
              db := s2\<lparr>requests := Suc (requests s2)\<rparr>\<rparr>"
    using fetchModules_reliable[OF r2'] by (simp add: d2)
  have "in_position_order (store_tree s2)"
    unfolding t2 by (rule in_position_order_derived)
  then show ?thesis
    unfolding res f using t2 snapshotData_fetched[of s2]
    by (simp add: a2_def notify_def)
qed

lemma example_store_ok:
  "reliable (db example_app)" "wf_store (db example_app)"
  by (simp_all add: example_app_def example_store_def example_rows_def reliable_def no_outage_def
      wf_store_def nil_uuid_def)

text \<open>
  C6. Validating and importing the three records M1/L1, M2/L2, M1/L3 replaces whatever the
  store held by module M1 at position 0 with lessons L1, L3 at positions 0, 1 followed by
  module M2 at position 1 with lesson L2 at position 0.
\<close>

theorem replaceAll_grouping_example:
  assumes "reliable (db a)" "wf_store (db a)" "jsonInput d = ItemArray (map Some grouping_example)"
  shows "error (validateAndPreview d) = None
         \<and> store_tree (db (snd (processImport (validateAndPreview d, a))))
             = [\<lparr>sm_name = ''M1'', sm_position = 0,
                 sm_lessons = [\<lparr>sl_title = ''L1'', sl_video_iframe = Some [], sl_position = 0\<rparr>,
                               \<lparr>sl_title = ''L3'', sl_video_iframe = Some [], sl_position = 1\<rparr>]\<rparr>,
                \<lparr>sm_name = ''M2'', sm_position = 1,
                 sm_lessons = [\<lparr>sl_title = ''L2'', sl_video_iframe = Some [], sl_position = 0\<rparr>]\<rparr>]"
proof -
  let ?items = "[\<lparr>imp_module = ''M1'', imp_title = ''L1'', imp_videoIframe = None\<rparr>,
                 \<lparr>imp_module = ''M2'', imp_title = ''L2'', imp_videoIframe = None\<rparr>,
                 \<lparr>imp_module = ''M1'', imp_title = ''L3'', imp_videoIframe = None\<rparr>]"
  have v: "validate_from 0 (map Some grouping_example) = Inr ?items"
    by (simp add: grouping_example_def checked_def)
  have e: "error (validateAndPreview d) = None"
    and p: "previewData (validateAndPreview d) = Some ?items"
    by (simp_all add: validateAndPreview_def assms(3) v Let_def)
  have g: "group_by_module ?items
             = [(''M1'', [\<lparr>imp_module = ''M1'', imp_title = ''L1'', imp_videoIframe = None\<rparr>,
                          \<lparr>imp_module = ''M1'', imp_title = ''L3'', imp_videoIframe = None\<rparr>]),
                (''M2'', [\<lparr>imp_module = ''M2'', imp_title = ''L2'', imp_videoIframe = None\<rparr>])]"
    by (simp add: group_by_module_def group_item_def map_has_def map_set_empty_def
        map_get_push_def)
  have u2: "[0..<2] = [0, Suc 0]"
    by (simp add: upt_rec)
  have t: "derived_tree (group_by_module ?items)
             = [\<lparr>sm_name = ''M1'', sm_position = 0,
                 sm_lessons = [\<lparr>sl_title = ''L1'', sl_video_iframe = Some [], sl_position = 0\<rparr>,
                               \<lparr>sl_title = ''L3'', sl_video_iframe = Some [], sl_position = 1\<rparr>]\<rparr>,
                \<lparr>sm_name = ''M2'', sm_position = 1,
                 sm_lessons = [\<lparr>sl_title = ''L2'', sl_video_iframe = Some [], sl_position = 0\<rparr>]\<rparr>]"
    unfolding g by (simp add: derived_tree_def derived_lessons_def or_empty_def u2)
  from processImport_reliable[OF assms(1,2) p] e t show ?thesis
    by simp
qed

theorem replaceAll_grouping_example_witness:
  "reliable (db example_app) \<and> wf_store (db example_app)
   \<and> map sm_name (store_tree (db example_app)) = [''A'', ''B'', ''C'', ''D'']
   \<and> map sm_name (store_tree (db (snd (processImport
          (validateAndPreview \<lparr>jsonInput = ItemArray (map Some grouping_example), previewData = None,
                               error = None\<rparr>, example_app))))) = [''M1'', ''M2'']"
proof -
  have "map sm_name (store_tree (db example_app)) = [''A'', ''B'', ''C'', ''D'']"
    by (simp add: store_tree_def example_app_def example_store_def example_rows_def)
  then show ?thesis
    using replaceAll_grouping_example[OF example_store_ok,
        of "\<lparr>jsonInput = ItemArray (map Some grouping_example), previewData = None, error = None\<rparr>"]
      example_store_ok
    by simp
qed

section \<open>Validation of an import\<close>

lemma checked_None: "checked item = None \<longleftrightarrow> offending item"
  by (auto simp: checked_def offending_def split: option.splits)

lemma validate_from_offending:
  assumes "\<exists>item\<in>set parsed. offending item"
  shows "validate_from i (map Some parsed)
           = Inl (MissingFields (i + index_of offending parsed + 1))"
  using assms
proof (induction parsed arbitrary: i)
  case Nil
  then show ?case by simp
next
  case (Cons item rest)
  show ?case
  proof (cases "offending item")
    case True
    then have "checked item = None"
      by (simp add: checked_None)
    then show ?thesis
      using True by (simp add: index_of_def)
  next
    case False
    then obtain ok where ok: "checked item = Some ok"
      using checked_None[of item] by (cases "checked item") auto
    from Cons.prems False have "\<exists>item\<in>set rest. offending item"
      by simp
    from Cons.IH[OF this, of "i + 1"] show ?thesis
      using ok False by (simp add: index_of_def)
  qed
qed

text \<open>
  A \<^verbatim>\<open>null\<close> element that the loop reaches, every element before it being a record with
  both fields, ends the validation in the \<^verbatim>\<open>catch\<close> block, whatever follows it.
\<close>

lemma validate_from_null:
  assumes "\<forall>item\<in>set good. \<not> offending item"
  shows "validate_from i (map Some good @ None # rest) = Inl InvalidJson"
  using assms
proof (induction good arbitrary: i)
  case Nil
  then show ?case by simp
next
  case (Cons item good)
  then obtain ok where ok: "checked item = Some ok"
    using checked_None[of item] by (cases "checked item") auto
  from Cons.prems have "\<forall>item\<in>set good. \<not> offending item"
    by simp
  from Cons.IH[OF this, of "i + 1"] show ?case
    using ok by simp
qed

lemma validate_from_unusable:
  assumes "\<exists>e\<in>set parsed. unusable e"
  shows "\<exists>e. validate_from i parsed = Inl e"
  using assms
proof (induction parsed arbitrary: i)
  case Nil
  then show ?case by simp
next
  case (Cons e rest)
  show ?case
  proof (cases e)
    case None
    then show ?thesis by simp
  next
    case (Some item)
    show ?thesis
    proof (cases "checked item")
      case None
      then show ?thesis using Some by simp
    next
      case (Some ok)
      then have "\<not> offending item"
        using checked_None[of item] by simp
      with Cons.prems \<open>e = Some item\<close> have "\<exists>e\<in>set rest. unusable e"
        by (simp add: unusable_def)
      from Cons.IH[OF this, of "i + 1"] obtain err where "validate_from (i + 1) rest = Inl err"
        by blast
      then show ?thesis
        using Some \<open>e = Some item\<close> by simp
    qed
  qed
qed

text \<open>
  An array of records, one of which lacks a module or a title (or has an empty one): the
  validation leaves no preview and reports the first such record (its index plus one, as the
  message counts from 1); the import that follows returns at once, so the store, with the
  count of requests issued to it, and the local list are unchanged.
\<close>

lemma offending_record_reported:
  assumes "jsonInput d = ItemArray (map Some parsed)" "\<exists>item\<in>set parsed. offending item"
  shows "previewData (validateAndPreview d) = None
         \<and> error (validateAndPreview d) = Some (MissingFields (index_of offending parsed + 1))
         \<and> processImport (validateAndPreview d, a) = (validateAndPreview d, a)"
proof -
  have v: "validate_from 0 (map Some parsed)
             = Inl (MissingFields (index_of offending parsed + 1))"
    using validate_from_offending[OF assms(2), of 0] by simp
  have p: "previewData (validateAndPreview d) = None"
    and e: "error (validateAndPreview d) = Some (MissingFields (index_of offending parsed + 1))"
    by (simp_all add: validateAndPreview_def assms(1) v)
  from p have "processImport (validateAndPreview d, a) = (validateAndPreview d, a)"
    by simp
  with p e show ?thesis
    by simp
qed

text \<open>
  Any array with an element that is \<^verbatim>\<open>null\<close> or lacks a field is rejected as a whole: there
  is no preview, an error is set, and the import issues no request.
\<close>

lemma unusable_batch_untouched:
  assumes "jsonInput d = ItemArray parsed" "\<exists>e\<in>set parsed. unusable e"
  shows "previewData (validateAndPreview d) = None
         \<and> error (validateAndPreview d) \<noteq> None
         \<and> processImport (validateAndPreview d, a) = (validateAndPreview d, a)"
proof -
  from validate_from_unusable[OF assms(2), of 0] obtain e where v: "validate_from 0 parsed = Inl e"
    by blast
  have p: "previewData (validateAndPreview d) = None"
    and e: "error (validateAndPreview d) \<noteq> None"
    by (simp_all add: validateAndPreview_def assms(1) v)
  from p have "processImport (validateAndPreview d, a) = (validateAndPreview d, a)"
    by simp
  with p e show ?thesis
    by simp
qed

text \<open>
  C3. The batch \<^verbatim>\<open>[null, {"module": "M1"}]\<close> holds a record without a title. It is rejected
  as a whole and the import that follows changes neither the store nor the local list, but
  no index is reported: reading \<^verbatim>\<open>item.module\<close> of the \<^verbatim>\<open>null\<close> at index 0 throws, and the
  \<^verbatim>\<open>catch\<close> written for \<^verbatim>\<open>JSON.parse\<close> sets the error \<^verbatim>\<open>Invalid JSON format\<close>, although the
  text is valid JSON. Without the \<^verbatim>\<open>null\<close>, the same record is reported as item 1, and
  after a record that has both fields as item 2.
\<close>

theorem null_element_hides_index:
  "error (validateAndPreview
      \<lparr>jsonInput = ItemArray
         [None,
          Some \<lparr>item_module = Some ''M1'', item_title = None, item_videoIframe = None,
                item_url = None\<rparr>],
       previewData = None, error = None\<rparr>) = Some InvalidJson
   \<and> previewData (validateAndPreview
      \<lparr>jsonInput = ItemArray
         [None,
          Some \<lparr>item_module = Some ''M1'', item_title = None, item_videoIframe = None,
                item_url = None\<rparr>],
       previewData = None, error = None\<rparr>) = None
   \<and> processImport (validateAndPreview
      \<lparr>jsonInput = ItemArray
         [None,
          Some \<lparr>item_module = Some ''M1'', item_title = None, item_videoIframe = None,
                item_url = None\<rparr>],
       previewData = None, error = None\<rparr>, example_app)
     = (\<lparr>jsonInput = ItemArray
          [None,
           Some \<lparr>item_module = Some ''M1'', item_title = None, item_videoIframe = None,
                 item_url = None\<rparr>],
        previewData = None, error = Some InvalidJson\<rparr>, example_app)
   \<and> error (validateAndPreview
      \<lparr>jsonInput = ItemArray
         [Some \<lparr>item_module = Some ''M1'', item_title = None, item_videoIframe = None,
                item_url = None\<rparr>],
       previewData = None, error = None\<rparr>) = Some (MissingFields 1)
   \<and> error (validateAndPreview
      \<lparr>jsonInput = ItemArray
         [Some \<lparr>item_module = Some ''M0'', item_title = Some ''L0'', item_videoIframe = None,
                item_url = None\<rparr>,
          Some \<lparr>item_module = Some ''M1'', item_title = None, item_videoIframe = None,
                item_url = None\<rparr>],
       previewData = None, error = None\<rparr>) = Some (MissingFields 2)"
  by (simp add: validateAndPreview_def checked_def)

section \<open>The read feed\<close>

lemma foldl_push: "foldl (\<lambda>out l. out @ [g l]) acc ls = acc @ map g ls"
  by (induction ls arbitrary: acc) simp_all

lemma transformedData_concat:
  "transformedData ms =
     concat (map (\<lambda>m. map (\<lambda>l. \<lparr>item_module = Some (mod_name m), item_title = Some (lesson_title l),
                                   item_videoIframe = Some (or_empty (lesson_video_iframe l)),
                                   item_url = None\<rparr>) (mod_lessons m)) ms)"
proof -
  let ?g = "\<lambda>m l. \<lparr>item_module = Some (mod_name m), item_title = Some (lesson_title l),
                    item_videoIframe = Some (or_empty (lesson_video_iframe l)), item_url = None\<rparr>"
  have "foldl (\<lambda>out m. if length (mod_lessons m) > 0
                         then foldl (\<lambda>out l. out @ [?g m l]) out (mod_lessons m) else out) acc ms
          = acc @ concat (map (\<lambda>m. map (?g m) (mod_lessons m)) ms)" for acc
    by (induction ms arbitrary: acc) (simp_all add: foldl_push)
  from this[of "[]"] show ?thesis
    by (simp add: transformedData_def)
qed

lemma feed_of_fetched:
  "transformedData (map (nest (lessons_tbl s)) (sort_key row_position (modules_tbl s)))
     = map feed_item (feed_rows s)"
  by (simp add: transformedData_concat feed_rows_def feed_item_def nest_def map_concat comp_def
      or_empty_def)

lemma one_owner:
  assumes "distinct (map row_id rows)" "k \<in> row_id ` set rows"
  shows "(\<Sum>r\<leftarrow>rows. if k = row_id r then {#l#} else {#}) = {#l#}"
  using assms
proof (induction rows)
  case Nil
  then show ?case by simp
next
  case (Cons r rows)
  show ?case
  proof (cases "k = row_id r")
    case True
    with Cons.prems(1) have "\<forall>q\<in>set rows. k \<noteq> row_id q"
      by auto
    then have "(\<Sum>q\<leftarrow>rows. if k = row_id q then {#l#} else {#}) = {#}"
      by (induction rows) auto
    with True show ?thesis by simp
  next
    case False
    with Cons show ?thesis by auto
  qed
qed

lemma lessons_partition:
  assumes "distinct (map row_id rows)" "\<forall>l\<in>set ls. lesson_module_id l \<in> row_id ` set rows"
  shows "(\<Sum>r\<leftarrow>rows. mset (filter (\<lambda>l. lesson_module_id l = row_id r) ls)) = mset ls"
  using assms(2)
proof (induction ls)
  case Nil
  then show ?case by (induction rows) simp_all
next
  case (Cons l ls)
  have "(\<Sum>r\<leftarrow>rows. mset (filter (\<lambda>l. lesson_module_id l = row_id r) (l # ls)))
          = (\<Sum>r\<leftarrow>rows. (if lesson_module_id l = row_id r then {#l#} else {#})
                           + mset (filter (\<lambda>l. lesson_module_id l = row_id r) ls))"
    by (intro arg_cong[where f = sum_list] map_cong) auto
  also have "\<dots> = (\<Sum>r\<leftarrow>rows. if lesson_module_id l = row_id r then {#l#} else {#})
                    + (\<Sum>r\<leftarrow>rows. mset (filter (\<lambda>l. lesson_module_id l = row_id r) ls))"
    by (simp add: sum_list_addf)
  also have "\<dots> = {#l#} + mset ls"
    using Cons one_owner[OF assms(1), of "lesson_module_id l" l] by simp
  finally show ?case by simp
qed

lemma mset_feed_rows:
  assumes "wf_store s"
  shows "mset (map snd (feed_rows s)) = mset (lessons_tbl s)"
proof -
  let ?rows = "sort_key row_position (modules_tbl s)"
  have d: "distinct (map row_id ?rows)"
    using assms by (simp add: wf_store_def distinct_map)
  have f: "\<forall>l\<in>set (lessons_tbl s). lesson_module_id l \<in> row_id ` set ?rows"
    using assms by (simp add: wf_store_def)
  have "mset (map snd (feed_rows s))
          = (\<Sum>r\<leftarrow>?rows. mset (filter (\<lambda>l. lesson_module_id l = row_id r) (lessons_tbl s)))"
    by (simp add: feed_rows_def map_concat mset_concat comp_def)
  then show ?thesis
    using lessons_partition[OF d f] by simp
qed

lemma sorted_wrt_blocks:
  assumes "sorted (map f rows)" "distinct rows" "\<And>r. r \<in> set rows \<Longrightarrow> sorted (map g (L r))"
  shows "sorted_wrt (\<lambda>p q. f (fst p) \<le> f (fst q) \<and> (fst p = fst q \<longrightarrow> g (snd p) \<le> g (snd q)))
           (concat (map (\<lambda>r. map (Pair r) (L r)) rows))"
  using assms
proof (induction rows)
  case Nil
  then show ?case by simp
next
  case (Cons r rows)
  have blk: "sorted_wrt (\<lambda>p q. f (fst p) \<le> f (fst q) \<and> (fst p = fst q \<longrightarrow> g (snd p) \<le> g (snd q)))
               (map (Pair r) (L r))"
    using Cons.prems(3)[of r] by (simp add: sorted_wrt_map sorted_map)
  have rest: "sorted_wrt (\<lambda>p q. f (fst p) \<le> f (fst q) \<and> (fst p = fst q \<longrightarrow> g (snd p) \<le> g (snd q)))
               (concat (map (\<lambda>r. map (Pair r) (L r)) rows))"
    using Cons by simp
  have cross: "f (fst p) \<le> f (fst q) \<and> (fst p = fst q \<longrightarrow> g (snd p) \<le> g (snd q))"
    if "p \<in> set (map (Pair r) (L r))" "q \<in> set (concat (map (\<lambda>r. map (Pair r) (L r)) rows))"
    for p q
  proof -
    from that(1) have p: "fst p = r" by auto
    from that(2) have q: "fst q \<in> set rows" by auto
    with Cons.prems(1,2) p show ?thesis by auto
  qed
  show ?case
    using blk rest cross by (simp add: sorted_wrt_append)
qed

lemma feed_rows_ordered:
  assumes "wf_store s"
  shows "sorted_wrt (\<lambda>p q. row_position (fst p) \<le> row_position (fst q)
                        \<and> (fst p = fst q \<longrightarrow> lesson_position (snd p) \<le> lesson_position (snd q)))
           (feed_rows s)"
proof -
  have "distinct (map row_id (sort_key row_position (modules_tbl s)))"
    using assms by (simp add: wf_store_def distinct_map)
  then have "distinct (sort_key row_position (modules_tbl s))"
    by (simp add: distinct_map)
  then show ?thesis
    unfolding feed_rows_def by (intro sorted_wrt_blocks) simp_all
qed

text \<open>
  C9. A request other than the preflight, served with a working client and store, is answered
  with status 200 and a feed that has one element per stored lesson, made of the module's
  name, the lesson's title, the lesson's video markup (the empty string when the stored value
  is absent) and a null url; modules come by position and the lessons of one module by
  position. When the client cannot be created or the query fails, the answer has status 500
  and a body with the error and its message.
\<close>

theorem read_feed:
  assumes "method \<noteq> ''OPTIONS''"
  shows "(reliable s \<and> wf_store s \<longrightarrow>
            status (fst (courses_api method ClientReady s)) = 200
            \<and> body (fst (courses_api method ClientReady s)) = Feed (map feed_item (feed_rows s))
            \<and> mset (map snd (feed_rows s)) = mset (lessons_tbl s)
            \<and> (\<forall>p\<in>set (feed_rows s). fst p \<in> set (modules_tbl s)
                   \<and> lesson_module_id (snd p) = row_id (fst p))
            \<and> sorted_wrt (\<lambda>p q. row_position (fst p) \<le> row_position (fst q)
                        \<and> (fst p = fst q \<longrightarrow> lesson_position (snd p) \<le> lesson_position (snd q)))
                 (feed_rows s))
         \<and> (outage s (requests s) = Some message \<longrightarrow>
              status (fst (courses_api method ClientReady s)) = 500
              \<and> body (fst (courses_api method ClientReady s))
                  = ErrorBody ''Internal server error'' message)
         \<and> status (fst (courses_api method (ClientThrows message) s)) = 500
         \<and> body (fst (courses_api method (ClientThrows message) s))
             = ErrorBody ''Internal server error'' message"
proof -
  have ok: "status (fst (courses_api method ClientReady s)) = 200
            \<and> body (fst (courses_api method ClientReady s)) = Feed (map feed_item (feed_rows s))"
    if "reliable s"
    using assms select_modules_reliable[OF that]
    by (simp add: courses_api_def feed_of_fetched)
  have mem: "\<forall>p\<in>set (feed_rows s). fst p \<in> set (modules_tbl s)
                   \<and> lesson_module_id (snd p) = row_id (fst p)"
    by (auto simp: feed_rows_def)
  have err: "status (fst (courses_api method ClientReady s)) = 500
              \<and> body (fst (courses_api method ClientReady s))
                  = ErrorBody ''Internal server error'' message"
    if "outage s (requests s) = Some message"
    using assms that
    by (simp add: courses_api_def select_modules_def request_def internal_error_def)
  have thr: "status (fst (courses_api method (ClientThrows message) s)) = 500
         \<and> body (fst (courses_api method (ClientThrows message) s))
             = ErrorBody ''Internal server error'' message"
    using assms by (simp add: courses_api_def internal_error_def)
  show ?thesis
    using ok mem err thr mset_feed_rows[of s] feed_rows_ordered[of s] by blast
qed

theorem read_feed_witness:
  "''GET'' \<noteq> ''OPTIONS'' \<and> reliable (db example_card_app) \<and> wf_store (db example_card_app)
   \<and> body (fst (courses_api ''GET'' ClientReady (db example_card_app)))
       = Feed [\<lparr>item_module = Some ''A'', item_title = Some ''P'', item_videoIframe = Some [],
                 item_url = None\<rparr>,
               \<lparr>item_module = Some ''A'', item_title = Some ''Q'', item_videoIframe = Some [],
                 item_url = None\<rparr>,
               \<lparr>item_module = Some ''A'', item_title = Some ''R'', item_videoIframe = Some [],
                 item_url = None\<rparr>]
   \<and> outage failing_store (requests failing_store) = Some ''connection lost''
   \<and> status (fst (courses_api ''GET'' ClientReady failing_store)) = 500
   \<and> body (fst (courses_api ''GET'' ClientReady failing_store))
       = ErrorBody ''Internal server error'' ''connection lost''"
proof -
  have m: "''GET'' \<noteq> ''OPTIONS''"
    by simp
  have o: "outage failing_store (requests failing_store) = Some ''connection lost''"
    by (simp add: failing_store_def)
  have f: "map feed_item (feed_rows (db example_card_app))
             = [\<lparr>item_module = Some ''A'', item_title = Some ''P'', item_videoIframe = Some [],
                 item_url = None\<rparr>,
               \<lparr>item_module = Some ''A'', item_title = Some ''Q'', item_videoIframe = Some [],
                 item_url = None\<rparr>,
               \<lparr>item_module = Some ''A'', item_title = Some ''R'', item_videoIframe = Some [],
                 item_url = None\<rparr>]"
    by (simp add: feed_rows_def feed_item_def example_card_app_def example_lessons_def)
  from read_feed[OF m, of "db example_card_app" "''connection lost''"] example_card_store
  have "body (fst (courses_api ''GET'' ClientReady (db example_card_app)))
          = Feed (map feed_item (feed_rows (db example_card_app)))"
    by blast
  moreover from read_feed[OF m, of failing_store "''connection lost''"] o
  have "status (fst (courses_api ''GET'' ClientReady failing_store)) = 500
        \<and> body (fst (courses_api ''GET'' ClientReady failing_store))
            = ErrorBody ''Internal server error'' ''connection lost''"
    by blast
  ultimately show ?thesis
    using m o f example_card_store by simp
qed

section \<open>Position writes after a reorder\<close>

lemma update_module_position_reliable:
  assumes "reliable s"
  shows "update_module_position k pos s =
           (None, s\<lparr>requests := Suc (requests s),
                    modules_tbl := map (\<lambda>r. if row_id r = k then r\<lparr>row_position := pos\<rparr> else r)
                                     (modules_tbl s)\<rparr>)"
  using reliable_request[OF assms] by (simp add: update_module_position_def)

lemma update_lesson_position_reliable:
  assumes "reliable s"
  shows "update_lesson_position k pos s =
           (None, s\<lparr>requests := Suc (requests s),
                    lessons_tbl := map (\<lambda>l. if lesson_id l = k then l\<lparr>lesson_position := pos\<rparr> else l)
                                     (lessons_tbl s)\<rparr>)"
  using reliable_request[OF assms] by (simp add: update_lesson_position_def)

lemma index_of_Cons:
  "index_of P (x # xs) = (if P x then 0 else Suc (index_of P xs))"
  by (simp add: index_of_def)

lemma updateModulePositions_from_reliable:
  assumes "reliable s" "distinct (map mod_id ms)"
  shows "\<exists>s'. updateModulePositions_from i ms s = (None, s')
              \<and> modules_tbl s' =
                   map (\<lambda>r. if row_id r \<in> mod_id ` set ms
                             then r\<lparr>row_position := i + index_of (\<lambda>m. mod_id m = row_id r) ms\<rparr>
                             else r) (modules_tbl s)
              \<and> lessons_tbl s' = lessons_tbl s \<and> reliable s'
              \<and> requests s' = requests s + length ms"
  using assms
proof (induction ms arbitrary: i s)
  case Nil
  then show ?case by (simp add: map_idI)
next
  case (Cons m ms)
  define s1 where
    "s1 = s\<lparr>requests := Suc (requests s),
             modules_tbl := map (\<lambda>r. if row_id r = mod_id m then r\<lparr>row_position := i\<rparr> else r)
                              (modules_tbl s)\<rparr>"
  have u: "update_module_position (mod_id m) i s = (None, s1)"
    unfolding s1_def by (rule update_module_position_reliable[OF Cons.prems(1)])
  have r1: "reliable s1"
    using Cons.prems(1) by (simp add: s1_def reliable_def)
  from Cons.prems(2) have d: "distinct (map mod_id ms)" and nm: "mod_id m \<notin> mod_id ` set ms"
    by simp_all
  from Cons.IH[OF r1 d, of "Suc i"] obtain s' where
    l: "updateModulePositions_from (Suc i) ms s1 = (None, s')"
    and t: "modules_tbl s' =
              map (\<lambda>r. if row_id r \<in> mod_id ` set ms
                        then r\<lparr>row_position := Suc i + index_of (\<lambda>m. mod_id m = row_id r) ms\<rparr>
                        else r) (modules_tbl s1)"
    and o: "lessons_tbl s' = lessons_tbl s1" "reliable s'" "requests s' = requests s1 + length ms"
    by blast
  have "modules_tbl s' =
          map (\<lambda>r. if row_id r \<in> mod_id ` set (m # ms)
                    then r\<lparr>row_position := i + index_of (\<lambda>m. mod_id m = row_id r) (m # ms)\<rparr>
                    else r) (modules_tbl s)"
    unfolding t s1_def using nm by (auto simp: index_of_Cons)
  then show ?case
    using u l o by (simp add: s1_def)
qed

lemma updateLessonPositions_from_reliable:
  assumes "reliable s" "distinct (map lesson_id ls)"
  shows "\<exists>s'. updateLessonPositions_from i ls s = (None, s')
              \<and> lessons_tbl s' =
                   map (\<lambda>r. if lesson_id r \<in> lesson_id ` set ls
                             then r\<lparr>lesson_position := i + index_of (\<lambda>l. lesson_id l = lesson_id r) ls\<rparr>
                             else r) (lessons_tbl s)
              \<and> modules_tbl s' = modules_tbl s \<and> reliable s'
              \<and> requests s' = requests s + length ls"
  using assms
proof (induction ls arbitrary: i s)
  case Nil
  then show ?case by (simp add: map_idI)
next
  case (Cons m ms)
  define s1 where
    "s1 = s\<lparr>requests := Suc (requests s),
             lessons_tbl := map (\<lambda>r. if lesson_id r = lesson_id m then r\<lparr>lesson_position := i\<rparr> else r)
                              (lessons_tbl s)\<rparr>"
  have u: "update_lesson_position (lesson_id m) i s = (None, s1)"
    unfolding s1_def by (rule update_lesson_position_reliable[OF Cons.prems(1)])
  have r1: "reliable s1"
    using Cons.prems(1) by (simp add: s1_def reliable_def)
  from Cons.prems(2) have d: "distinct (map lesson_id ms)" and nm: "lesson_id m \<notin> lesson_id ` set ms"
    by simp_all
  from Cons.IH[OF r1 d, of "Suc i"] obtain s' where
    l: "updateLessonPositions_from (Suc i) ms s1 = (None, s')"
    and t: "lessons_tbl s' =
              map (\<lambda>r. if lesson_id r \<in> lesson_id ` set ms
                        then r\<lparr>lesson_position := Suc i + index_of (\<lambda>l. lesson_id l = lesson_id r) ms\<rparr>
                        else r) (lessons_tbl s1)"
    and o: "modules_tbl s' = modules_tbl s1" "reliable s'" "requests s' = requests s1 + length ms"
    by blast
  have "lessons_tbl s' =
          map (\<lambda>r. if lesson_id r \<in> lesson_id ` set (m # ms)
                    then r\<lparr>lesson_position := i + index_of (\<lambda>l. lesson_id l = lesson_id r) (m # ms)\<rparr>
                    else r) (lessons_tbl s)"
    unfolding t s1_def using nm by (auto simp: index_of_Cons)
  then show ?case
    using u l o by (simp add: s1_def)
qed

lemma modules_updateModulePositions [simp]:
  "modules (updateModulePositions ms a) = modules a"
  by (simp add: updateModulePositions_def notify_def split: prod.splits option.splits)

lemma updateModulePositions_reliable:
  assumes "reliable (db a)" "distinct (map mod_id ms)"
  shows "modules_tbl (db (updateModulePositions ms a)) =
           map (\<lambda>r. if row_id r \<in> mod_id ` set ms
                     then r\<lparr>row_position := index_of (\<lambda>m. mod_id m = row_id r) ms\<rparr>
                     else r) (modules_tbl (db a))
         \<and> lessons_tbl (db (updateModulePositions ms a)) = lessons_tbl (db a)
         \<and> toasts (updateModulePositions ms a) = toasts a
         \<and> requests (db (updateModulePositions ms a)) = requests (db a) + length ms"
proof -
  from updateModulePositions_from_reliable[OF assms, of 0] obtain s' where
    "updateModulePositions_from 0 ms (db a) = (None, s')"
    "modules_tbl s' =
       map (\<lambda>r. if row_id r \<in> mod_id ` set ms
                 then r\<lparr>row_position := 0 + index_of (\<lambda>m. mod_id m = row_id r) ms\<rparr>
                 else r) (modules_tbl (db a))"
    "lessons_tbl s' = lessons_tbl (db a)" "requests s' = requests (db a) + length ms"
    by blast
  then show ?thesis
    by (simp add: updateModulePositions_def)
qed

lemma reorder_spec_length:
  assumes "a \<in> key ` set xs"
  shows "length (reorder_spec key xs a b) = length xs"
  using arg_cong[OF reorder_spec_mset[OF assms, of b], of size] by simp

lemma reorder_spec_distinct:
  assumes "a \<in> key ` set xs" "distinct (map key xs)"
  shows "distinct (map key (reorder_spec key xs a b))"
proof -
  have "mset (map key (reorder_spec key xs a b)) = mset (map key xs)"
    using reorder_spec_mset[OF assms(1), of b] by (metis mset_map)
  then show ?thesis
    using assms(2) by (metis mset_eq_imp_distinct_iff)
qed

text \<open>
  C10. A reorder of the modules permutes the local list and leaves the position field of
  every local item as it was, while the store gets, for every module, the index the module now
  has in the list. A snapshot taken from the local list then carries the old position
  fields: if they were the indexes before the move, they are not the indexes after it.
\<close>

theorem reorder_keeps_local_positions:
  assumes "movedId \<in> mod_id ` set (modules a)" "targetId \<in> mod_id ` set (modules a)"
    and "movedId \<noteq> targetId" "reliable (db a)" "distinct (map mod_id (modules a))"
  shows "\<exists>a'. handleDragEnd \<lparr>active = ModuleTag movedId, over = Some (ModuleTag targetId)\<rparr> a = Inr a'
           \<and> mset (modules a') = mset (modules a)
           \<and> map sm_position (snapshotData (modules a')) = map mod_position (modules a')
           \<and> (\<forall>r\<in>set (modules_tbl (db a')). row_id r \<in> mod_id ` set (modules a') \<longrightarrow>
                 row_position r = index_of (\<lambda>m. mod_id m = row_id r) (modules a'))
           \<and> (map mod_position (modules a) = [0..<length (modules a)] \<longrightarrow>
                 map sm_position (snapshotData (modules a')) \<noteq> [0..<length (modules a')])"
proof -
  let ?new = "reorder_spec mod_id (modules a) movedId targetId"
  let ?a' = "updateModulePositions ?new (a\<lparr>modules := ?new\<rparr>)"
  let ?i = "index_of (\<lambda>m. mod_id m = movedId) (modules a)"
  let ?j = "index_of (\<lambda>m. mod_id m = targetId) (modules a)"
  have h: "handleDragEnd \<lparr>active = ModuleTag movedId, over = Some (ModuleTag targetId)\<rparr> a = Inr ?a'"
    using assms(1,2,3) by (simp add: handleDragEnd_def arrayMove_reorder_spec)
  have m: "modules ?a' = ?new"
    by simp
  have p: "mset ?new = mset (modules a)"
    by (rule reorder_spec_mset[OF assms(1)])
  have len: "length ?new = length (modules a)"
    by (rule reorder_spec_length[OF assms(1)])
  have d: "distinct (map mod_id ?new)"
    by (rule reorder_spec_distinct[OF assms(1,5)])
  have sp: "map sm_position (snapshotData ?new) = map mod_position ?new"
    by (simp add: snapshotData_def comp_def)
  have st: "\<forall>r\<in>set (modules_tbl (db ?a')). row_id r \<in> mod_id ` set ?new \<longrightarrow>
                 row_position r = index_of (\<lambda>m. mod_id m = row_id r) ?new"
    using updateModulePositions_reliable[of "a\<lparr>modules := ?new\<rparr>" ?new] assms(4) d
    by auto
  have i: "?i < length (modules a)" "mod_id (modules a ! ?i) = movedId"
    and j: "?j < length (modules a)" "mod_id (modules a ! ?j) = targetId"
    using findIndex_key[OF assms(1)] findIndex_key[OF assms(2)] by auto
  have ij: "?i \<noteq> ?j"
    using i(2) j(2) assms(3) by auto
  have nth: "?new ! ?j = modules a ! ?i"
    by (rule reorder_spec_nth[OF assms(1,2)])
  have stale: "map mod_position ?new \<noteq> [0..<length ?new]"
    if old: "map mod_position (modules a) = [0..<length (modules a)]"
  proof
    assume new: "map mod_position ?new = [0..<length ?new]"
    have "mod_position (?new ! ?j) = ?j"
      using arg_cong[OF new, of "\<lambda>ps. ps ! ?j"] j(1) len by simp
    moreover have "mod_position (modules a ! ?i) = ?i"
      using arg_cong[OF old, of "\<lambda>ps. ps ! ?i"] i(1) by simp
    ultimately show False
      using nth ij by simp
  qed
  show ?thesis
    using h p sp st stale unfolding m by (intro exI[of _ ?a']) (simp only: m, blast)
qed

theorem reorder_keeps_local_positions_witness:
  "1 \<in> mod_id ` set (modules example_app) \<and> 3 \<in> mod_id ` set (modules example_app)
   \<and> (1::nat) \<noteq> 3 \<and> reliable (db example_app) \<and> distinct (map mod_id (modules example_app))
   \<and> map mod_position (modules example_app) = [0..<length (modules example_app)]
   \<and> (\<exists>a'. handleDragEnd \<lparr>active = ModuleTag 1, over = Some (ModuleTag 3)\<rparr> example_app = Inr a'
          \<and> map (\<lambda>m. (sm_name m, sm_position m)) (snapshotData (modules a'))
              = [(''B'', 1), (''C'', 2), (''A'', 0), (''D'', 3)]
          \<and> map (\<lambda>r. (row_name r, row_position r)) (modules_tbl (db a'))
              = [(''A'', 2), (''B'', 0), (''C'', 1), (''D'', 3)]
          \<and> map sm_position (snapshotData (modules a')) \<noteq> [0..<length (modules a')])"
proof -
  have m: "1 \<in> mod_id ` set (modules example_app)" "3 \<in> mod_id ` set (modules example_app)"
    and d: "distinct (map mod_id (modules example_app))"
    by (simp_all add: example_modules)
  have ne: "(1::nat) \<noteq> 3"
    by simp
  have u4: "[0..<4] = [0, 1, 2, 3]"
    by (simp add: upt_rec)
  have p: "map mod_position (modules example_app) = [0..<length (modules example_app)]"
    by (simp add: example_modules u4)
  from reorder_keeps_local_positions[OF m ne example_store_ok(1) d] p obtain a' where
    h: "handleDragEnd \<lparr>active = ModuleTag 1, over = Some (ModuleTag 3)\<rparr> example_app = Inr a'"
    and stale: "map sm_position (snapshotData (modules a')) \<noteq> [0..<length (modules a')]"
    by blast
  have "\<exists>b. handleDragEnd \<lparr>active = ModuleTag 1, over = Some (ModuleTag 3)\<rparr> example_app = Inr b
          \<and> map (\<lambda>m. (sm_name m, sm_position m)) (snapshotData (modules b))
              = [(''B'', 1), (''C'', 2), (''A'', 0), (''D'', 3)]
          \<and> map (\<lambda>r. (row_name r, row_position r)) (modules_tbl (db b))
              = [(''A'', 2), (''B'', 0), (''C'', 1), (''D'', 3)]"
    by (simp add: example_modules handleDragEnd_def arrayMove_def splice_start_def
        updateModulePositions_def update_module_position_def request_def snapshotData_def
        example_app_def example_store_def no_outage_def example_rows_def nest_def)
  with h stale have "\<exists>a'. handleDragEnd \<lparr>active = ModuleTag 1, over = Some (ModuleTag 3)\<rparr> example_app = Inr a'
          \<and> map (\<lambda>m. (sm_name m, sm_position m)) (snapshotData (modules a'))
              = [(''B'', 1), (''C'', 2), (''A'', 0), (''D'', 3)]
          \<and> map (\<lambda>r. (row_name r, row_position r)) (modules_tbl (db a'))
              = [(''A'', 2), (''B'', 0), (''C'', 1), (''D'', 3)]
          \<and> map sm_position (snapshotData (modules a')) \<noteq> [0..<length (modules a')]"
    by auto
  with m ne example_store_ok(1) d p show ?thesis
    by blast
qed

section \<open>Import and restore compared\<close>

lemma group_item_same_key:
  assumes "k \<notin> fst ` set acc" "imp_module it = k"
  shows "group_item (acc @ [(k, v)]) it = acc @ [(k, v @ [it])]"
proof -
  have "map (\<lambda>(k', v). if k' = k then (k', v @ [it]) else (k', v)) acc = acc"
    using assms(1) by (intro map_idI) force
  then show ?thesis
    using assms(2) by (simp add: group_item_def map_has_def map_get_push_def)
qed

lemma foldl_group_same_key:
  assumes "k \<notin> fst ` set acc" "\<forall>it\<in>set its. imp_module it = k"
  shows "foldl group_item (acc @ [(k, v)]) its = acc @ [(k, v @ its)]"
  using assms(2)
proof (induction its arbitrary: v)
  case Nil
  then show ?case by simp
next
  case (Cons it its)
  then show ?case
    using group_item_same_key[OF assms(1), of it v] by simp
qed

lemma group_item_new_key:
  assumes "k \<notin> fst ` set acc" "imp_module it = k"
  shows "group_item acc it = acc @ [(k, [it])]"
proof -
  have "map (\<lambda>(k', v). if k' = k then (k', v @ [it]) else (k', v)) acc = acc"
    using assms(1) by (intro map_idI) force
  then show ?thesis
    using assms by (simp add: group_item_def map_has_def map_get_push_def map_set_empty_def)
qed

lemma foldl_group_block:
  assumes "k \<notin> fst ` set acc" "\<forall>it\<in>set its. imp_module it = k" "its \<noteq> []"
  shows "foldl group_item acc its = acc @ [(k, its)]"
proof (cases its)
  case Nil
  with assms(3) show ?thesis by simp
next
  case (Cons it rest)
  with assms(2) have "imp_module it = k" "\<forall>it\<in>set rest. imp_module it = k"
    by simp_all
  then show ?thesis
    using group_item_new_key[OF assms(1), of it] foldl_group_same_key[OF assms(1), of rest "[it]"]
    by (simp add: Cons)
qed

lemma foldl_group_blocks:
  assumes "distinct (map fst gs)" "fst ` set gs \<inter> fst ` set acc = {}"
    and "\<forall>g\<in>set gs. snd g \<noteq> [] \<and> (\<forall>it\<in>set (snd g). imp_module it = fst g)"
  shows "foldl group_item acc (concat (map snd gs)) = acc @ gs"
  using assms
proof (induction gs arbitrary: acc)
  case Nil
  then show ?case by simp
next
  case (Cons g gs)
  have k: "fst g \<notin> fst ` set acc"
    using Cons.prems(2) by auto
  have b: "foldl group_item acc (snd g) = acc @ [g]"
    using foldl_group_block[OF k, of "snd g"] Cons.prems(3) by simp
  have "fst ` set gs \<inter> fst ` set (acc @ [g]) = {}"
    using Cons.prems(1,2) by auto
  with Cons.IH[of "acc @ [g]"] Cons.prems(1,3)
  have "foldl group_item (acc @ [g]) (concat (map snd gs)) = (acc @ [g]) @ gs"
    by simp
  with b show ?case by simp
qed

lemma group_flat_records:
  assumes "distinct (map sm_name tree)" "\<forall>m\<in>set tree. sm_lessons m \<noteq> []"
  shows "group_by_module (flat_records tree)
           = map (\<lambda>m. (sm_name m,
                        map (\<lambda>l. \<lparr>imp_module = sm_name m, imp_title = sl_title l,
                                  imp_videoIframe = sl_video_iframe l\<rparr>) (sm_lessons m))) tree"
proof -
  let ?gs = "map (\<lambda>m. (sm_name m,
                        map (\<lambda>l. \<lparr>imp_module = sm_name m, imp_title = sl_title l,
                                  imp_videoIframe = sl_video_iframe l\<rparr>) (sm_lessons m))) tree"
  have f: "flat_records tree = concat (map snd ?gs)"
    by (simp add: flat_records_def comp_def)
  have d: "distinct (map fst ?gs)"
    using assms(1) by (simp add: comp_def)
  have n: "\<forall>g\<in>set ?gs. snd g \<noteq> [] \<and> (\<forall>it\<in>set (snd g). imp_module it = fst g)"
    using assms(2) by auto
  show ?thesis
    unfolding group_by_module_def f using foldl_group_blocks[OF d _ n, of "[]"] by simp
qed

lemma tree_positions_derived:
  "tree_positions (derived_tree mp) = map (\<lambda>i. (i, [0..<length (snd (mp ! i))])) [0..<length mp]"
  by (simp add: tree_positions_def derived_tree_def derived_lessons_def comp_def map_idI)

text \<open>
  C2 (as amended). The import re-derives every position from array order: the store then
  holds, for the groups of the records in the order in which their module names were first
  seen, group \<open>i\<close> as a module at position \<open>i\<close> and its \<open>j\<close>-th record as a lesson at position
  \<open>j\<close>. The restore writes the position fields the snapshot carries. For a snapshot with
  distinct module names and no empty module, and the flat records of the same content, the
  two paths assign the same positions exactly when the snapshot's position fields are the
  array indexes.
\<close>

theorem replace_positions:
  assumes "reliable (db a)" "wf_store (db a)"
  shows "(previewData d = Some items \<longrightarrow>
            store_tree (db (snd (processImport (d, a)))) = derived_tree (group_by_module items)
            \<and> group_by_module items
                = map (\<lambda>k. (k, filter (\<lambda>it. imp_module it = k) items))
                    (first_seen (map imp_module items)))
         \<and> (snapshot_data snapshot = Some tree \<longrightarrow>
              store_tree (db (restoreSnapshot snapshot a)) = tree)
         \<and> (previewData d' = Some (flat_records tree) \<and> snapshot_data snapshot = Some tree
              \<and> distinct (map sm_name tree) \<and> (\<forall>m\<in>set tree. sm_lessons m \<noteq> []) \<longrightarrow>
              tree_positions (store_tree (db (snd (processImport (d', a))))) = index_positions tree
              \<and> tree_positions (store_tree (db (restoreSnapshot snapshot a))) = tree_positions tree
              \<and> (tree_positions (store_tree (db (snd (processImport (d', a)))))
                    = tree_positions (store_tree (db (restoreSnapshot snapshot a)))
                  \<longleftrightarrow> tree_positions tree = index_positions tree))"
proof -
  have imp: "store_tree (db (snd (processImport (d, a)))) = derived_tree (group_by_module items)"
    if "previewData d = Some items" for d items
    using processImport_reliable[OF assms that] by simp
  have res: "store_tree (db (restoreSnapshot snapshot a)) = tree"
    if "snapshot_data snapshot = Some tree"
    using restoreSnapshot_reliable[OF assms that] by simp
  have pos: "tree_positions (store_tree (db (snd (processImport (d', a))))) = index_positions tree"
    if p: "previewData d' = Some (flat_records tree)"
      and d: "distinct (map sm_name tree)" and n: "\<forall>m\<in>set tree. sm_lessons m \<noteq> []"
  proof -
    have "tree_positions (derived_tree (group_by_module (flat_records tree))) = index_positions tree"
      unfolding group_flat_records[OF d n] tree_positions_derived
      by (simp add: index_positions_def)
    then show ?thesis
      using imp[OF p] by simp
  qed
  show ?thesis
    using imp res pos group_by_module_first_seen[of items] by auto
qed

lemma example_trees:
  "distinct (map sm_name fresh_tree)" "\<forall>m\<in>set fresh_tree. sm_lessons m \<noteq> []"
  "tree_positions fresh_tree = [(0, [0, 1]), (1, [0])]"
  "index_positions fresh_tree = [(0, [0, 1]), (1, [0])]"
  "distinct (map sm_name stale_tree)" "\<forall>m\<in>set stale_tree. sm_lessons m \<noteq> []"
  "tree_positions stale_tree = [(1, [0]), (0, [0])]"
  "index_positions stale_tree = [(0, [0]), (1, [0])]"
proof -
  have u2: "[0..<2] = [0, Suc 0]"
    by (simp add: upt_rec)
  show "distinct (map sm_name fresh_tree)" "\<forall>m\<in>set fresh_tree. sm_lessons m \<noteq> []"
    "tree_positions fresh_tree = [(0, [0, 1]), (1, [0])]"
    "index_positions fresh_tree = [(0, [0, 1]), (1, [0])]"
    by (simp_all add: fresh_tree_def tree_positions_def index_positions_def u2)
  show "distinct (map sm_name stale_tree)" "\<forall>m\<in>set stale_tree. sm_lessons m \<noteq> []"
    "tree_positions stale_tree = [(1, [0]), (0, [0])]"
    "index_positions stale_tree = [(0, [0]), (1, [0])]"
    by (simp_all add: stale_tree_def tree_positions_def index_positions_def u2)
qed

theorem replace_positions_witness:
  "reliable (db example_app) \<and> wf_store (db example_app)
   \<and> distinct (map sm_name fresh_tree) \<and> list_all (\<lambda>m. sm_lessons m \<noteq> []) fresh_tree
   \<and> tree_positions (store_tree (db (snd (processImport
         (\<lparr>jsonInput = BlankText, previewData = Some (flat_records fresh_tree), error = None\<rparr>,
          example_app))))) = [(0, [0, 1]), (1, [0])]
   \<and> tree_positions (store_tree (db (restoreSnapshot
         \<lparr>snapshot_id = 9, snapshot_name = ''s'', snapshot_data = Some fresh_tree\<rparr> example_app)))
       = [(0, [0, 1]), (1, [0])]"
proof -
  let ?d = "\<lparr>jsonInput = BlankText, previewData = Some (flat_records fresh_tree), error = None\<rparr>"
  let ?s = "\<lparr>snapshot_id = 9, snapshot_name = ''s'', snapshot_data = Some fresh_tree\<rparr>"
  have p: "previewData ?d = Some (flat_records fresh_tree)" and q: "snapshot_data ?s = Some fresh_tree"
    by simp_all
  from replace_positions[OF example_store_ok, of ?d "flat_records fresh_tree" ?s fresh_tree ?d]
    p q example_trees(1,2)
  have "tree_positions (store_tree (db (snd (processImport (?d, example_app)))))
          = index_positions fresh_tree
        \<and> tree_positions (store_tree (db (restoreSnapshot ?s example_app)))
          = tree_positions fresh_tree"
    by blast
  then show ?thesis
    using example_store_ok example_trees(1,2,3,4) by (simp add: list_all_iff)
qed

text \<open>
  The claim as stated fails for the snapshot captured after a reorder: the restore writes
  the positions 1 and 0 it carries, the import of the same content writes 0 and 1.
\<close>

theorem restore_trusts_positions_counterexample:
  "tree_positions (store_tree (db (restoreSnapshot
       \<lparr>snapshot_id = 9, snapshot_name = ''s'', snapshot_data = Some stale_tree\<rparr> example_app)))
     = [(1, [0]), (0, [0])]
   \<and> tree_positions (store_tree (db (snd (processImport
         (\<lparr>jsonInput = BlankText, previewData = Some (flat_records stale_tree), error = None\<rparr>,
          example_app))))) = [(0, [0]), (1, [0])]"
proof -
  let ?d = "\<lparr>jsonInput = BlankText, previewData = Some (flat_records stale_tree), error = None\<rparr>"
  let ?s = "\<lparr>snapshot_id = 9, snapshot_name = ''s'', snapshot_data = Some stale_tree\<rparr>"
  have "store_tree (db (restoreSnapshot ?s example_app)) = stale_tree"
    using restoreSnapshot_reliable[OF example_store_ok, of ?s stale_tree] by simp
  moreover have "store_tree (db (snd (processImport (?d, example_app))))
                   = derived_tree (group_by_module (flat_records stale_tree))"
    using processImport_reliable[OF example_store_ok, of ?d "flat_records stale_tree"] by simp
  moreover have "tree_positions (derived_tree (group_by_module (flat_records stale_tree)))
                   = index_positions stale_tree"
    unfolding group_flat_records[OF example_trees(5,6)] tree_positions_derived
    by (simp add: index_positions_def)
  ultimately show ?thesis
    by (simp add: example_trees(7,8))
qed

section \<open>Export and import\<close>

lemma exportData_concat:
  "exportData a =
     concat (map (\<lambda>m. map (\<lambda>l. \<lparr>item_module = Some (mod_name m), item_title = Some (lesson_title l),
                                   item_videoIframe = lesson_video_iframe l, item_url = None\<rparr>)
                         (mod_lessons m)) (modules a))"
proof -
  let ?g = "\<lambda>m l. \<lparr>item_module = Some (mod_name m), item_title = Some (lesson_title l),
                    item_videoIframe = lesson_video_iframe l, item_url = None\<rparr>"
  have "foldl (\<lambda>out m. foldl (\<lambda>out l. out @ [?g m l]) out (mod_lessons m)) acc ms
          = acc @ concat (map (\<lambda>m. map (?g m) (mod_lessons m)) ms)" for acc ms
    by (induction ms arbitrary: acc) (simp_all add: foldl_push)
  from this[of "[]"] show ?thesis
    by (simp add: exportData_def)
qed

text \<open>The export read off the identity-free tree of a hierarchy.\<close>

lemma exportData_tree:
  "exportData a =
     concat (map (\<lambda>m. map (\<lambda>l. \<lparr>item_module = Some (sm_name m), item_title = Some (sl_title l),
                                   item_videoIframe = sl_video_iframe l, item_url = None\<rparr>)
                         (sm_lessons m)) (snapshotData (modules a)))"
  by (simp add: exportData_concat snapshotData_def comp_def)

lemma validate_from_all_checked:
  assumes "\<forall>x\<in>set xs. checked x = Some (f x)"
  shows "validate_from i (map Some xs) = Inr (map f xs)"
  using assms by (induction xs arbitrary: i) simp_all

lemma validate_export:
  assumes "\<forall>m\<in>set (modules a). mod_name m \<noteq> [] \<and> (\<forall>l\<in>set (mod_lessons m). lesson_title l \<noteq> [])"
  shows "validate_from 0 (map Some (exportData a)) = Inr (flat_records (snapshotData (modules a)))"
proof -
  let ?f = "\<lambda>x. \<lparr>imp_module = the (item_module x), imp_title = the (item_title x),
                  imp_videoIframe = item_videoIframe x\<rparr>"
  have "\<forall>x\<in>set (exportData a). checked x = Some (?f x)"
    using assms by (auto simp: exportData_concat checked_def)
  then have "validate_from 0 (map Some (exportData a)) = Inr (map ?f (exportData a))"
    by (rule validate_from_all_checked)
  also have "map ?f (exportData a) = flat_records (snapshotData (modules a))"
    by (simp add: exportData_concat flat_records_def snapshotData_def map_concat comp_def)
  finally show ?thesis .
qed

lemma flat_records_nonempty:
  "flat_records (filter (\<lambda>m. sm_lessons m \<noteq> []) tree) = flat_records tree"
  unfolding flat_records_def by (induction tree) simp_all

lemma map_nth_upt: "map (\<lambda>j. f (xs ! j)) [0..<length xs] = map f xs"
  by (rule nth_equalityI) simp_all

lemma export_of_derived:
  "concat (map (\<lambda>m. map (\<lambda>l. \<lparr>item_module = Some (sm_name m), item_title = Some (sl_title l),
                                 item_videoIframe = sl_video_iframe l, item_url = None\<rparr>)
                       (sm_lessons m))
             (derived_tree (map (\<lambda>m. (sm_name m,
                        map (\<lambda>l. \<lparr>imp_module = sm_name m, imp_title = sl_title l,
                                  imp_videoIframe = sl_video_iframe l\<rparr>) (sm_lessons m))) tree)))
     = map with_video_text
         (concat (map (\<lambda>m. map (\<lambda>l. \<lparr>item_module = Some (sm_name m), item_title = Some (sl_title l),
                                 item_videoIframe = sl_video_iframe l, item_url = None\<rparr>)
                       (sm_lessons m)) tree))"
proof -
  let ?gs = "map (\<lambda>m. (sm_name m,
                        map (\<lambda>l. \<lparr>imp_module = sm_name m, imp_title = sl_title l,
                                  imp_videoIframe = sl_video_iframe l\<rparr>) (sm_lessons m))) tree"
  have l: "map (\<lambda>l. \<lparr>item_module = Some nm, item_title = Some (sl_title l),
                     item_videoIframe = sl_video_iframe l, item_url = None\<rparr>)
             (derived_lessons (map (\<lambda>l. \<lparr>imp_module = nm, imp_title = sl_title l,
                                  imp_videoIframe = sl_video_iframe l\<rparr>) ls))
           = map (\<lambda>l. with_video_text \<lparr>item_module = Some nm, item_title = Some (sl_title l),
                     item_videoIframe = sl_video_iframe l, item_url = None\<rparr>) ls" for nm ls
    by (rule nth_equalityI) (simp_all add: derived_lessons_def with_video_text_def)
  have "map (\<lambda>m. map (\<lambda>l. \<lparr>item_module = Some (sm_name m), item_title = Some (sl_title l),
                                 item_videoIframe = sl_video_iframe l, item_url = None\<rparr>)
                       (sm_lessons m)) (derived_tree ?gs)
          = map (\<lambda>m. map (\<lambda>l. with_video_text \<lparr>item_module = Some (sm_name m),
                                 item_title = Some (sl_title l),
                                 item_videoIframe = sl_video_iframe l, item_url = None\<rparr>)
                       (sm_lessons m)) tree"
    by (rule nth_equalityI) (simp_all add: derived_tree_def l)
  then show ?thesis
    by (simp add: map_concat comp_def)
qed

lemma export_tree_nonempty:
  "concat (map (\<lambda>m. map (g m) (sm_lessons m)) (filter (\<lambda>m. sm_lessons m \<noteq> []) tree))
     = concat (map (\<lambda>m. map (g m) (sm_lessons m)) tree)"
  by (induction tree) simp_all

text \<open>
  C8 (as amended). For a hierarchy whose modules have pairwise distinct names, and whose
  names and titles are not empty, importing the export reproduces the exported records in
  the same order, with the same module and title; the video markup is the same too, except
  that an absent one comes back as the empty string.
\<close>

theorem export_import_roundtrip:
  assumes "reliable (db a)" "wf_store (db a)" "distinct (map mod_name (modules a))"
    and "\<forall>m\<in>set (modules a). mod_name m \<noteq> [] \<and> (\<forall>l\<in>set (mod_lessons m). lesson_title l \<noteq> [])"
    and "jsonInput d = ItemArray (map Some (exportData a))"
  shows "error (validateAndPreview d) = None
         \<and> exportData (snd (processImport (validateAndPreview d, a)))
             = map with_video_text (exportData a)
         \<and> ((\<forall>m\<in>set (modules a). \<forall>l\<in>set (mod_lessons m). lesson_video_iframe l \<noteq> None) \<longrightarrow>
              exportData (snd (processImport (validateAndPreview d, a))) = exportData a)"
proof -
  let ?tree = "snapshotData (modules a)"
  let ?tree' = "filter (\<lambda>m. sm_lessons m \<noteq> []) ?tree"
  let ?a' = "snd (processImport (validateAndPreview d, a))"
  let ?item = "\<lambda>m l. \<lparr>item_module = Some (sm_name m), item_title = Some (sl_title l),
                       item_videoIframe = sl_video_iframe l, item_url = None\<rparr>"
  have v: "validate_from 0 (map Some (exportData a)) = Inr (flat_records ?tree)"
    by (rule validate_export[OF assms(4)])
  have e: "error (validateAndPreview d) = None"
    and p: "previewData (validateAndPreview d) = Some (flat_records ?tree)"
    by (simp_all add: validateAndPreview_def assms(5) v Let_def)
  have "map sm_name ?tree = map mod_name (modules a)"
    by (simp add: snapshotData_def comp_def)
  then have d: "distinct (map sm_name ?tree')"
    using assms(3) by (simp add: distinct_map_filter)
  have n: "\<forall>m\<in>set ?tree'. sm_lessons m \<noteq> []"
    by simp
  have g: "group_by_module (flat_records ?tree)
             = map (\<lambda>m. (sm_name m,
                        map (\<lambda>l. \<lparr>imp_module = sm_name m, imp_title = sl_title l,
                                  imp_videoIframe = sl_video_iframe l\<rparr>) (sm_lessons m))) ?tree'"
    using group_flat_records[OF d n] by (simp only: flat_records_nonempty)
  have "snapshotData (modules ?a') = derived_tree (group_by_module (flat_records ?tree))"
    using processImport_reliable[OF assms(1,2) p] by simp
  then have "exportData ?a'
               = concat (map (\<lambda>m. map (?item m) (sm_lessons m))
                   (derived_tree (group_by_module (flat_records ?tree))))"
    by (simp only: exportData_tree)
  also have "\<dots> = map with_video_text (concat (map (\<lambda>m. map (?item m) (sm_lessons m)) ?tree'))"
    unfolding g by (rule export_of_derived)
  also have "\<dots> = map with_video_text (exportData a)"
    by (simp only: export_tree_nonempty exportData_tree)
  finally have r: "exportData ?a' = map with_video_text (exportData a)" .
  have "map with_video_text (exportData a) = exportData a"
    if "\<forall>m\<in>set (modules a). \<forall>l\<in>set (mod_lessons m). lesson_video_iframe l \<noteq> None"
  proof (rule map_idI)
    fix x
    assume "x \<in> set (exportData a)"
    then have "item_videoIframe x \<noteq> None"
      using that by (auto simp: exportData_concat)
    then obtain v where "item_videoIframe x = Some v"
      by (cases "item_videoIframe x") auto
    then show "with_video_text x = x"
      by (simp add: with_video_text_def or_empty_def)
  qed
  with e r show ?thesis
    by simp
qed

lemma tidy_modules:
  "modules tidy_app =
     [\<lparr>mod_id = 1, mod_name = ''A'', mod_position = 0,
       mod_lessons = [\<lparr>lesson_id = 3, lesson_title = ''L1'', lesson_video_iframe = Some ''v'',
                       lesson_position = 0, lesson_module_id = 1\<rparr>,
                      \<lparr>lesson_id = 4, lesson_title = ''L2'', lesson_video_iframe = Some [],
                       lesson_position = 1, lesson_module_id = 1\<rparr>]\<rparr>,
      \<lparr>mod_id = 2, mod_name = ''B'', mod_position = 1,
       mod_lessons = [\<lparr>lesson_id = 5, lesson_title = ''L3'', lesson_video_iframe = Some ''v'',
                       lesson_position = 0, lesson_module_id = 2\<rparr>]\<rparr>]"
  by (simp add: tidy_app_def tidy_rows_def tidy_lessons_def nest_def)

lemma tidy_store_ok:
  "reliable (db tidy_app)" "wf_store (db tidy_app)"
  by (simp_all add: tidy_app_def tidy_rows_def tidy_lessons_def reliable_def no_outage_def
      wf_store_def nil_uuid_def)

theorem export_import_roundtrip_witness:
  "reliable (db tidy_app) \<and> wf_store (db tidy_app) \<and> distinct (map mod_name (modules tidy_app))
   \<and> list_all (\<lambda>m. mod_name m \<noteq> [] \<and> list_all (\<lambda>l. lesson_title l \<noteq> []) (mod_lessons m))
        (modules tidy_app)
   \<and> list_all (\<lambda>m. list_all (\<lambda>l. lesson_video_iframe l \<noteq> None) (mod_lessons m)) (modules tidy_app)
   \<and> exportData (snd (processImport
         (validateAndPreview \<lparr>jsonInput = ItemArray (map Some (exportData tidy_app)), previewData = None,
                              error = None\<rparr>, tidy_app)))
       = [\<lparr>item_module = Some ''A'', item_title = Some ''L1'', item_videoIframe = Some ''v'',
           item_url = None\<rparr>,
          \<lparr>item_module = Some ''A'', item_title = Some ''L2'', item_videoIframe = Some [],
           item_url = None\<rparr>,
          \<lparr>item_module = Some ''B'', item_title = Some ''L3'', item_videoIframe = Some ''v'',
           item_url = None\<rparr>]
   \<and> exportData (snd (processImport
         (validateAndPreview \<lparr>jsonInput = ItemArray (map Some (exportData tidy_app)), previewData = None,
                              error = None\<rparr>, tidy_app))) = exportData tidy_app"
proof -
  let ?d = "\<lparr>jsonInput = ItemArray (map Some (exportData tidy_app)), previewData = None, error = None\<rparr>"
  have d: "distinct (map mod_name (modules tidy_app))"
    by (simp add: tidy_modules)
  have n: "\<forall>m\<in>set (modules tidy_app).
             mod_name m \<noteq> [] \<and> (\<forall>l\<in>set (mod_lessons m). lesson_title l \<noteq> [])"
    by (simp add: tidy_modules)
  have v: "\<forall>m\<in>set (modules tidy_app). \<forall>l\<in>set (mod_lessons m). lesson_video_iframe l \<noteq> None"
    by (simp add: tidy_modules)
  have j: "jsonInput ?d = ItemArray (map Some (exportData tidy_app))"
    by simp
  have x: "exportData tidy_app
       = [\<lparr>item_module = Some ''A'', item_title = Some ''L1'', item_videoIframe = Some ''v'',
           item_url = None\<rparr>,
          \<lparr>item_module = Some ''A'', item_title = Some ''L2'', item_videoIframe = Some [],
           item_url = None\<rparr>,
          \<lparr>item_module = Some ''B'', item_title = Some ''L3'', item_videoIframe = Some ''v'',
           item_url = None\<rparr>]"
    by (simp add: exportData_concat tidy_modules)
  from export_import_roundtrip[OF tidy_store_ok d n j] v
  have "exportData (snd (processImport (validateAndPreview ?d, tidy_app))) = exportData tidy_app"
    by blast
  then show ?thesis
    using tidy_store_ok d n v x by (simp add: list_all_iff)
qed

lemma twin_modules:
  "modules twin_app =
     [\<lparr>mod_id = 1, mod_name = ''M'', mod_position = 0,
       mod_lessons = [\<lparr>lesson_id = 4, lesson_title = ''L1'', lesson_video_iframe = Some ''v'',
                       lesson_position = 0, lesson_module_id = 1\<rparr>]\<rparr>,
      \<lparr>mod_id = 2, mod_name = ''X'', mod_position = 1,
       mod_lessons = [\<lparr>lesson_id = 5, lesson_title = ''L2'', lesson_video_iframe = Some ''v'',
                       lesson_position = 0, lesson_module_id = 2\<rparr>]\<rparr>,
      \<lparr>mod_id = 3, mod_name = ''M'', mod_position = 2,
       mod_lessons = [\<lparr>lesson_id = 6, lesson_title = ''L3'', lesson_video_iframe = Some ''v'',
                       lesson_position = 0, lesson_module_id = 3\<rparr>]\<rparr>]"
  by (simp add: twin_app_def twin_rows_def twin_lessons_def nest_def)

lemma twin_store_ok:
  "reliable (db twin_app)" "wf_store (db twin_app)"
  by (simp_all add: twin_app_def twin_rows_def twin_lessons_def reliable_def no_outage_def
      wf_store_def nil_uuid_def)

text \<open>
  The claim as stated fails when two modules share a name and another module lies between
  them: the import merges the two into the first.
\<close>

theorem export_import_duplicate_names_counterexample:
  "map (\<lambda>x. (item_module x, item_title x)) (exportData twin_app)
     = [(Some ''M'', Some ''L1''), (Some ''X'', Some ''L2''), (Some ''M'', Some ''L3'')]
   \<and> map (\<lambda>x. (item_module x, item_title x))
        (exportData (snd (processImport
           (validateAndPreview \<lparr>jsonInput = ItemArray (map Some (exportData twin_app)), previewData = None,
                                error = None\<rparr>, twin_app))))
     = [(Some ''M'', Some ''L1''), (Some ''M'', Some ''L3''), (Some ''X'', Some ''L2'')]"
proof -
  let ?d = "\<lparr>jsonInput = ItemArray (map Some (exportData twin_app)), previewData = None, error = None\<rparr>"
  let ?items = "[\<lparr>imp_module = ''M'', imp_title = ''L1'', imp_videoIframe = Some ''v''\<rparr>,
                 \<lparr>imp_module = ''X'', imp_title = ''L2'', imp_videoIframe = Some ''v''\<rparr>,
                 \<lparr>imp_module = ''M'', imp_title = ''L3'', imp_videoIframe = Some ''v''\<rparr>]"
  have x: "exportData twin_app
             = [\<lparr>item_module = Some ''M'', item_title = Some ''L1'', item_videoIframe = Some ''v'',
                 item_url = None\<rparr>,
                \<lparr>item_module = Some ''X'', item_title = Some ''L2'', item_videoIframe = Some ''v'',
                 item_url = None\<rparr>,
                \<lparr>item_module = Some ''M'', item_title = Some ''L3'', item_videoIframe = Some ''v'',
                 item_url = None\<rparr>]"
    by (simp add: exportData_concat twin_modules)
  have p: "previewData (validateAndPreview ?d) = Some ?items"
    by (simp add: validateAndPreview_def x checked_def Let_def)
  have g: "group_by_module ?items
             = [(''M'', [\<lparr>imp_module = ''M'', imp_title = ''L1'', imp_videoIframe = Some ''v''\<rparr>,
                         \<lparr>imp_module = ''M'', imp_title = ''L3'', imp_videoIframe = Some ''v''\<rparr>]),
                (''X'', [\<lparr>imp_module = ''X'', imp_title = ''L2'', imp_videoIframe = Some ''v''\<rparr>])]"
    by (simp add: group_by_module_def group_item_def map_has_def map_set_empty_def
        map_get_push_def)
  have u2: "[0..<2] = [0, Suc 0]"
    by (simp add: upt_rec)
  have "snapshotData (modules (snd (processImport (validateAndPreview ?d, twin_app))))
          = derived_tree (group_by_module ?items)"
    using processImport_reliable[OF twin_store_ok p] by simp
  then have "map (\<lambda>x. (item_module x, item_title x))
        (exportData (snd (processImport (validateAndPreview ?d, twin_app))))
     = [(Some ''M'', Some ''L1''), (Some ''M'', Some ''L3''), (Some ''X'', Some ''L2'')]"
    by (simp add: exportData_tree g derived_tree_def derived_lessons_def u2)
  then show ?thesis
    by (simp add: x)
qed

section \<open>Density of positions\<close>

lemma dense_mset: "dense ps \<longleftrightarrow> mset ps = mset [0..<length ps]"
proof
  assume "dense ps"
  then have "mset (sort ps) = mset [0..<length ps]"
    by (simp add: dense_def)
  then show "mset ps = mset [0..<length ps]"
    by simp
next
  assume "mset ps = mset [0..<length ps]"
  then have "sort ps = [0..<length ps]"
    by (intro properties_for_sort) simp_all
  then show "dense ps"
    by (simp add: dense_def)
qed

lemma dense_upt [simp]: "dense [0..<n]"
  by (simp add: dense_mset)

lemma dense_snoc: "dense ps \<Longrightarrow> dense (ps @ [length ps])"
  by (simp add: dense_mset)

lemma index_of_nth_distinct:
  assumes "distinct (map key xs)" "k < length xs"
  shows "index_of (\<lambda>x. key x = key (xs ! k)) xs = k"
  using assms
proof (induction xs arbitrary: k)
  case Nil
  then show ?case by simp
next
  case (Cons x xs)
  show ?case
  proof (cases k)
    case 0
    then show ?thesis by (simp add: index_of_Cons)
  next
    case (Suc j)
    with Cons.prems have j: "j < length xs" and d: "distinct (map key xs)"
      and x: "key x \<notin> key ` set xs"
      by simp_all
    from j have "key (xs ! j) \<in> key ` set xs"
      by simp
    with x have "key (xs ! j) \<noteq> key x"
      by metis
    moreover have "index_of (\<lambda>y. key y = key (xs ! j)) xs = j"
      by (rule Cons.IH[OF d j])
    ultimately show ?thesis
      using Suc by (simp add: index_of_Cons)
  qed
qed

lemma renumber_own_keys:
  assumes "distinct (map key xs)"
  shows "map (\<lambda>k. index_of (\<lambda>x. key x = k) xs) (map key xs) = [0..<length xs]"
  by (rule nth_equalityI) (simp_all add: index_of_nth_distinct[OF assms])

lemma dense_renumber:
  assumes "distinct (map key xs)" "mset ids = mset (map key xs)"
  shows "dense (map (\<lambda>k. index_of (\<lambda>x. key x = k) xs) ids)"
proof -
  have "mset (map (\<lambda>k. index_of (\<lambda>x. key x = k) xs) ids)
          = image_mset (\<lambda>k. index_of (\<lambda>x. key x = k) xs) (mset (map key xs))"
    using assms(2) by (metis mset_map)
  also have "\<dots> = mset (map (\<lambda>k. index_of (\<lambda>x. key x = k) xs) (map key xs))"
    by (simp only: mset_map)
  also have "\<dots> = mset [0..<length xs]"
    by (simp only: renumber_own_keys[OF assms(1)])
  finally have "mset (map (\<lambda>k. index_of (\<lambda>x. key x = k) xs) ids) = mset [0..<length xs]" .
  moreover have "length ids = length xs"
    using arg_cong[OF assms(2), of size] by simp
  ultimately show ?thesis
    by (simp add: dense_mset)
qed

lemma updateLessonPositions_reliable:
  assumes "reliable (db a)" "distinct (map lesson_id ls)"
  shows "lessons_tbl (db (updateLessonPositions ls a)) =
           map (\<lambda>r. if lesson_id r \<in> lesson_id ` set ls
                     then r\<lparr>lesson_position := index_of (\<lambda>l. lesson_id l = lesson_id r) ls\<rparr>
                     else r) (lessons_tbl (db a))
         \<and> modules_tbl (db (updateLessonPositions ls a)) = modules_tbl (db a)
         \<and> toasts (updateLessonPositions ls a) = toasts a"
proof -
  from updateLessonPositions_from_reliable[OF assms, of 0] obtain s' where
    "updateLessonPositions_from 0 ls (db a) = (None, s')"
    "lessons_tbl s' =
       map (\<lambda>r. if lesson_id r \<in> lesson_id ` set ls
                 then r\<lparr>lesson_position := 0 + index_of (\<lambda>l. lesson_id l = lesson_id r) ls\<rparr>
                 else r) (lessons_tbl (db a))"
    "modules_tbl s' = modules_tbl (db a)"
    by blast
  then show ?thesis
    by (simp add: updateLessonPositions_def)
qed

lemma reorder_modules_dense:
  assumes "reliable (db a)" "distinct (map row_id (modules_tbl (db a)))" "modules_in_sync a"
    and "movedId \<in> mod_id ` set (modules a)" "targetId \<in> mod_id ` set (modules a)"
    and "movedId \<noteq> targetId"
  shows "\<exists>a'. handleDragEnd \<lparr>active = ModuleTag movedId, over = Some (ModuleTag targetId)\<rparr> a = Inr a'
              \<and> dense (module_scope (db a')) \<and> toasts a' = toasts a"
proof -
  let ?new = "reorder_spec mod_id (modules a) movedId targetId"
  let ?a' = "updateModulePositions ?new (a\<lparr>modules := ?new\<rparr>)"
  let ?rows = "modules_tbl (db a)"
  have h: "handleDragEnd \<lparr>active = ModuleTag movedId, over = Some (ModuleTag targetId)\<rparr> a = Inr ?a'"
    using assms(4,5,6) by (simp add: handleDragEnd_def arrayMove_reorder_spec)
  have sync: "mset (map mod_id (modules a)) = mset (map row_id ?rows)"
    using assms(3) by (simp add: modules_in_sync_def)
  then have "distinct (map mod_id (modules a))"
    using assms(2) mset_eq_imp_distinct_iff[of "map mod_id (modules a)" "map row_id ?rows"] by simp
  then have d: "distinct (map mod_id ?new)"
    by (rule reorder_spec_distinct[OF assms(4)])
  have "mset (map mod_id ?new) = mset (map mod_id (modules a))"
    using arg_cong[OF reorder_spec_mset[OF assms(4), of targetId], of "image_mset mod_id"] by simp
  with sync have ids: "mset (map row_id ?rows) = mset (map mod_id ?new)"
    by simp
  have mem: "row_id r \<in> mod_id ` set ?new" if "r \<in> set ?rows" for r
  proof -
    have "set (map row_id ?rows) = set (map mod_id ?new)"
      by (rule mset_eq_setD[OF ids])
    with that show ?thesis
      by force
  qed
  have u: "modules_tbl (db ?a') =
             map (\<lambda>r. if row_id r \<in> mod_id ` set ?new
                       then r\<lparr>row_position := index_of (\<lambda>m. mod_id m = row_id r) ?new\<rparr>
                       else r) ?rows"
    and t: "toasts ?a' = toasts a"
    using updateModulePositions_reliable[of "a\<lparr>modules := ?new\<rparr>" ?new] assms(1) d by simp_all
  have "module_scope (db ?a') = map (\<lambda>k. index_of (\<lambda>m. mod_id m = k) ?new) (map row_id ?rows)"
    unfolding module_scope_def u using mem by (simp add: comp_def)
  then have "dense (module_scope (db ?a'))"
    using dense_renumber[OF d ids] by simp
  with h t show ?thesis
    by blast
qed

lemma reorder_lessons_dense:
  assumes "reliable (db a)" "distinct (map lesson_id (lessons_tbl (db a)))" "lessons_in_sync modl a"
    and "movedId \<in> lesson_id ` set (mod_lessons modl)"
    and "targetId \<in> lesson_id ` set (mod_lessons modl)" "movedId \<noteq> targetId"
  shows "\<exists>a'. handleLessonDragEnd modl \<lparr>active = LessonTag movedId, over = Some (LessonTag targetId)\<rparr> a
                = Inr a'
              \<and> dense (lesson_scope (db a') (mod_id modl)) \<and> toasts a' = toasts a"
proof -
  let ?new = "reorder_spec lesson_id (mod_lessons modl) movedId targetId"
  let ?a1 = "updateModule (mod_id modl) (modl\<lparr>mod_lessons := ?new\<rparr>) a"
  let ?a' = "updateLessonPositions ?new ?a1"
  let ?sc = "filter (\<lambda>l. lesson_module_id l = mod_id modl) (lessons_tbl (db a))"
  let ?upd = "\<lambda>r. if lesson_id r \<in> lesson_id ` set ?new
                   then r\<lparr>lesson_position := index_of (\<lambda>l. lesson_id l = lesson_id r) ?new\<rparr>
                   else r"
  have h: "handleLessonDragEnd modl \<lparr>active = LessonTag movedId, over = Some (LessonTag targetId)\<rparr> a
             = Inr ?a'"
    using assms(4,5,6) by (simp add: handleLessonDragEnd_def arrayMove_reorder_spec)
  have a1: "db ?a1 = db a" "toasts ?a1 = toasts a"
    by (simp_all add: updateModule_def)
  have sync: "mset (map lesson_id (mod_lessons modl)) = mset (map lesson_id ?sc)"
    using assms(3) by (simp add: lessons_in_sync_def)
  have "distinct (map lesson_id ?sc)"
    using assms(2) by (rule distinct_map_filter)
  with sync have "distinct (map lesson_id (mod_lessons modl))"
    using mset_eq_imp_distinct_iff[of "map lesson_id (mod_lessons modl)" "map lesson_id ?sc"] by simp
  then have d: "distinct (map lesson_id ?new)"
    by (rule reorder_spec_distinct[OF assms(4)])
  have "mset (map lesson_id ?new) = mset (map lesson_id (mod_lessons modl))"
    using arg_cong[OF reorder_spec_mset[OF assms(4), of targetId], of "image_mset lesson_id"] by simp
  with sync have ids: "mset (map lesson_id ?sc) = mset (map lesson_id ?new)"
    by simp
  have mem: "lesson_id r \<in> lesson_id ` set ?new" if "r \<in> set ?sc" for r
  proof -
    have "set (map lesson_id ?sc) = set (map lesson_id ?new)"
      by (rule mset_eq_setD[OF ids])
    with that show ?thesis
      by force
  qed
  have u: "lessons_tbl (db ?a') = map ?upd (lessons_tbl (db a))" and t: "toasts ?a' = toasts a"
    using updateLessonPositions_reliable[of ?a1 ?new] assms(1) d by (simp_all add: a1)
  have "filter (\<lambda>l. lesson_module_id l = mod_id modl) (map ?upd (lessons_tbl (db a))) = map ?upd ?sc"
    by (simp add: filter_map comp_def if_distrib[of lesson_module_id] cong: if_cong)
  then have "lesson_scope (db ?a') (mod_id modl) = map (lesson_position \<circ> ?upd) ?sc"
    unfolding lesson_scope_def u by simp
  also have "\<dots> = map (\<lambda>k. index_of (\<lambda>l. lesson_id l = k) ?new) (map lesson_id ?sc)"
    using mem by (simp add: comp_def)
  finally have "dense (lesson_scope (db ?a') (mod_id modl))"
    using dense_renumber[OF d ids] by simp
  with h t show ?thesis
    by blast
qed

text \<open>
  An add writes the length of the local list as the position of the new entity, whatever
  positions the scope holds.
\<close>

lemma addModule_position:
  assumes "reliable (db a)" "\<not> blank newModuleName"
  shows "module_scope (db (addModule newModuleName a)) = module_scope (db a) @ [length (modules a)]
         \<and> toasts (addModule newModuleName a)
             = toasts a @ [ToastSuccess ''Module added successfully'']"
  using assms(2)
  by (simp add: addModule_def insert_module_reliable[OF assms(1)] notify_def module_scope_def)

lemma addLesson_position:
  assumes "reliable (db a)" "\<not> blank newLessonTitle"
  shows "lesson_scope (db (addLesson modl newLessonTitle newLessonIframe a)) (mod_id modl)
           = lesson_scope (db a) (mod_id modl) @ [length (mod_lessons modl)]
         \<and> toasts (addLesson modl newLessonTitle newLessonIframe a)
             = toasts a @ [ToastSuccess ''Lesson added successfully'']"
  using assms(2)
  by (simp add: addLesson_def insert_lessons_reliable[OF assms(1)] notify_def updateModule_def
      lesson_scope_def)

text \<open>
  So an add to a scope whose positions are exactly \<open>0, \<dots>, n - 1\<close>, with a local list of
  its \<open>n\<close> entities, leaves the positions exactly \<open>0, \<dots>, n\<close>.
\<close>

lemma addModule_dense:
  assumes "reliable (db a)" "\<not> blank newModuleName" "modules_in_sync a"
    and "dense (module_scope (db a))"
  shows "dense (module_scope (db (addModule newModuleName a)))
         \<and> length (module_scope (db (addModule newModuleName a)))
             = Suc (length (module_scope (db a)))"
proof -
  have "length (map mod_id (modules a)) = length (map row_id (modules_tbl (db a)))"
    using assms(3) unfolding modules_in_sync_def by (rule mset_eq_length)
  then have "length (modules a) = length (module_scope (db a))"
    by (simp add: module_scope_def)
  then show ?thesis
    using addModule_position[OF assms(1,2)] dense_snoc[OF assms(4)] by simp
qed

lemma addLesson_dense:
  assumes "reliable (db a)" "\<not> blank newLessonTitle" "lessons_in_sync modl a"
    and "dense (lesson_scope (db a) (mod_id modl))"
  shows "dense (lesson_scope (db (addLesson modl newLessonTitle newLessonIframe a)) (mod_id modl))
         \<and> length (lesson_scope (db (addLesson modl newLessonTitle newLessonIframe a))
              (mod_id modl))
             = Suc (length (lesson_scope (db a) (mod_id modl)))"
proof -
  have "length (map lesson_id (mod_lessons modl))
          = length (map lesson_id
                     (filter (\<lambda>l. lesson_module_id l = mod_id modl) (lessons_tbl (db a))))"
    using assms(3) unfolding lessons_in_sync_def by (rule mset_eq_length)
  then have "length (mod_lessons modl) = length (lesson_scope (db a) (mod_id modl))"
    by (simp add: lesson_scope_def)
  then show ?thesis
    using addLesson_position[OF assms(1,2), of modl newLessonIframe] dense_snoc[OF assms(4)]
    by simp
qed

lemma deleteModule_positions:
  assumes "reliable (db a)"
  shows "module_scope (db (deleteModule moduleId a))
           = map row_position (filter (\<lambda>r. row_id r \<noteq> moduleId) (modules_tbl (db a)))
         \<and> (\<forall>m. m \<noteq> moduleId \<longrightarrow>
               lesson_scope (db (deleteModule moduleId a)) m = lesson_scope (db a) m)
         \<and> toasts (deleteModule moduleId a)
             = toasts a @ [ToastSuccess ''Module deleted successfully'']"
proof -
  have "filter (\<lambda>l. lesson_module_id l = m)
          (filter (\<lambda>l. lesson_module_id l \<notin>
                     set (map row_id (filter (\<lambda>r. row_id r = moduleId) (modules_tbl (db a)))))
             (lessons_tbl (db a)))
        = filter (\<lambda>l. lesson_module_id l = m) (lessons_tbl (db a))"
    if "m \<noteq> moduleId" for m
    using that by (auto intro!: filter_cong)
  then show ?thesis
    by (simp add: deleteModule_def delete_module_eq_def delete_modules_where_reliable[OF assms]
        notify_def module_scope_def lesson_scope_def)
qed

lemma deleteLesson_positions:
  assumes "reliable (db a)"
  shows "lesson_scope (db (deleteLesson modl lessonId a)) m
           = map lesson_position
               (filter (\<lambda>l. lesson_id l \<noteq> lessonId)
                  (filter (\<lambda>l. lesson_module_id l = m) (lessons_tbl (db a))))
         \<and> module_scope (db (deleteLesson modl lessonId a)) = module_scope (db a)
         \<and> toasts (deleteLesson modl lessonId a)
             = toasts a @ [ToastSuccess ''Lesson deleted successfully'']"
proof -
  have "delete_lesson_eq lessonId (db a) =
          (None, (db a)\<lparr>requests := Suc (requests (db a)),
                        lessons_tbl := filter (\<lambda>l. lesson_id l \<noteq> lessonId) (lessons_tbl (db a))\<rparr>)"
    using reliable_request[OF assms] by (simp add: delete_lesson_eq_def)
  then show ?thesis
    by (simp add: deleteLesson_def notify_def updateModule_def module_scope_def lesson_scope_def
        conj_commute)
qed

lemma lesson_scope_strip:
  "lesson_scope s m
     = map sl_position (map strip_lesson (filter (\<lambda>l. lesson_module_id l = m) (lessons_tbl s)))"
  by (simp add: lesson_scope_def comp_def strip_lesson_def)

lemma dense_tree_scopes:
  assumes "store_tree s = derived_tree mp"
  shows "dense (module_scope s) \<and> (\<forall>r\<in>set (modules_tbl s). dense (lesson_scope s (row_id r)))"
proof -
  have "module_scope s = map sm_position (store_tree s)"
    by (simp add: module_scope_def store_tree_def comp_def)
  also have "\<dots> = [0..<length mp]"
    unfolding assms by (simp add: derived_tree_def comp_def map_idI)
  finally have m: "dense (module_scope s)"
    by (simp add: dense_mset)
  have l: "dense (lesson_scope s (row_id r))" if "r \<in> set (modules_tbl s)" for r
  proof -
    have "\<lparr>sm_name = row_name r, sm_position = row_position r,
            sm_lessons = map strip_lesson
               (filter (\<lambda>l. lesson_module_id l = row_id r) (lessons_tbl s))\<rparr> \<in> set (store_tree s)"
      using that by (force simp: store_tree_def)
    then obtain i where "i < length mp"
      and "map strip_lesson (filter (\<lambda>l. lesson_module_id l = row_id r) (lessons_tbl s))
             = derived_lessons (snd (mp ! i))"
      unfolding assms derived_tree_def by auto
    then have "lesson_scope s (row_id r) = map sl_position (derived_lessons (snd (mp ! i)))"
      by (simp only: lesson_scope_strip)
    also have "\<dots> = [0..<length (snd (mp ! i))]"
      by (simp add: derived_lessons_def comp_def map_idI)
    finally show ?thesis
      by (simp add: dense_mset)
  qed
  from m l show ?thesis
    by blast
qed

lemma import_dense:
  assumes "reliable (db a)" "wf_store (db a)" "previewData d = Some items"
  shows "dense (module_scope (db (snd (processImport (d, a)))))
         \<and> (\<forall>r\<in>set (modules_tbl (db (snd (processImport (d, a))))).
               dense (lesson_scope (db (snd (processImport (d, a)))) (row_id r)))"
proof -
  have "store_tree (db (snd (processImport (d, a)))) = derived_tree (group_by_module items)"
    using processImport_reliable[OF assms] by simp
  then show ?thesis
    by (rule dense_tree_scopes)
qed

lemma dense_set:
  assumes "dense ps"
  shows "set ps = {0..<length ps}"
proof -
  from assms have "mset ps = mset [0..<length ps]"
    by (simp add: dense_mset)
  then have "set ps = set [0..<length ps]"
    by (rule mset_eq_setD)
  then show ?thesis
    by simp
qed

lemma filter_neq_removeAll: "filter (\<lambda>k. k \<noteq> x) xs = removeAll x xs"
  by (induction xs) auto

text \<open>
  Removing one entity from a scope whose positions are exactly \<open>0, \<dots>, n - 1\<close>, without
  renumbering: unless the entity held the last position, \<open>n - 1\<close> is still taken by one of
  the \<open>n - 1\<close> entities that remain.
\<close>

lemma gap_after_removal:
  assumes "distinct (map key xs)" "dense (map pos xs)" "x \<in> set xs" "Suc (pos x) < length xs"
  shows "length xs - 1 \<in> set (map pos (filter (\<lambda>y. key y \<noteq> key x) xs))
         \<and> length (filter (\<lambda>y. key y \<noteq> key x) xs) = length xs - 1
         \<and> \<not> dense (map pos (filter (\<lambda>y. key y \<noteq> key x) xs))"
proof -
  let ?n = "length xs"
  let ?rest = "filter (\<lambda>y. key y \<noteq> key x) xs"
  have "set (map pos xs) = {0..<?n}"
    using dense_set[OF assms(2)] by simp
  moreover have "?n - 1 \<in> {0..<?n}"
    using assms(4) by simp
  ultimately have "?n - 1 \<in> pos ` set xs"
    by simp
  then obtain x' where x': "x' \<in> set xs" "pos x' = ?n - 1"
    by auto
  with assms(4) have "x' \<noteq> x"
    by auto
  with assms(1,3) x'(1) have "key x' \<noteq> key x"
    by (auto simp: distinct_map inj_on_def)
  with x' have last: "?n - 1 \<in> set (map pos ?rest)"
    by force
  have "map key ?rest = filter (\<lambda>k. k \<noteq> key x) (map key xs)"
    by (simp add: filter_map comp_def)
  also have "\<dots> = removeAll (key x) (map key xs)"
    by (rule filter_neq_removeAll)
  also have "\<dots> = remove1 (key x) (map key xs)"
    using assms(1) by (simp add: distinct_remove1_removeAll)
  finally have "length (map key ?rest) = length (remove1 (key x) (map key xs))"
    by simp
  then have len: "length ?rest = ?n - 1"
    using assms(3) by (simp add: length_remove1)
  have "\<not> dense (map pos ?rest)"
  proof
    assume "dense (map pos ?rest)"
    from dense_set[OF this] last len show False
      by simp
  qed
  with last len show ?thesis
    by simp
qed

lemma deleteModule_leaves_gap:
  assumes "reliable (db a)" "distinct (map row_id (modules_tbl (db a)))"
    and "dense (module_scope (db a))" "r \<in> set (modules_tbl (db a))"
    and "Suc (row_position r) < length (modules_tbl (db a))"
  shows "length (modules_tbl (db a)) - 1 \<in> set (module_scope (db (deleteModule (row_id r) a)))
         \<and> length (module_scope (db (deleteModule (row_id r) a))) = length (modules_tbl (db a)) - 1
         \<and> \<not> dense (module_scope (db (deleteModule (row_id r) a)))"
proof -
  have "module_scope (db (deleteModule (row_id r) a))
          = map row_position (filter (\<lambda>x. row_id x \<noteq> row_id r) (modules_tbl (db a)))"
    using deleteModule_positions[OF assms(1), of "row_id r"] by simp
  then show ?thesis
    using gap_after_removal[of row_id "modules_tbl (db a)" row_position r] assms(2-5)
    by (simp add: module_scope_def)
qed

lemma addModule_after_delete_repeats:
  assumes "reliable (db a)" "distinct (map row_id (modules_tbl (db a)))" "modules_in_sync a"
    and "dense (module_scope (db a))" "r \<in> set (modules_tbl (db a))"
    and "Suc (row_position r) < length (modules_tbl (db a))" "\<not> blank newModuleName"
  shows "\<not> distinct (module_scope (db (addModule newModuleName (deleteModule (row_id r) a))))"
proof -
  let ?a1 = "deleteModule (row_id r) a"
  have db1: "db ?a1 = (db a)\<lparr>requests := Suc (requests (db a)),
                    modules_tbl := filter (\<lambda>x. row_id x \<noteq> row_id r) (modules_tbl (db a)),
                    lessons_tbl := filter (\<lambda>l. lesson_module_id l \<notin>
                                      set (map row_id (filter (\<lambda>x. row_id x = row_id r)
                                                         (modules_tbl (db a)))))
                                     (lessons_tbl (db a))\<rparr>"
    and ms1: "modules ?a1 = filter (\<lambda>m. mod_id m \<noteq> row_id r) (modules a)"
    by (simp_all add: deleteModule_def delete_module_eq_def
        delete_modules_where_reliable[OF assms(1)] notify_def)
  have rel: "reliable (db ?a1)"
    using assms(1) unfolding db1 by (simp add: reliable_def)
  have "mset (filter (\<lambda>k. k \<noteq> row_id r) (map mod_id (modules a)))
          = mset (filter (\<lambda>k. k \<noteq> row_id r) (map row_id (modules_tbl (db a))))"
    using assms(3) by (simp add: modules_in_sync_def del: mset_map)
  then have "length (filter (\<lambda>k. k \<noteq> row_id r) (map mod_id (modules a)))
          = length (filter (\<lambda>k. k \<noteq> row_id r) (map row_id (modules_tbl (db a))))"
    by (rule mset_eq_length)
  then have "length (modules ?a1) = length (module_scope (db ?a1))"
    unfolding ms1 db1 by (simp add: filter_map comp_def module_scope_def)
  with deleteModule_leaves_gap[OF assms(1,2,4,5,6)]
  have "length (modules ?a1) \<in> set (module_scope (db ?a1))"
    by simp
  then show ?thesis
    using addModule_position[OF rel assms(7)] by simp
qed

lemma deleteLesson_leaves_gap:
  assumes "reliable (db a)" "distinct (map lesson_id (lessons_tbl (db a)))"
    and "dense (lesson_scope (db a) m)" "l \<in> set (lessons_tbl (db a))" "lesson_module_id l = m"
    and "Suc (lesson_position l) < length (lesson_scope (db a) m)"
  shows "length (lesson_scope (db a) m) - 1
           \<in> set (lesson_scope (db (deleteLesson modl (lesson_id l) a)) m)
         \<and> length (lesson_scope (db (deleteLesson modl (lesson_id l) a)) m)
             = length (lesson_scope (db a) m) - 1
         \<and> \<not> dense (lesson_scope (db (deleteLesson modl (lesson_id l) a)) m)"
proof -
  let ?xs = "filter (\<lambda>x. lesson_module_id x = m) (lessons_tbl (db a))"
  have "lesson_scope (db (deleteLesson modl (lesson_id l) a)) m
          = map lesson_position (filter (\<lambda>x. lesson_id x \<noteq> lesson_id l) ?xs)"
    using deleteLesson_positions[OF assms(1), of modl "lesson_id l" m] by simp
  moreover have "distinct (map lesson_id ?xs)"
    using assms(2) by (rule distinct_map_filter)
  moreover have "l \<in> set ?xs"
    using assms(4,5) by simp
  ultimately show ?thesis
    using gap_after_removal[of lesson_id ?xs lesson_position l] assms(3,6)
    by (simp add: lesson_scope_def)
qed

lemma addLesson_after_delete_repeats:
  assumes "reliable (db a)" "distinct (map lesson_id (lessons_tbl (db a)))"
    and "lessons_in_sync modl a" "dense (lesson_scope (db a) (mod_id modl))"
    and "l \<in> set (lessons_tbl (db a))" "lesson_module_id l = mod_id modl"
    and "Suc (lesson_position l) < length (lesson_scope (db a) (mod_id modl))"
    and "\<not> blank newLessonTitle"
  shows "\<not> distinct (lesson_scope
            (db (addLesson
                   (modl\<lparr>mod_lessons := filter (\<lambda>x. lesson_id x \<noteq> lesson_id l) (mod_lessons modl)\<rparr>)
                   newLessonTitle newLessonIframe (deleteLesson modl (lesson_id l) a)))
            (mod_id modl))"
proof -
  let ?a1 = "deleteLesson modl (lesson_id l) a"
  let ?m1 = "modl\<lparr>mod_lessons := filter (\<lambda>x. lesson_id x \<noteq> lesson_id l) (mod_lessons modl)\<rparr>"
  let ?xs = "filter (\<lambda>x. lesson_module_id x = mod_id modl) (lessons_tbl (db a))"
  have del: "delete_lesson_eq (lesson_id l) (db a) =
          (None, (db a)\<lparr>requests := Suc (requests (db a)),
                        lessons_tbl := filter (\<lambda>x. lesson_id x \<noteq> lesson_id l)
                                         (lessons_tbl (db a))\<rparr>)"
    using reliable_request[OF assms(1)] by (simp add: delete_lesson_eq_def)
  have rel: "reliable (db ?a1)"
    using assms(1) by (simp add: deleteLesson_def del notify_def updateModule_def reliable_def)
  have "mset (filter (\<lambda>k. k \<noteq> lesson_id l) (map lesson_id (mod_lessons modl)))
          = mset (filter (\<lambda>k. k \<noteq> lesson_id l) (map lesson_id ?xs))"
    using assms(3) by (simp add: lessons_in_sync_def del: mset_map)
  then have "length (filter (\<lambda>k. k \<noteq> lesson_id l) (map lesson_id (mod_lessons modl)))
          = length (filter (\<lambda>k. k \<noteq> lesson_id l) (map lesson_id ?xs))"
    by (rule mset_eq_length)
  then have "length (mod_lessons ?m1) = length (filter (\<lambda>x. lesson_id x \<noteq> lesson_id l) ?xs)"
    by (simp add: filter_map comp_def)
  also have "\<dots> = length (lesson_scope (db ?a1) (mod_id modl))"
    using deleteLesson_positions[OF assms(1), of modl "lesson_id l" "mod_id modl"] by simp
  finally have "length (mod_lessons ?m1) \<in> set (lesson_scope (db ?a1) (mod_id modl))"
    using deleteLesson_leaves_gap[OF assms(1,2,4,5,6,7), of modl] by simp
  then show ?thesis
    using addLesson_position[OF rel assms(8), of ?m1 newLessonIframe] by simp
qed

text \<open>The two examples, after the delete of the entity at position 0.\<close>

lemma after_delete_module:
  "deleteModule 1 example_app =
     \<lparr>modules = [\<lparr>mod_id = 2, mod_name = ''B'', mod_position = 1, mod_lessons = []\<rparr>,
                 \<lparr>mod_id = 3, mod_name = ''C'', mod_position = 2, mod_lessons = []\<rparr>,
                 \<lparr>mod_id = 4, mod_name = ''D'', mod_position = 3, mod_lessons = []\<rparr>],
      db = \<lparr>modules_tbl = [\<lparr>row_id = 2, row_name = ''B'', row_position = 1\<rparr>,
                            \<lparr>row_id = 3, row_name = ''C'', row_position = 2\<rparr>,
                            \<lparr>row_id = 4, row_name = ''D'', row_position = 3\<rparr>],
            lessons_tbl = [], snapshots_tbl = [], next_uuid = 5, requests = 1,
            outage = no_outage\<rparr>,
      toasts = [ToastSuccess ''Module deleted successfully'']\<rparr>"
  by (simp add: deleteModule_def delete_module_eq_def delete_modules_where_def request_def
      example_app_def example_store_def example_rows_def nest_def notify_def no_outage_def)

lemma after_delete_lesson:
  "deleteLesson example_card 2 example_card_app =
     \<lparr>modules = [\<lparr>mod_id = 1, mod_name = ''A'', mod_position = 0,
                   mod_lessons =
                     [\<lparr>lesson_id = 3, lesson_title = ''Q'', lesson_video_iframe = Some [],
                       lesson_position = 1, lesson_module_id = 1\<rparr>,
                      \<lparr>lesson_id = 4, lesson_title = ''R'', lesson_video_iframe = None,
                       lesson_position = 2, lesson_module_id = 1\<rparr>]\<rparr>],
      db = \<lparr>modules_tbl = [\<lparr>row_id = 1, row_name = ''A'', row_position = 0\<rparr>],
            lessons_tbl =
              [\<lparr>lesson_id = 3, lesson_title = ''Q'', lesson_video_iframe = Some [],
                lesson_position = 1, lesson_module_id = 1\<rparr>,
               \<lparr>lesson_id = 4, lesson_title = ''R'', lesson_video_iframe = None,
                lesson_position = 2, lesson_module_id = 1\<rparr>],
            snapshots_tbl = [], next_uuid = 5, requests = 1, outage = no_outage\<rparr>,
      toasts = [ToastSuccess ''Lesson deleted successfully'']\<rparr>"
  by (simp add: deleteLesson_def delete_lesson_eq_def request_def updateModule_def
      example_card_app_def example_card_def example_lessons_def notify_def no_outage_def)

lemma example_after_delete:
  "reliable (db (deleteModule 1 example_app))"
  "distinct (map row_id (modules_tbl (db (deleteModule 1 example_app))))"
  "modules_in_sync (deleteModule 1 example_app)"
  "2 \<in> mod_id ` set (modules (deleteModule 1 example_app))"
  "3 \<in> mod_id ` set (modules (deleteModule 1 example_app))"
  unfolding after_delete_module
  by (simp_all add: reliable_def no_outage_def modules_in_sync_def)

lemma dense_examples:
  "\<not> dense [1, 2, 3]" "\<not> dense [1, 2]" "\<not> distinct [1, 2, 3, 3::nat]" "\<not> distinct [1, 2, 2::nat]"
  by (simp_all add: dense_def upt_rec)

text \<open>
  C1. The claim does not hold of a delete, nor of the add that follows one. Neither
  \<^verbatim>\<open>deleteModule\<close> nor \<^verbatim>\<open>deleteLesson\<close> renumbers the siblings that remain, and an add takes
  the length of the local list as the new position. With the modules A, B, C, D at the
  positions 0, 1, 2, 3, deleting A succeeds and leaves 1, 2, 3; adding E then succeeds and
  writes 3 again, so the scope holds 1, 2, 3, 3. A reorder after the delete does bring the
  scope back to 0, 1, 2. In the same way, with the lessons P, Q, R of one module at 0, 1, 2,
  deleting P leaves 1, 2, and adding a lesson to the module as the updated list holds it
  leaves 1, 2, 2.
\<close>

theorem delete_then_add_breaks_density:
  "module_scope (db example_app) = [0, 1, 2, 3]
   \<and> toasts (deleteModule 1 example_app) = [ToastSuccess ''Module deleted successfully'']
   \<and> module_scope (db (deleteModule 1 example_app)) = [1, 2, 3]
   \<and> \<not> dense (module_scope (db (deleteModule 1 example_app)))
   \<and> toasts (addModule ''E'' (deleteModule 1 example_app))
       = [ToastSuccess ''Module deleted successfully'', ToastSuccess ''Module added successfully'']
   \<and> module_scope (db (addModule ''E'' (deleteModule 1 example_app))) = [1, 2, 3, 3]
   \<and> \<not> distinct (module_scope (db (addModule ''E'' (deleteModule 1 example_app))))
   \<and> (\<exists>a'. handleDragEnd \<lparr>active = ModuleTag 2, over = Some (ModuleTag 3)\<rparr>
               (deleteModule 1 example_app) = Inr a'
          \<and> dense (module_scope (db a')))
   \<and> lesson_scope (db example_card_app) (mod_id example_card) = [0, 1, 2]
   \<and> toasts (deleteLesson example_card 2 example_card_app)
       = [ToastSuccess ''Lesson deleted successfully'']
   \<and> lesson_scope (db (deleteLesson example_card 2 example_card_app)) (mod_id example_card)
       = [1, 2]
   \<and> \<not> dense (lesson_scope (db (deleteLesson example_card 2 example_card_app))
           (mod_id example_card))
   \<and> toasts (addLesson (hd (modules (deleteLesson example_card 2 example_card_app))) ''E'' []
               (deleteLesson example_card 2 example_card_app))
       = [ToastSuccess ''Lesson deleted successfully'', ToastSuccess ''Lesson added successfully'']
   \<and> lesson_scope
         (db (addLesson (hd (modules (deleteLesson example_card 2 example_card_app))) ''E'' []
                (deleteLesson example_card 2 example_card_app)))
         (mod_id example_card) = [1, 2, 2]
   \<and> \<not> distinct (lesson_scope
         (db (addLesson (hd (modules (deleteLesson example_card 2 example_card_app))) ''E'' []
                (deleteLesson example_card 2 example_card_app)))
         (mod_id example_card))"
proof -
  have m0: "module_scope (db example_app) = [0, 1, 2, 3]"
    and l0: "lesson_scope (db example_card_app) (mod_id example_card) = [0, 1, 2]"
    by (simp_all add: module_scope_def lesson_scope_def example_app_def example_store_def
        example_rows_def example_card_app_def example_card_def example_lessons_def)
  have m1: "toasts (deleteModule 1 example_app) = [ToastSuccess ''Module deleted successfully'']"
    and m2: "module_scope (db (deleteModule 1 example_app)) = [1, 2, 3]"
    unfolding after_delete_module by (simp_all add: module_scope_def)
  have m3: "toasts (addModule ''E'' (deleteModule 1 example_app))
              = [ToastSuccess ''Module deleted successfully'',
                 ToastSuccess ''Module added successfully'']"
    and m4: "module_scope (db (addModule ''E'' (deleteModule 1 example_app))) = [1, 2, 3, 3]"
    unfolding after_delete_module
    by (simp_all add: addModule_def insert_module_def request_def blank_def js_whitespace_def
        notify_def no_outage_def module_scope_def Let_def)
  have m5: "\<exists>a'. handleDragEnd \<lparr>active = ModuleTag 2, over = Some (ModuleTag 3)\<rparr>
                    (deleteModule 1 example_app) = Inr a'
                \<and> dense (module_scope (db a'))"
    using reorder_modules_dense[OF example_after_delete] by auto
  have l1: "toasts (deleteLesson example_card 2 example_card_app)
              = [ToastSuccess ''Lesson deleted successfully'']"
    and l2: "lesson_scope (db (deleteLesson example_card 2 example_card_app)) (mod_id example_card)
              = [1, 2]"
    unfolding after_delete_lesson by (simp_all add: lesson_scope_def example_card_def)
  have l3: "toasts (addLesson (hd (modules (deleteLesson example_card 2 example_card_app))) ''E'' []
                      (deleteLesson example_card 2 example_card_app))
              = [ToastSuccess ''Lesson deleted successfully'',
                 ToastSuccess ''Lesson added successfully'']"
    and l4: "lesson_scope
               (db (addLesson (hd (modules (deleteLesson example_card 2 example_card_app))) ''E'' []
                      (deleteLesson example_card 2 example_card_app)))
               (mod_id example_card) = [1, 2, 2]"
    unfolding after_delete_lesson
    by (simp_all add: addLesson_def insert_lessons_def request_def blank_def js_whitespace_def
        notify_def no_outage_def lesson_scope_def updateModule_def Let_def example_card_def)
  show ?thesis
    unfolding m0 l0 m1 m2 m3 m4 l1 l2 l3 l4
    using m5 dense_examples by (intro conjI) simp_all
qed

end
